(* ===== verification/Prelude.thy ===== *)
theory Prelude
  imports Main "HOL-Library.Char_ord" "HOL-Library.List_Lexorder"
begin

text \<open>
  What every component of the development shares: the values Go errors take, the
  state-and-error monad in which the service and repository functions are written,
  two small calculi for it (a weakest-precondition simplifier and an
  invariant-preservation calculus), signed 64-bit wrap-around, the ASCII part of
  package strings, and facts about lists used as database tables.
\<close>

section \<open>Errors\<close>

text \<open>
  The sentinel errors: the \<open>var\<close> block of pkg/service/service.go, followed by the
  sentinels of pkg/service/idempotency.go, pkg/auth/auth.go and pkg/service/settings.go.
\<close>

datatype sentinel =
    ErrEmailTaken | ErrInvalidEmail | ErrInvalidCredentials | ErrWeakPassword
  | ErrQuotaExceeded | ErrDeviceLimit | ErrBundleExists | ErrDeviceRevoked
  | ErrStripeDisabled | ErrResetTokenRequired | ErrNewPasswordRequired
  | ErrPasswordResetInvalid | ErrVerifyTokenRequired | ErrEmailVerifyInvalid
  | ErrUserInactive | ErrBundleNotFound | ErrSnapshotNotFound | ErrUserNotFound
  | ErrDeviceNotFound | ErrDeviceAlreadyRevoked | ErrDeviceNotRegistered
  | ErrBillingNotSupported | ErrRefreshTokenRequired | ErrReservationDenied
  | ErrTwoFactorRequired | ErrTwoFactorNotEnabled | ErrTwoFactorEnabled
  | ErrTwoFactorInvalidCode | ErrTwoFactorLocked | ErrTwoFactorChallenge
  | ErrSignupsDisabled | ErrPasskeyDisabled | ErrPasskeyChallenge | ErrPasskeyNotFound
  | ErrPasskeyVerification | ErrAccountDeletionBlocked | ErrAccountDeletionRequiresReview
  | ErrIdempotencyConflict | ErrIdempotencyInProgress | ErrIdempotencyKeyRequired
  | ErrIdempotencyStoreUnavailable
  | ErrStepUpExpired | ErrStepUpInvalid
  | ErrUnknownSetting | ErrInvalidSettingValue | ErrSettingsUnavailable

text \<open>
  A Go error value: a sentinel, an error made from a message alone
  (\<open>errors.New\<close>, \<open>fmt.Errorf\<close> without \<open>%w\<close>), an error that wraps another
  (\<open>fmt.Errorf\<close> with \<open>%w\<close> after the text, or before it), or a failure reported by a driver (database, object
  store, cancelled context), which carries no identity the code inspects.
\<close>

datatype goerr =
    Sentinel sentinel
  | ErrMsg string
  | Wrap string goerr
  | WrapText goerr string
  | DriverErr string

fun errIs :: "goerr \<Rightarrow> sentinel \<Rightarrow> bool" where
  "errIs (Sentinel e) x = (e = x)"
| "errIs (ErrMsg m) x = False"
| "errIs (Wrap m e) x = errIs e x"
| "errIs (WrapText e m) x = errIs e x"
| "errIs (DriverErr m) x = False"

text \<open>\<open>err.Error()\<close>\<close>

fun sentinel_text :: "sentinel \<Rightarrow> string" where
  "sentinel_text ErrEmailTaken = ''email already registered''"
| "sentinel_text ErrInvalidEmail = ''invalid email''"
| "sentinel_text ErrInvalidCredentials = ''invalid email or password''"
| "sentinel_text ErrWeakPassword = ''password must be at least 10 characters''"
| "sentinel_text ErrQuotaExceeded = ''quota exceeded''"
| "sentinel_text ErrDeviceLimit = ''device limit reached''"
| "sentinel_text ErrBundleExists = ''bundle already exists''"
| "sentinel_text ErrDeviceRevoked = ''device has been revoked''"
| "sentinel_text ErrStripeDisabled = ''billing is not enabled''"
| "sentinel_text ErrResetTokenRequired = ''reset token is required''"
| "sentinel_text ErrNewPasswordRequired = ''new password is required''"
| "sentinel_text ErrPasswordResetInvalid = ''invalid or expired password reset token''"
| "sentinel_text ErrVerifyTokenRequired = ''verification token is required''"
| "sentinel_text ErrEmailVerifyInvalid = ''invalid or expired email verification token''"
| "sentinel_text ErrUserInactive = ''user not found or inactive''"
| "sentinel_text ErrBundleNotFound = ''bundle not found''"
| "sentinel_text ErrSnapshotNotFound = ''snapshot not found''"
| "sentinel_text ErrUserNotFound = ''user not found''"
| "sentinel_text ErrDeviceNotFound = ''device not found''"
| "sentinel_text ErrDeviceAlreadyRevoked = ''device already revoked''"
| "sentinel_text ErrDeviceNotRegistered = ''device not registered''"
| "sentinel_text ErrBillingNotSupported = ''billing not supported''"
| "sentinel_text ErrRefreshTokenRequired = ''refresh token is required''"
| "sentinel_text ErrReservationDenied = ''storage reservation denied''"
| "sentinel_text ErrTwoFactorRequired = ''two-factor authentication is required''"
| "sentinel_text ErrTwoFactorNotEnabled = ''two-factor authentication is not enabled''"
| "sentinel_text ErrTwoFactorEnabled = ''two-factor authentication is already enabled''"
| "sentinel_text ErrTwoFactorInvalidCode = ''invalid two-factor authentication code''"
| "sentinel_text ErrTwoFactorLocked = ''two-factor authentication is temporarily locked''"
| "sentinel_text ErrTwoFactorChallenge = ''invalid or expired two-factor challenge''"
| "sentinel_text ErrSignupsDisabled = ''new account registration is currently disabled''"
| "sentinel_text ErrPasskeyDisabled = ''passkey authentication is disabled''"
| "sentinel_text ErrPasskeyChallenge = ''invalid or expired passkey challenge''"
| "sentinel_text ErrPasskeyNotFound = ''passkey credential not found''"
| "sentinel_text ErrPasskeyVerification = ''passkey verification failed''"
| "sentinel_text ErrAccountDeletionBlocked = ''account deletion is blocked by policy''"
| "sentinel_text ErrAccountDeletionRequiresReview = ''account deletion requires operator review''"
| "sentinel_text ErrIdempotencyConflict = ''idempotency key reused with a different request''"
| "sentinel_text ErrIdempotencyInProgress = ''idempotent request is already processing''"
| "sentinel_text ErrIdempotencyKeyRequired = ''idempotency key is required''"
| "sentinel_text ErrIdempotencyStoreUnavailable = ''idempotency store unavailable''"
| "sentinel_text ErrStepUpExpired = ''step-up verification token is expired''"
| "sentinel_text ErrStepUpInvalid = ''invalid step-up verification token''"
| "sentinel_text ErrUnknownSetting = ''unknown system setting key''"
| "sentinel_text ErrInvalidSettingValue = ''invalid value for system setting type''"
| "sentinel_text ErrSettingsUnavailable = ''system settings store is not configured''"

fun Error :: "goerr \<Rightarrow> string" where
  "Error (Sentinel e) = sentinel_text e"
| "Error (ErrMsg m) = m"
| "Error (Wrap m e) = m @ '': '' @ Error e"
| "Error (WrapText e m) = Error e @ '': '' @ m"
| "Error (DriverErr m) = m"

section \<open>The monad of effectful Go functions\<close>

text \<open>
  A Go function that may fail is a function of the state: it returns an error
  (\<open>Inl\<close>) or a value (\<open>Inr\<close>) and the state it leaves behind. The state survives an
  error, as the effects made before an early return do.
\<close>

type_synonym ('s, 'a) gom = "'s \<Rightarrow> (goerr + 'a) \<times> 's"

definition retM :: "'a \<Rightarrow> ('s, 'a) gom" where
  "retM x = (\<lambda>s. (Inr x, s))"

definition errM :: "goerr \<Rightarrow> ('s, 'a) gom" where
  "errM e = (\<lambda>s. (Inl e, s))"

text \<open>\<open>x, err := m; if err != nil { return err }; k x\<close>\<close>

definition bindM :: "('s, 'a) gom \<Rightarrow> ('a \<Rightarrow> ('s, 'b) gom) \<Rightarrow> ('s, 'b) gom" where
  "bindM m k = (\<lambda>s. case m s of (Inl e, t) \<Rightarrow> (Inl e, t) | (Inr x, t) \<Rightarrow> k x t)"

definition thenM :: "('s, 'a) gom \<Rightarrow> ('s, 'b) gom \<Rightarrow> ('s, 'b) gom" where
  "thenM m k = bindM m (\<lambda>_. k)"

text \<open>The error as a value, for code that looks at it before it decides.\<close>

definition tryM :: "('s, 'a) gom \<Rightarrow> ('s, goerr + 'a) gom" where
  "tryM m = (\<lambda>s. case m s of (r, t) \<Rightarrow> (Inr r, t))"

text \<open>\<open>_ = m\<close>: the error is dropped, the effects stay.\<close>

definition ignoreM :: "('s, 'a) gom \<Rightarrow> ('s, unit) gom" where
  "ignoreM m = (\<lambda>s. case m s of (r, t) \<Rightarrow> (Inr (), t))"

text \<open>\<open>fmt.Errorf("msg: %w", err)\<close>\<close>

definition wrapM :: "string \<Rightarrow> ('s, 'a) gom \<Rightarrow> ('s, 'a) gom" where
  "wrapM msg m = (\<lambda>s. case m s of (Inl e, t) \<Rightarrow> (Inl (Wrap msg e), t) | (Inr x, t) \<Rightarrow> (Inr x, t))"

text \<open>\<open>defer f()\<close> ahead of the rest of the body: \<open>f\<close> runs on every exit and sees the result.\<close>

definition deferM :: "('s, 'a) gom \<Rightarrow> (goerr + 'a \<Rightarrow> ('s, unit) gom) \<Rightarrow> ('s, 'a) gom" where
  "deferM m f = (\<lambda>s. case m s of (r, t) \<Rightarrow> (r, snd (f r t)))"

text \<open>\<open>for _, x := range xs { body }\<close> with an accumulator.\<close>

fun forM :: "'x list \<Rightarrow> 'a \<Rightarrow> ('x \<Rightarrow> 'a \<Rightarrow> ('s, 'a) gom) \<Rightarrow> ('s, 'a) gom" where
  "forM [] acc body = retM acc"
| "forM (x # xs) acc body = bindM (body x acc) (\<lambda>acc'. forM xs acc' body)"

lemma retM_app [simp]: "retM x s = (Inr x, s)"
  by (simp add: retM_def)

lemma errM_app [simp]: "errM e s = (Inl e, s)"
  by (simp add: errM_def)

lemma bindM_retM [simp]: "bindM (retM x) k = k x"
  by (simp add: bindM_def fun_eq_iff)

lemma bindM_errM [simp]: "bindM (errM e) k = errM e"
  by (simp add: bindM_def fun_eq_iff)

lemma bindM_assoc: "bindM (bindM m k) h = bindM m (\<lambda>x. bindM (k x) h)"
  by (auto simp: bindM_def fun_eq_iff split: prod.split sum.split)

text \<open>How a run that succeeds came about: the form in which success is taken apart.\<close>

lemma bindM_InrE:
  assumes "bindM m k s = (Inr y, t)"
  obtains x u where "m s = (Inr x, u)" and "k x u = (Inr y, t)"
  using assms by (auto simp: bindM_def split: prod.splits sum.splits)

lemma bindM_Inr_iff:
  "bindM m k s = (Inr y, t) \<longleftrightarrow> (\<exists>x u. m s = (Inr x, u) \<and> k x u = (Inr y, t))"
  by (auto simp: bindM_def split: prod.splits sum.splits)

lemma thenM_Inr_iff:
  "thenM m k s = (Inr y, t) \<longleftrightarrow> (\<exists>x u. m s = (Inr x, u) \<and> k u = (Inr y, t))"
  by (simp add: thenM_def bindM_Inr_iff)

lemma wrapM_Inr_iff [simp]: "wrapM msg m s = (Inr y, t) \<longleftrightarrow> m s = (Inr y, t)"
  by (auto simp: wrapM_def split: prod.splits sum.splits)

lemma tryM_Inr_iff [simp]: "tryM m s = (Inr r, t) \<longleftrightarrow> m s = (r, t)"
  by (auto simp: tryM_def split: prod.splits)

lemma ignoreM_Inr_iff [simp]: "ignoreM m s = (Inr u, t) \<longleftrightarrow> snd (m s) = t"
  by (auto simp: ignoreM_def split: prod.splits)

lemma deferM_Inr_iff:
  "deferM m f s = (Inr y, t) \<longleftrightarrow> (\<exists>u. m s = (Inr y, u) \<and> t = snd (f (Inr y) u))"
  by (auto simp: deferM_def split: prod.splits)

lemma bindM_tryM: "m s = (r, t) \<Longrightarrow> bindM (tryM m) k s = k r t"
  by (simp add: bindM_def tryM_def)

lemma catch_Inr_iff:
  "bindM (tryM m) (\<lambda>r. case r of Inl e \<Rightarrow> f e | Inr x \<Rightarrow> k x) s = (Inr y, t) \<longleftrightarrow>
   (\<exists>e u. m s = (Inl e, u) \<and> f e u = (Inr y, t)) \<or> (\<exists>x u. m s = (Inr x, u) \<and> k x u = (Inr y, t))"
  by (cases "fst (m s)") (auto simp: bindM_def tryM_def split: prod.split)

lemmas run_ok = bindM_Inr_iff thenM_Inr_iff deferM_Inr_iff

text \<open>Running a closed call: the equations a witness evaluates with.\<close>

lemmas run_defs = bindM_def thenM_def tryM_def ignoreM_def wrapM_def deferM_def

subsection \<open>Weakest preconditions\<close>

text \<open>
  \<open>wpM m Q E s\<close>: run from \<open>s\<close>, the call ends in \<open>Q\<close> if it returns a value and in
  \<open>E\<close> if it returns an error. The equations below push it through the combinators.
\<close>

definition wpM :: "('s, 'a) gom \<Rightarrow> ('a \<Rightarrow> 's \<Rightarrow> bool) \<Rightarrow> (goerr \<Rightarrow> 's \<Rightarrow> bool) \<Rightarrow> 's \<Rightarrow> bool" where
  "wpM m Q E s = (case m s of (Inl e, t) \<Rightarrow> E e t | (Inr x, t) \<Rightarrow> Q x t)"

named_theorems wp

lemma wp_ret [wp]: "wpM (retM x) Q E s = Q x s"
  by (simp add: wpM_def)

lemma wp_err [wp]: "wpM (errM e) Q E s = E e s"
  by (simp add: wpM_def)

lemma wp_bind [wp]: "wpM (bindM m k) Q E s = wpM m (\<lambda>x. wpM (k x) Q E) E s"
  by (simp add: wpM_def bindM_def split: prod.split sum.split)

lemma wp_then [wp]: "wpM (thenM m k) Q E s = wpM m (\<lambda>_. wpM k Q E) E s"
  by (simp add: thenM_def wp_bind)

lemma wp_try [wp]: "wpM (tryM m) Q E s = wpM m (\<lambda>x. Q (Inr x)) (\<lambda>e. Q (Inl e)) s"
  by (simp add: wpM_def tryM_def split: prod.split sum.split)

lemma wp_ignore [wp]: "wpM (ignoreM m) Q E s = wpM m (\<lambda>_. Q ()) (\<lambda>_. Q ()) s"
  by (simp add: wpM_def ignoreM_def split: prod.split sum.split)

lemma wp_wrap [wp]: "wpM (wrapM msg m) Q E s = wpM m Q (\<lambda>e. E (Wrap msg e)) s"
  by (simp add: wpM_def wrapM_def split: prod.split sum.split)

lemma wp_defer [wp]:
  "wpM (deferM m f) Q E s = wpM m (\<lambda>x t. Q x (snd (f (Inr x) t))) (\<lambda>e t. E e (snd (f (Inl e) t))) s"
  by (simp add: wpM_def deferM_def split: prod.split sum.split)

lemma wp_if [wp]: "wpM (if b then m else m') Q E s = (if b then wpM m Q E s else wpM m' Q E s)"
  by simp

lemma wpM_mono:
  assumes "wpM m Q E s" and "\<And>x t. Q x t \<Longrightarrow> Q' x t" and "\<And>e t. E e t \<Longrightarrow> E' e t"
  shows "wpM m Q' E' s"
  using assms by (auto simp: wpM_def split: prod.splits sum.splits)

lemma wpM_okD: "wpM m Q E s \<Longrightarrow> m s = (Inr x, t) \<Longrightarrow> Q x t"
  by (simp add: wpM_def)

lemma wpM_errD: "wpM m Q E s \<Longrightarrow> m s = (Inl e, t) \<Longrightarrow> E e t"
  by (simp add: wpM_def)

subsection \<open>Preserving an invariant\<close>

text \<open>
  \<open>keepsM I m\<close>: from a state in \<open>I\<close> the call ends in \<open>I\<close>, whether it succeeds or fails.
\<close>

definition keepsM :: "('s \<Rightarrow> bool) \<Rightarrow> ('s, 'a) gom \<Rightarrow> bool" where
  "keepsM I m \<longleftrightarrow> (\<forall>s. I s \<longrightarrow> I (snd (m s)))"

named_theorems keeps

lemma keepsM_I: "(\<And>s. I s \<Longrightarrow> I (snd (m s))) \<Longrightarrow> keepsM I m"
  by (simp add: keepsM_def)

lemma keepsM_D: "keepsM I m \<Longrightarrow> I s \<Longrightarrow> m s = (r, t) \<Longrightarrow> I t"
  by (auto simp: keepsM_def dest: spec [of _ s])

lemma keepsM_snd: "keepsM I m \<Longrightarrow> I s \<Longrightarrow> I (snd (m s))"
  by (simp add: keepsM_def)

lemma keeps_ret [keeps]: "keepsM I (retM x)"
  by (simp add: keepsM_def)

lemma keeps_err [keeps]: "keepsM I (errM e)"
  by (simp add: keepsM_def)

lemma keeps_bind [keeps]:
  assumes "keepsM I m" and "\<And>x. keepsM I (k x)"
  shows "keepsM I (bindM m k)"
  unfolding keepsM_def
proof (intro allI impI)
  fix s
  assume "I s"
  with assms(1) have "I (snd (m s))"
    by (simp add: keepsM_def)
  with assms(2) show "I (snd (bindM m k s))"
    by (auto simp: bindM_def keepsM_def split: prod.split sum.split)
qed

lemma keeps_then [keeps]: "keepsM I m \<Longrightarrow> keepsM I k \<Longrightarrow> keepsM I (thenM m k)"
  by (simp add: thenM_def keeps_bind)

lemma keeps_try [keeps]: "keepsM I m \<Longrightarrow> keepsM I (tryM m)"
  by (simp add: keepsM_def tryM_def case_prod_beta)

lemma keeps_ignore [keeps]: "keepsM I m \<Longrightarrow> keepsM I (ignoreM m)"
  by (simp add: keepsM_def ignoreM_def case_prod_beta)

lemma keeps_wrap [keeps]: "keepsM I m \<Longrightarrow> keepsM I (wrapM msg m)"
  by (simp add: keepsM_def wrapM_def case_prod_beta split: sum.split)

lemma keeps_defer [keeps]:
  assumes "keepsM I m" and "\<And>r. keepsM I (f r)"
  shows "keepsM I (deferM m f)"
  unfolding keepsM_def
proof (intro allI impI)
  fix s
  assume "I s"
  obtain r t where rt: "m s = (r, t)"
    by (cases "m s")
  with assms(1) \<open>I s\<close> have "I t"
    by (rule keepsM_D)
  with assms(2) rt show "I (snd (deferM m f s))"
    by (simp add: deferM_def keepsM_def)
qed

lemma keeps_if [keeps]: "(b \<Longrightarrow> keepsM I m) \<Longrightarrow> (\<not> b \<Longrightarrow> keepsM I m') \<Longrightarrow> keepsM I (if b then m else m')"
  by simp

lemma keeps_case_option [keeps]:
  "(x = None \<Longrightarrow> keepsM I m) \<Longrightarrow> (\<And>y. x = Some y \<Longrightarrow> keepsM I (k y)) \<Longrightarrow>
   keepsM I (case x of None \<Rightarrow> m | Some y \<Rightarrow> k y)"
  by (cases x) simp_all

lemma keeps_case_sum [keeps]:
  "(\<And>e. x = Inl e \<Longrightarrow> keepsM I (f e)) \<Longrightarrow> (\<And>y. x = Inr y \<Longrightarrow> keepsM I (g y)) \<Longrightarrow>
   keepsM I (case x of Inl e \<Rightarrow> f e | Inr y \<Rightarrow> g y)"
  by (cases x) simp_all

lemma keeps_case_prod [keeps]:
  "(\<And>a b. x = (a, b) \<Longrightarrow> keepsM I (f a b)) \<Longrightarrow> keepsM I (case x of (a, b) \<Rightarrow> f a b)"
  by (cases x) simp

lemma keeps_for [keeps]: "(\<And>x acc. keepsM I (body x acc)) \<Longrightarrow> keepsM I (forM xs acc body)"
  by (induction xs arbitrary: acc) (auto intro!: keeps_ret keeps_bind)

lemma keeps_for_in:
  "(\<And>x acc. x \<in> set xs \<Longrightarrow> keepsM I (body x acc)) \<Longrightarrow> keepsM I (forM xs acc body)"
  by (induction xs arbitrary: acc) (auto intro!: keeps_ret keeps_bind)

lemma keeps_conj: "keepsM I m \<Longrightarrow> keepsM J m \<Longrightarrow> keepsM (\<lambda>s. I s \<and> J s) m"
  by (simp add: keepsM_def)

subsection \<open>Contracts\<close>

text \<open>
  \<open>hoareM P m Q E\<close>: from a state in \<open>P\<close> the call ends in \<open>Q\<close> or, with an error, in \<open>E\<close>.
  A component states what its operations do in this form, and the rules compose it.
\<close>

definition hoareM ::
  "('s \<Rightarrow> bool) \<Rightarrow> ('s, 'a) gom \<Rightarrow> ('a \<Rightarrow> 's \<Rightarrow> bool) \<Rightarrow> (goerr \<Rightarrow> 's \<Rightarrow> bool) \<Rightarrow> bool" where
  "hoareM P m Q E \<longleftrightarrow> (\<forall>s. P s \<longrightarrow> wpM m Q E s)"

lemma hoareI: "(\<And>s. P s \<Longrightarrow> wpM m Q E s) \<Longrightarrow> hoareM P m Q E"
  by (simp add: hoareM_def)

lemma hoareD: "hoareM P m Q E \<Longrightarrow> P s \<Longrightarrow> wpM m Q E s"
  by (simp add: hoareM_def)

lemma hoare_ok: "hoareM P m Q E \<Longrightarrow> P s \<Longrightarrow> m s = (Inr x, t) \<Longrightarrow> Q x t"
  using hoareD wpM_okD by metis

lemma hoare_error: "hoareM P m Q E \<Longrightarrow> P s \<Longrightarrow> m s = (Inl e, t) \<Longrightarrow> E e t"
  using hoareD wpM_errD by metis

lemma hoare_conseq:
  assumes "hoareM P m Q E" and "\<And>s. P' s \<Longrightarrow> P s"
    and "\<And>x s. Q x s \<Longrightarrow> Q' x s" and "\<And>e s. E e s \<Longrightarrow> E' e s"
  shows "hoareM P' m Q' E'"
  using assms unfolding hoareM_def by (blast intro: wpM_mono)

lemma hoare_pre: "hoareM P m Q E \<Longrightarrow> (\<And>s. P' s \<Longrightarrow> P s) \<Longrightarrow> hoareM P' m Q E"
  by (rule hoare_conseq)

lemma hoare_post: "hoareM P m Q E \<Longrightarrow> (\<And>x s. Q x s \<Longrightarrow> Q' x s) \<Longrightarrow> (\<And>e s. E e s \<Longrightarrow> E' e s) \<Longrightarrow> hoareM P m Q' E'"
  by (rule hoare_conseq)

lemma hoare_ret: "(\<And>s. P s \<Longrightarrow> Q x s) \<Longrightarrow> hoareM P (retM x) Q E"
  by (simp add: hoareM_def wp)

lemma hoare_err: "(\<And>s. P s \<Longrightarrow> E e s) \<Longrightarrow> hoareM P (errM e) Q E"
  by (simp add: hoareM_def wp)

lemma hoare_bind:
  assumes "hoareM P m R E" and "\<And>x. hoareM (R x) (k x) Q E"
  shows "hoareM P (bindM m k) Q E"
  using assms unfolding hoareM_def wp_bind by (blast intro: wpM_mono)

lemma hoare_then: "hoareM P m (\<lambda>_. R) E \<Longrightarrow> hoareM R k Q E \<Longrightarrow> hoareM P (thenM m k) Q E"
  unfolding thenM_def by (rule hoare_bind)

lemma hoare_wrap: "hoareM P m Q (\<lambda>e. E (Wrap msg e)) \<Longrightarrow> hoareM P (wrapM msg m) Q E"
  by (simp add: hoareM_def wp)

lemma hoare_try: "hoareM P m (\<lambda>x. Q (Inr x)) (\<lambda>e. Q (Inl e)) \<Longrightarrow> hoareM P (tryM m) Q E"
  by (simp add: hoareM_def wp)

lemma hoare_ignore: "hoareM P m (\<lambda>_. Q ()) (\<lambda>_. Q ()) \<Longrightarrow> hoareM P (ignoreM m) Q E"
  by (simp add: hoareM_def wp)

lemma hoare_if: "(b \<Longrightarrow> hoareM P m Q E) \<Longrightarrow> (\<not> b \<Longrightarrow> hoareM P m' Q E) \<Longrightarrow> hoareM P (if b then m else m') Q E"
  by simp

lemma hoare_defer:
  assumes "hoareM P m R F" and "\<And>x. hoareM (R x) (f (Inr x)) (\<lambda>_. Q x) (\<lambda>_. Q x)"
    and "\<And>e. hoareM (F e) (f (Inl e)) (\<lambda>_. E e) (\<lambda>_. E e)"
  shows "hoareM P (deferM m f) Q E"
proof (rule hoareI)
  fix s
  assume "P s"
  with assms(1) have m: "wpM m R F s"
    by (rule hoareD)
  have "R x t \<Longrightarrow> Q x (snd (f (Inr x) t))" for x t
    using hoareD [OF assms(2)] by (fastforce simp: wpM_def split: prod.splits sum.splits)
  moreover have "F e t \<Longrightarrow> E e (snd (f (Inl e) t))" for e t
    using hoareD [OF assms(3)] by (fastforce simp: wpM_def split: prod.splits sum.splits)
  ultimately show "wpM (deferM m f) Q E s"
    unfolding wp_defer by (blast intro: wpM_mono [OF m])
qed

lemma hoare_keeps: "keepsM I m \<longleftrightarrow> hoareM I m (\<lambda>_. I) (\<lambda>_. I)"
  by (auto simp: keepsM_def hoareM_def wpM_def case_prod_beta split: sum.split)

lemma hoare_of_keeps: "keepsM I m \<Longrightarrow> hoareM I m (\<lambda>_. I) (\<lambda>_. I)"
  by (simp add: hoare_keeps)

lemma hoare_keeps_result:
  assumes "keepsM I m" and "\<And>s x t. I s \<Longrightarrow> m s = (Inr x, t) \<Longrightarrow> R x"
  shows "hoareM I m (\<lambda>x s. I s \<and> R x) (\<lambda>_. I)"
  using assms by (fastforce simp: hoareM_def wpM_def keepsM_def split: prod.split sum.split)

lemma keeps_bind_post:
  assumes "hoareM I m (\<lambda>x s. I s \<and> R x) (\<lambda>_. I)" and "\<And>x. R x \<Longrightarrow> keepsM I (k x)"
  shows "keepsM I (bindM m k)"
  unfolding hoare_keeps
proof (rule hoare_bind [OF assms(1)])
  fix x
  show "hoareM (\<lambda>s. I s \<and> R x) (k x) (\<lambda>_. I) (\<lambda>_. I)"
    using assms(2) [of x] by (cases "R x") (simp_all add: hoare_keeps hoareM_def)
qed

subsection \<open>Local variables\<close>

text \<open>
  A body that assigns local variables which a deferred function reads runs over the
  state paired with these variables.
\<close>

definition liftM :: "('s, 'a) gom \<Rightarrow> ('s \<times> 'l, 'a) gom" where
  "liftM m = (\<lambda>(s, l). case m s of (r, t) \<Rightarrow> (r, (t, l)))"

definition assignM :: "('l \<Rightarrow> 'l) \<Rightarrow> ('s \<times> 'l, unit) gom" where
  "assignM f = (\<lambda>(s, l). (Inr (), (s, f l)))"

definition withLocals :: "'l \<Rightarrow> ('s \<times> 'l, 'a) gom \<Rightarrow> ('s, 'a) gom" where
  "withLocals l0 m = (\<lambda>s. case m (s, l0) of (r, (t, l)) \<Rightarrow> (r, t))"

definition readLocals :: "('l \<Rightarrow> ('s \<times> 'l, 'a) gom) \<Rightarrow> ('s \<times> 'l, 'a) gom" where
  "readLocals k = (\<lambda>(s, l). k l (s, l))"

lemmas locals_defs = liftM_def assignM_def withLocals_def readLocals_def

lemma liftM_retM [simp]: "liftM (retM x) = retM x"
  by (simp add: liftM_def retM_def fun_eq_iff)

lemma liftM_errM [simp]: "liftM (errM e) = errM e"
  by (simp add: liftM_def errM_def fun_eq_iff)

lemma liftM_Inr_iff: "liftM m (s, l) = (Inr x, p) \<longleftrightarrow> (\<exists>t. m s = (Inr x, t) \<and> p = (t, l))"
  by (auto simp: liftM_def split: prod.splits)

lemma assignM_Inr_iff: "assignM f (s, l) = (Inr u, p) \<longleftrightarrow> p = (s, f l)"
  by (auto simp: assignM_def)

lemma withLocals_Inr_iff: "withLocals l0 m s = (Inr x, t) \<longleftrightarrow> (\<exists>l. m (s, l0) = (Inr x, (t, l)))"
  by (auto simp: withLocals_def split: prod.splits)

lemma readLocals_app: "readLocals k (s, l) = k l (s, l)"
  by (simp add: readLocals_def)

lemmas locals_ok = liftM_Inr_iff assignM_Inr_iff withLocals_Inr_iff readLocals_app

lemma wp_lift [wp]: "wpM (liftM m) Q E (s, l) = wpM m (\<lambda>x t. Q x (t, l)) (\<lambda>e t. E e (t, l)) s"
  by (simp add: wpM_def liftM_def split: prod.split sum.split)

lemma wp_assign [wp]: "wpM (assignM f) Q E (s, l) = Q () (s, f l)"
  by (simp add: wpM_def assignM_def)

lemma wp_withLocals [wp]:
  "wpM (withLocals l0 m) Q E s = wpM m (\<lambda>x p. Q x (fst p)) (\<lambda>e p. E e (fst p)) (s, l0)"
  by (simp add: wpM_def withLocals_def split: prod.split sum.split)

lemma wp_readLocals [wp]: "wpM (readLocals k) Q E (s, l) = wpM (k l) Q E (s, l)"
  by (simp add: wpM_def readLocals_def)

lemma hoare_lift:
  "(\<And>l. hoareM (\<lambda>s. P (s, l)) m (\<lambda>x t. Q x (t, l)) (\<lambda>e t. E e (t, l))) \<Longrightarrow> hoareM P (liftM m) Q E"
  by (auto simp: hoareM_def wp)

lemma hoare_assign: "(\<And>s l. P (s, l) \<Longrightarrow> Q () (s, f l)) \<Longrightarrow> hoareM P (assignM f) Q E"
  by (auto simp: hoareM_def wp)

lemma hoare_withLocals:
  "hoareM (\<lambda>p. P (fst p) \<and> snd p = l0) m (\<lambda>x p. Q x (fst p)) (\<lambda>e p. E e (fst p)) \<Longrightarrow>
   hoareM P (withLocals l0 m) Q E"
  by (simp add: hoareM_def wp)

lemma hoare_readLocals:
  "(\<And>l. hoareM (\<lambda>p. P p \<and> snd p = l) (k l) Q E) \<Longrightarrow> hoareM P (readLocals k) Q E"
  by (auto simp: hoareM_def wp)

lemma keeps_lift [keeps]:
  assumes "keepsM I m"
  shows "keepsM (\<lambda>p. I (fst p)) (liftM m)"
  unfolding keepsM_def
proof (intro allI impI)
  fix p
  assume "I (fst p)"
  with assms have "I (snd (m (fst p)))"
    by (rule keepsM_snd)
  then show "I (fst (snd (liftM m p)))"
    by (simp add: liftM_def case_prod_beta)
qed

lemma keeps_assign [keeps]: "keepsM (\<lambda>p. I (fst p)) (assignM f)"
  by (simp add: keepsM_def assignM_def case_prod_beta)

lemma keeps_readLocals [keeps]: "(\<And>l. keepsM I (k l)) \<Longrightarrow> keepsM I (readLocals k)"
  by (simp add: keepsM_def readLocals_def case_prod_beta)

lemma keeps_withLocals [keeps]:
  assumes "keepsM (\<lambda>p. I (fst p)) m"
  shows "keepsM I (withLocals l0 m)"
  unfolding keepsM_def
proof (intro allI impI)
  fix s
  assume "I s"
  then have "I (fst (s, l0))"
    by simp
  with assms have "I (fst (snd (m (s, l0))))"
    by (rule keepsM_snd)
  then show "I (snd (withLocals l0 m s))"
    by (simp add: withLocals_def case_prod_beta)
qed

text \<open>A closed run that returns a value: what a witness evaluates.\<close>

definition succeeds :: "(goerr + 'a) \<times> 's \<Rightarrow> bool" where
  "succeeds r = (case fst r of Inl e \<Rightarrow> False | Inr x \<Rightarrow> True)"

lemma succeeds_ex: "succeeds r \<Longrightarrow> \<exists>x t. r = (Inr x, t)"
  by (cases r) (auto simp: succeeds_def split: sum.splits)

section \<open>Signed 64-bit integers\<close>

text \<open>Go's int64 arithmetic wraps around; PostgreSQL's bigint reports an error.\<close>

definition in_i64 :: "int \<Rightarrow> bool" where
  "in_i64 x \<longleftrightarrow> - (2 ^ 63) \<le> x \<and> x < 2 ^ 63"

definition i64 :: "int \<Rightarrow> int" where
  "i64 x = (x + 2 ^ 63) mod 2 ^ 64 - 2 ^ 63"

lemma i64_id [simp]: "in_i64 x \<Longrightarrow> i64 x = x"
  by (simp add: in_i64_def i64_def)

lemma in_i64_i64: "in_i64 (i64 x)"
proof -
  have "0 \<le> (x + 2 ^ 63) mod 2 ^ 64 \<and> (x + 2 ^ 63) mod 2 ^ 64 < (2 :: int) ^ 64"
    by simp
  then show ?thesis
    unfolding in_i64_def i64_def by (simp; linarith)
qed

text \<open>Go's integer division truncates towards zero.\<close>

definition quot_go :: "int \<Rightarrow> int \<Rightarrow> int" where
  "quot_go a b = sgn a * sgn b * (\<bar>a\<bar> div \<bar>b\<bar>)"

lemma quot_go_nonneg: "0 \<le> a \<Longrightarrow> 0 < b \<Longrightarrow> quot_go a b = a div b"
  by (cases "a = 0") (simp_all add: quot_go_def)

section \<open>Text\<close>

text \<open>
  Go strings are lists of \<open>char\<close>. \<open>strings.TrimSpace\<close>, \<open>strings.ToLower\<close> and
  \<open>strings.ToUpper\<close> are modelled on ASCII text: white space is tab, line feed, vertical
  tab, form feed, carriage return and blank, and only A-Z and a-z change case.
\<close>

definition is_space :: "char \<Rightarrow> bool" where
  "is_space c \<longleftrightarrow> c = CHR 0x20 \<or> c = CHR 0x09 \<or> c = CHR 0x0A \<or> c = CHR 0x0B \<or> c = CHR 0x0C \<or> c = CHR 0x0D"

definition TrimSpace :: "string \<Rightarrow> string" where
  "TrimSpace s = rev (dropWhile is_space (rev (dropWhile is_space s)))"

definition lower_char :: "char \<Rightarrow> char" where
  "lower_char c = (let n = (of_char c :: nat) in if 65 \<le> n \<and> n \<le> 90 then char_of (n + 32) else c)"

text \<open>The same on the bits of the character, which evaluates faster.\<close>

lemma lower_char_code [code]:
  "lower_char (Char b0 b1 b2 b3 b4 b5 b6 b7) =
     Char b0 b1 b2 b3 b4
       (b5 \<or> b6 \<and> \<not> b7 \<and> (if b4 then \<not> (b3 \<and> (b2 \<or> b1 \<and> b0)) else b0 \<or> b1 \<or> b2 \<or> b3)) b6 b7"
  by (cases b0; cases b1; cases b2; cases b3; cases b4; cases b5; cases b6; cases b7)
    (simp_all add: lower_char_def Let_def char_of_def bit_0)

definition upper_char :: "char \<Rightarrow> char" where
  "upper_char c = (let n = (of_char c :: nat) in if 97 \<le> n \<and> n \<le> 122 then char_of (n - 32) else c)"

definition ToLower :: "string \<Rightarrow> string" where
  "ToLower = map lower_char"

definition ToUpper :: "string \<Rightarrow> string" where
  "ToUpper = map upper_char"

lemma ToLower_Nil [simp]: "ToLower [] = []"
  by (simp add: ToLower_def)

lemma length_ToLower [simp]: "length (ToLower s) = length s"
  by (simp add: ToLower_def)

lemma length_ToUpper [simp]: "length (ToUpper s) = length s"
  by (simp add: ToUpper_def)

lemma TrimSpace_Nil [simp]: "TrimSpace [] = []"
  by (simp add: TrimSpace_def)

lemma lower_char_idem [simp]: "lower_char (lower_char c) = lower_char c"
proof (cases "65 \<le> (of_char c :: nat) \<and> (of_char c :: nat) \<le> 90")
  case True
  then have "(of_char c + 32) mod 256 = (of_char c + 32 :: nat)"
    by simp
  with True show ?thesis
    by (simp add: lower_char_def Let_def of_char_of)
next
  case False
  then have "lower_char c = c"
    by (auto simp: lower_char_def Let_def)
  then show ?thesis
    by simp
qed

lemma ToLower_idem [simp]: "ToLower (ToLower s) = ToLower s"
  by (simp add: ToLower_def comp_def)

lemma dropWhile_fix: "dropWhile P xs = xs \<longleftrightarrow> xs = [] \<or> \<not> P (hd xs)"
proof (cases xs)
  case (Cons y ys)
  have "length (dropWhile P ys) \<le> length ys"
    by (rule length_dropWhile_le)
  then have "dropWhile P ys \<noteq> y # ys"
    by auto
  with Cons show ?thesis
    by simp
qed simp

lemma TrimSpace_id: "s = [] \<or> \<not> is_space (hd s) \<and> \<not> is_space (last s) \<Longrightarrow> TrimSpace s = s"
  unfolding TrimSpace_def by (metis dropWhile_fix hd_rev rev_is_Nil_conv rev_rev_ident)

lemma TrimSpace_hd: "TrimSpace s \<noteq> [] \<Longrightarrow> \<not> is_space (hd (TrimSpace s))"
proof -
  let ?t = "dropWhile is_space s"
  assume ne: "TrimSpace s \<noteq> []"
  obtain ys where t: "?t = TrimSpace s @ ys"
    unfolding TrimSpace_def by (metis rev_append rev_rev_ident takeWhile_dropWhile_id)
  with ne have "?t \<noteq> []" and "hd (TrimSpace s) = hd ?t"
    unfolding t by simp_all
  then show ?thesis
    using hd_dropWhile by metis
qed

lemma TrimSpace_last: "TrimSpace s \<noteq> [] \<Longrightarrow> \<not> is_space (last (TrimSpace s))"
  unfolding TrimSpace_def by (metis hd_dropWhile last_rev rev_is_Nil_conv)

lemma TrimSpace_idem [simp]: "TrimSpace (TrimSpace s) = TrimSpace s"
  by (rule TrimSpace_id) (use TrimSpace_hd TrimSpace_last in blast)

section \<open>Lists as tables\<close>

text \<open>
  A table is the list of its rows. \<open>UPDATE ... WHERE\<close>, and what \<open>RETURNING\<close> gives back.
\<close>

definition update_where :: "('r \<Rightarrow> bool) \<Rightarrow> ('r \<Rightarrow> 'r) \<Rightarrow> 'r list \<Rightarrow> 'r list" where
  "update_where P f rows = map (\<lambda>r. if P r then f r else r) rows"

definition returning :: "('r \<Rightarrow> bool) \<Rightarrow> ('r \<Rightarrow> 'r) \<Rightarrow> 'r list \<Rightarrow> 'r list" where
  "returning P f rows = map f (filter P rows)"

definition delete_where :: "('r \<Rightarrow> bool) \<Rightarrow> 'r list \<Rightarrow> 'r list" where
  "delete_where P rows = filter (\<lambda>r. \<not> P r) rows"

definition sum_by :: "('r \<Rightarrow> int) \<Rightarrow> 'r list \<Rightarrow> int" where
  "sum_by f rows = sum_list (map f rows)"

lemma sum_by_Nil [simp]: "sum_by f [] = 0"
  by (simp add: sum_by_def)

lemma sum_by_Cons [simp]: "sum_by f (r # rows) = f r + sum_by f rows"
  by (simp add: sum_by_def)

lemma sum_by_append [simp]: "sum_by f (xs @ ys) = sum_by f xs + sum_by f ys"
  by (simp add: sum_by_def)

lemma sum_by_nonneg: "(\<And>r. r \<in> set rows \<Longrightarrow> 0 \<le> f r) \<Longrightarrow> 0 \<le> sum_by f rows"
  by (induction rows) auto

lemma sum_by_filter_split:
  "sum_by f rows = sum_by f (filter P rows) + sum_by f (filter (\<lambda>r. \<not> P r) rows)"
  by (induction rows) auto

lemma map_update_where: "(\<And>r. P r \<Longrightarrow> k (f r) = k r) \<Longrightarrow> map k (update_where P f rows) = map k rows"
  by (simp add: update_where_def)

lemma length_update_where [simp]: "length (update_where P f rows) = length rows"
  by (simp add: update_where_def)

lemma in_update_whereE:
  assumes "r \<in> set (update_where P f rows)"
  obtains r' where "r' \<in> set rows" and "r = (if P r' then f r' else r')"
  using assms by (auto simp: update_where_def)

lemma set_delete_where [simp]: "set (delete_where P rows) = {r \<in> set rows. \<not> P r}"
  by (auto simp: delete_where_def)

lemma distinct_map_delete_where: "distinct (map k rows) \<Longrightarrow> distinct (map k (delete_where P rows))"
  by (simp add: delete_where_def distinct_map_filter)

lemma filter_update_where_other:
  "(\<And>r. P r \<Longrightarrow> \<not> Q r) \<Longrightarrow> (\<And>r. P r \<Longrightarrow> \<not> Q (f r)) \<Longrightarrow>
   filter Q (update_where P f rows) = filter Q rows"
  by (induction rows) (auto simp: update_where_def)

lemma filter_delete_other: "(\<And>r. P r \<Longrightarrow> \<not> Q r) \<Longrightarrow> filter Q (delete_where P rows) = filter Q rows"
  by (induction rows) (auto simp: delete_where_def)

lemma find_filter_same: "find P (filter P rows) = find P rows"
  by (induction rows) auto

lemma find_Some_in: "find P xs = Some x \<Longrightarrow> x \<in> set xs \<and> P x"
  by (induction xs) (auto split: if_splits)

lemma find_None_iff': "find P xs = None \<longleftrightarrow> (\<forall>x \<in> set xs. \<not> P x)"
  by (auto simp: find_None_iff)

lemma find_unique_key:
  assumes "distinct (map k xs)" and "x \<in> set xs" and "P x" and "\<And>y. P y \<Longrightarrow> k y = k x"
  shows "find P xs = Some x"
  using assms(1,2)
proof (induction xs)
  case Nil
  then show ?case by simp
next
  case (Cons y ys)
  show ?case
  proof (cases "P y")
    case True
    then have "k y = k x"
      by (rule assms(4))
    with Cons.prems have "y = x"
      by (auto simp: image_iff)
    with True show ?thesis
      by simp
  next
    case False
    with assms(3) have "y \<noteq> x"
      by auto
    with Cons False show ?thesis
      by simp
  qed
qed

lemma find_append: "find P (xs @ ys) = (case find P xs of None \<Rightarrow> find P ys | Some x \<Rightarrow> Some x)"
  by (induction xs) auto

lemma find_update_key:
  assumes "\<And>r. k (f r) = k r"
  shows "find (\<lambda>r. k r = a) (update_where (\<lambda>r. k r = b) f rows) =
         (if a = b then map_option f (find (\<lambda>r. k r = a) rows) else find (\<lambda>r. k r = a) rows)"
  using assms by (induction rows) (auto simp: update_where_def)

lemma find_delete_key:
  "find (\<lambda>r. k r = a) (delete_where (\<lambda>r. k r = b) rows) =
   (if a = b then None else find (\<lambda>r. k r = a) rows)"
  by (induction rows) (auto simp: delete_where_def)

lemma find_map_other: "(\<And>r. P (f r) = P r) \<Longrightarrow> find P (map f rows) = map_option f (find P rows)"
  by (induction rows) auto

lemma update_where_none: "(\<And>r. r \<in> set rows \<Longrightarrow> \<not> P r) \<Longrightarrow> update_where P f rows = rows"
  by (auto simp: update_where_def intro: map_idI)

lemma delete_where_none: "(\<And>r. r \<in> set rows \<Longrightarrow> \<not> P r) \<Longrightarrow> delete_where P rows = rows"
  by (auto simp: delete_where_def intro: filter_True)

end
