(* ===== verification/Model.thy ===== *)
theory Model
  imports Prelude
begin

text \<open>
  The data of pkg/model: accounts, devices, bundle and snapshot metadata, quota rows,
  token rows, two-factor state, erasure jobs, idempotency records, and the limits of
  each tier. A UUID is represented by its canonical text, a time and a duration by a
  number of nanoseconds (since the epoch for a time); an optional (pointer) field is an
  option. Rows of tables that have no struct of their own (tokens) are given by the
  columns the migrations declare.
\<close>

type_synonym uuid = string
type_synonym time = int
type_synonym duration = int
type_synonym bytes = string

definition uuid_Nil :: uuid where
  "uuid_Nil = ''00000000-0000-0000-0000-000000000000''"

definition Second :: duration where "Second = 1000000000"
definition Minute :: duration where "Minute = 60 * Second"
definition Hour :: duration where "Hour = 60 * Minute"

section \<open>Accounts\<close>

datatype user_tier = TierFree | TierPro | TierTeam | TierEnterprise | TierOther string

datatype user_status = StatusActive | StatusSuspended | StatusDeleted | StatusOther string

fun tier_string :: "user_tier \<Rightarrow> string" where
  "tier_string TierFree = ''free''"
| "tier_string TierPro = ''pro''"
| "tier_string TierTeam = ''team''"
| "tier_string TierEnterprise = ''enterprise''"
| "tier_string (TierOther s) = s"

record user =
  u_id :: uuid
  u_email :: string
  u_password_hash :: string
  u_display_name :: string
  u_tier :: user_tier
  u_status :: user_status
  u_email_verified :: bool
  u_created_at :: time
  u_updated_at :: time
  u_deleted_at :: "time option"

datatype erasure_status = ErasurePending | ErasureRunning | ErasureCompleted | ErasureFailed

text \<open>JSON values; \<open>JTime\<close> is the RFC 3339 string of a timestamp.\<close>

datatype json =
    JNull
  | JBool bool
  | JNum int
  | JStr string
  | JTime time
  | JArr "json list"
  | JObj "(string \<times> json) list"

record erasure_job =
  ej_id :: uuid
  ej_user_id :: uuid
  ej_requested_at :: time
  ej_eligible_at :: time
  ej_status :: erasure_status
  ej_summary :: json
  ej_last_error :: string
  ej_created_at :: time
  ej_updated_at :: time
  ej_started_at :: "time option"
  ej_finished_at :: "time option"

record notification_preferences =
  np_user_id :: uuid
  np_security_email :: bool
  np_security_webhook :: bool
  np_billing_email :: bool
  np_billing_webhook :: bool
  np_webhook_url :: string
  np_webhook_secret :: string
  np_created_at :: time
  np_updated_at :: time

definition DefaultNotificationPreferences :: "uuid \<Rightarrow> notification_preferences" where
  "DefaultNotificationPreferences uid =
     \<lparr>np_user_id = uid, np_security_email = True, np_security_webhook = False,
      np_billing_email = True, np_billing_webhook = False, np_webhook_url = '''',
      np_webhook_secret = '''', np_created_at = 0, np_updated_at = 0\<rparr>"

section \<open>Devices, bundles, snapshots\<close>

record device =
  d_id :: uuid
  d_user_id :: uuid
  d_device_uuid :: uuid
  d_device_name :: string
  d_platform :: string
  d_app_version :: string
  d_token_hash :: "bytes option"
  d_token_expires_at :: "time option"
  d_last_sync_at :: "time option"
  d_revoked_at :: "time option"
  d_created_at :: time

record bundle_meta =
  b_bundle_id :: string
  b_user_id :: uuid
  b_uploader_device_uuid :: uuid
  b_lamport_lo :: int
  b_lamport_hi :: int
  b_event_count :: int
  b_size_bytes :: int
  b_cipher_id :: int
  b_key_generation :: int
  b_uploaded_at :: time
  b_deleted_at :: "time option"

record snapshot_meta =
  s_snapshot_id :: string
  s_user_id :: uuid
  s_base_hlc :: int
  s_size_bytes :: int
  s_cipher_id :: int
  s_key_generation :: int
  s_created_at :: time
  s_deleted_at :: "time option"

section \<open>Quota\<close>

record quota_usage =
  q_user_id :: uuid
  q_total_bytes :: int
  q_bundle_count :: int
  q_snap_count :: int
  q_updated_at :: time

definition empty_usage :: "uuid \<Rightarrow> quota_usage" where
  "empty_usage uid =
     \<lparr>q_user_id = uid, q_total_bytes = 0, q_bundle_count = 0, q_snap_count = 0, q_updated_at = 0\<rparr>"

record quota_limits =
  l_user_id :: uuid
  l_storage_limit_bytes :: int
  l_max_devices :: int
  l_max_bundle_size :: int
  l_max_snapshots :: int
  l_max_rpm :: int
  l_bundle_retention_days :: int
  l_override_reason :: "string option"
  l_expires_at :: "time option"

fun TierLimits :: "user_tier \<Rightarrow> quota_limits" where
  "TierLimits TierFree =
     \<lparr>l_user_id = uuid_Nil, l_storage_limit_bytes = 1 * 1024 * 1024 * 1024, l_max_devices = 1,
      l_max_bundle_size = 50 * 1024 * 1024, l_max_snapshots = 1, l_max_rpm = 100,
      l_bundle_retention_days = 30, l_override_reason = None, l_expires_at = None\<rparr>"
| "TierLimits TierPro =
     \<lparr>l_user_id = uuid_Nil, l_storage_limit_bytes = 10 * 1024 * 1024 * 1024, l_max_devices = 5,
      l_max_bundle_size = 50 * 1024 * 1024, l_max_snapshots = 3, l_max_rpm = 500,
      l_bundle_retention_days = 90, l_override_reason = None, l_expires_at = None\<rparr>"
| "TierLimits TierTeam =
     \<lparr>l_user_id = uuid_Nil, l_storage_limit_bytes = 50 * 1024 * 1024 * 1024, l_max_devices = 20,
      l_max_bundle_size = 100 * 1024 * 1024, l_max_snapshots = 5, l_max_rpm = 2000,
      l_bundle_retention_days = 180, l_override_reason = None, l_expires_at = None\<rparr>"
| "TierLimits TierEnterprise =
     \<lparr>l_user_id = uuid_Nil, l_storage_limit_bytes = 100 * 1024 * 1024 * 1024, l_max_devices = 100,
      l_max_bundle_size = 200 * 1024 * 1024, l_max_snapshots = 10, l_max_rpm = 10000,
      l_bundle_retention_days = 365, l_override_reason = None, l_expires_at = None\<rparr>"
| "TierLimits (TierOther s) =
     \<lparr>l_user_id = uuid_Nil, l_storage_limit_bytes = 1 * 1024 * 1024 * 1024, l_max_devices = 1,
      l_max_bundle_size = 50 * 1024 * 1024, l_max_snapshots = 1, l_max_rpm = 100,
      l_bundle_retention_days = 30, l_override_reason = None, l_expires_at = None\<rparr>"

lemma TierLimits_default: "TierLimits (TierOther s) = TierLimits TierFree"
  by simp

lemma TierLimits_bounds:
  "0 < l_storage_limit_bytes (TierLimits t) \<and> in_i64 (l_storage_limit_bytes (TierLimits t)) \<and>
   1 \<le> l_max_snapshots (TierLimits t) \<and> 1 \<le> l_max_devices (TierLimits t)"
  by (cases t) (simp_all add: in_i64_def)

section \<open>Security records\<close>

record device_revocation =
  dr_id :: uuid
  dr_user_id :: uuid
  dr_device_uuid :: uuid
  dr_revoked_at :: time
  dr_revoked_by :: uuid

record two_factor =
  tf_user_id :: uuid
  tf_secret_encrypted :: bytes
  tf_enabled :: bool
  tf_failed_attempts :: int
  tf_locked_until :: "time option"
  tf_last_used_at :: "time option"
  tf_enabled_at :: "time option"
  tf_created_at :: time
  tf_updated_at :: time

record backup_code =
  bc_id :: uuid
  bc_user_id :: uuid
  bc_code_hash :: string
  bc_used_at :: "time option"
  bc_created_at :: time

record refresh_token =
  rt_id :: uuid
  rt_user_id :: uuid
  rt_token_hash :: bytes
  rt_device_info :: string
  rt_expires_at :: time
  rt_revoked_at :: "time option"
  rt_created_at :: time

record email_verification =
  ev_id :: uuid
  ev_user_id :: uuid
  ev_token_hash :: bytes
  ev_expires_at :: time
  ev_created_at :: time

record password_reset =
  pr_id :: uuid
  pr_user_id :: uuid
  pr_token_hash :: bytes
  pr_expires_at :: time
  pr_used_at :: "time option"
  pr_created_at :: time

datatype idempotency_status = IdemProcessing | IdemSucceeded | IdemFailed

record idempotency_record =
  ir_id :: uuid
  ir_scope :: string
  ir_key_hash :: string
  ir_fingerprint :: string
  ir_status :: idempotency_status
  ir_locked_until :: "time option"
  ir_response_status :: "int option"
  ir_response_body :: bytes
  ir_error_reason :: string
  ir_expires_at :: time
  ir_created_at :: time
  ir_updated_at :: time

record passkey_credential =
  pk_id :: uuid
  pk_user_id :: uuid
  pk_name :: string
  pk_credential_id :: bytes
  pk_public_key :: bytes
  pk_attestation_type :: string
  pk_aaguid :: bytes
  pk_sign_count :: int
  pk_clone_warning :: bool
  pk_user_present :: bool
  pk_user_verified :: bool
  pk_backup_eligible :: bool
  pk_backup_state :: bool
  pk_transports :: bytes
  pk_attachment :: string
  pk_last_used_at :: "time option"
  pk_created_at :: time
  pk_updated_at :: time

record passkey_challenge =
  pc_id :: uuid
  pc_user_id :: "uuid option"
  pc_type :: string
  pc_challenge :: string
  pc_session_json :: bytes
  pc_expires_at :: time
  pc_consumed_at :: "time option"
  pc_created_at :: time

record audit_log =
  al_id :: uuid
  al_actor_user_id :: "uuid option"
  al_event_type :: string
  al_target_type :: string
  al_target_id :: string
  al_ip :: string
  al_user_agent :: string
  al_metadata :: "(string \<times> json) list"
  al_created_at :: time

record system_setting =
  st_key :: string
  st_value :: string
  st_value_type :: string
  st_description :: string
  st_updated_at :: time

end
