(* ===== verification/Store.thy ===== *)
theory Store
  imports Model
begin

text \<open>
  The state the server acts on, and the primitive calls by which it acts: one SQL
  statement (or one transaction), one object-store request, one read of the clock, one
  metric or message. A statement is a function of the database at one instant; a call
  may fail before it has any effect, which the list \<open>faults\<close> decides adversarially
  (\<open>True\<close>: the next call to a backing service fails). The clock advances by an
  arbitrary amount (\<open>ticks\<close>) with every statement and every \<open>time.Now()\<close>, so two
  reads in one request may differ. A failure whose effect was applied but not
  acknowledged is outside the model.
\<close>

section \<open>State\<close>

text \<open>
  The PostgreSQL tables of migrations/, each the list of its rows in insertion order.
  \<open>uuids\<close> is what \<open>gen_random_uuid()\<close> will return, one value after the other.
\<close>

record db =
  users :: "user list"
  devices :: "device list"
  bundles :: "bundle_meta list"
  snapshots :: "snapshot_meta list"
  storage_usage :: "quota_usage list"
  quota_limits_tbl :: "quota_limits list"
  refresh_tokens :: "refresh_token list"
  email_verifications :: "email_verification list"
  password_resets :: "password_reset list"
  device_revocations :: "device_revocation list"
  user_two_factor :: "two_factor list"
  backup_codes :: "backup_code list"
  idempotency_records :: "idempotency_record list"
  account_erasure_jobs :: "erasure_job list"
  passkey_credentials :: "passkey_credential list"
  passkey_challenges :: "passkey_challenge list"
  notification_prefs :: "notification_preferences list"
  audit_logs :: "audit_log list"
  system_settings :: "system_setting list"
  uuids :: "nat \<Rightarrow> uuid"
  uuid_ctr :: nat

record reservation_request =
  rr_reason :: string
  rr_team_id :: string
  rr_bundle_id :: string
  rr_snapshot_id :: string
  rr_device_uuid :: string
  rr_request_id :: string

text \<open>
  What leaves the process without coming back as data: metrics, the calls of the
  Enterprise reservation hook, and messages handed to the notification service.
\<close>

datatype effect =
    RecordUpload string string
  | RecordQuotaReservation string string
  | RecordIdempotency string
  | HookReserve uuid int reservation_request
  | HookSettle string int
  | HookRelease string
  | SendWelcomeEmail string string
  | SendEmailVerification uuid string string string
  | SendPasswordReset uuid string string string
  | NotifyQuota string uuid quota_usage int

record world =
  db :: db
  blobs :: "string \<rightharpoonup> bytes"
  redis :: "(uuid \<rightharpoonup> quota_usage \<times> time) option"
  now :: time
  ticks :: "nat list"
  faults :: "bool list"
  rand :: "nat \<Rightarrow> nat"
  rand_ctr :: nat
  log :: "effect list"

type_synonym 'a app = "(world, 'a) gom"

section \<open>Primitive calls\<close>

definition tick :: "world \<Rightarrow> world" where
  "tick w = w\<lparr>now := now w + (case ticks w of [] \<Rightarrow> 0 | t # _ \<Rightarrow> int t), ticks := tl (ticks w)\<rparr>"

definition fault_next :: "world \<Rightarrow> bool" where
  "fault_next w = (case faults w of [] \<Rightarrow> False | f # _ \<Rightarrow> f)"

definition drop_fault :: "world \<Rightarrow> world" where
  "drop_fault w = w\<lparr>faults := tl (faults w)\<rparr>"

text \<open>\<open>time.Now()\<close>\<close>

definition time_Now :: "time app" where
  "time_Now = (\<lambda>w. let w' = tick w in (Inr (now w'), w'))"

text \<open>One statement or transaction, given the instant \<open>now()\<close> and the database.\<close>

definition execM :: "(time \<Rightarrow> db \<Rightarrow> goerr + 'a \<times> db) \<Rightarrow> 'a app" where
  "execM f = (\<lambda>w. let w' = drop_fault (tick w) in
     if fault_next w then (Inl (DriverErr ''database''), w')
     else (case f (now w') (db w') of
             Inl e \<Rightarrow> (Inl e, w')
           | Inr (x, d) \<Rightarrow> (Inr x, w'\<lparr>db := d\<rparr>)))"

definition queryM :: "(time \<Rightarrow> db \<Rightarrow> 'a) \<Rightarrow> 'a app" where
  "queryM f = execM (\<lambda>t d. Inr (f t d, d))"

definition emit :: "effect \<Rightarrow> unit app" where
  "emit e = (\<lambda>w. (Inr (), w\<lparr>log := log w @ [e]\<rparr>))"

text \<open>\<open>ctx.Err()\<close>: a cancelled context is one more way in which a call fails.\<close>

definition ctx_Err :: "unit app" where
  "ctx_Err = (\<lambda>w. (if fault_next w then Inl (DriverErr ''context canceled'') else Inr (), drop_fault w))"

text \<open>The next value of \<open>gen_random_uuid()\<close>.\<close>

definition gen_random_uuid :: "db \<Rightarrow> uuid \<times> db" where
  "gen_random_uuid d = (uuids d (uuid_ctr d), d\<lparr>uuid_ctr := Suc (uuid_ctr d)\<rparr>)"

definition unique_violation :: goerr where
  "unique_violation = DriverErr ''unique constraint violated''"

definition fk_violation :: goerr where
  "fk_violation = DriverErr ''foreign key constraint violated''"

definition check_violation :: goerr where
  "check_violation = DriverErr ''check constraint violated''"

definition out_of_range :: goerr where
  "out_of_range = DriverErr ''bigint out of range''"

definition user_exists :: "db \<Rightarrow> uuid \<Rightarrow> bool" where
  "user_exists d uid = (\<exists>u \<in> set (users d). u_id u = uid)"

text \<open>
  Random bytes: \<open>rand.Read\<close> fills a buffer of length \<open>n\<close> (or fails, as any call may).
\<close>

definition rand_Read :: "nat \<Rightarrow> bytes app" where
  "rand_Read n = (\<lambda>w.
     if fault_next w then (Inl (DriverErr ''entropy source''), drop_fault w)
     else (Inr (map (\<lambda>i. char_of (rand w (rand_ctr w + i) mod 256)) [0..<n]),
           (drop_fault w)\<lparr>rand_ctr := rand_ctr w + n\<rparr>))"

section \<open>What the primitives leave alone\<close>

text \<open>\<open>same_data w w'\<close>: only the clock and the fault and random supplies moved.\<close>

definition same_data :: "world \<Rightarrow> world \<Rightarrow> bool" where
  "same_data w w' \<longleftrightarrow> db w' = db w \<and> blobs w' = blobs w \<and> redis w' = redis w \<and> log w' = log w
     \<and> now w \<le> now w'"

lemma same_data_refl [simp]: "same_data w w"
  by (simp add: same_data_def)

lemma same_data_tick [simp]: "same_data w (tick w)"
  by (simp add: same_data_def tick_def split: list.split)

lemma tick_simps [simp]:
  "db (tick w) = db w" "blobs (tick w) = blobs w" "redis (tick w) = redis w"
  "log (tick w) = log w" "faults (tick w) = faults w" "rand (tick w) = rand w"
  "rand_ctr (tick w) = rand_ctr w"
  by (simp_all add: tick_def)

lemma tick_mono: "now w \<le> now (tick w)"
  by (simp add: tick_def split: list.split)

lemma drop_fault_simps [simp]:
  "db (drop_fault w) = db w" "blobs (drop_fault w) = blobs w" "redis (drop_fault w) = redis w"
  "log (drop_fault w) = log w" "now (drop_fault w) = now w" "rand (drop_fault w) = rand w"
  "rand_ctr (drop_fault w) = rand_ctr w" "faults (drop_fault w) = tl (faults w)"
  by (simp_all add: drop_fault_def)

lemma db_update_same: "db w' = d \<Longrightarrow> w'\<lparr>db := d\<rparr> = w'"
  by auto

lemma fault_next_Nil [simp]: "faults w = [] \<Longrightarrow> \<not> fault_next w"
  by (simp add: fault_next_def)

lemma wp_now [wp]: "wpM time_Now Q E w = Q (now (tick w)) (tick w)"
  by (simp add: wpM_def time_Now_def Let_def)

lemma wp_emit [wp]: "wpM (emit e) Q E w = Q () (w\<lparr>log := log w @ [e]\<rparr>)"
  by (simp add: wpM_def emit_def)

lemma wp_exec [wp]:
  "wpM (execM f) Q E w =
     (let w' = drop_fault (tick w) in
      if fault_next w then E (DriverErr ''database'') w'
      else (case f (now w') (db w) of
              Inl e \<Rightarrow> E e w'
            | Inr (x, d) \<Rightarrow> Q x (w'\<lparr>db := d\<rparr>)))"
  by (auto simp: wpM_def execM_def Let_def split: sum.split prod.split)

lemma execM_ok:
  "execM f w = (Inr x, w') \<longleftrightarrow>
     (\<not> fault_next w \<and> (\<exists>d. f (now (tick w)) (db w) = Inr (x, d) \<and> w' = (drop_fault (tick w))\<lparr>db := d\<rparr>))"
  by (auto simp: execM_def Let_def split: if_splits sum.splits)

lemma exec_error_db: "execM f w = (Inl e, w') \<Longrightarrow> db w' = db w"
  by (auto simp: execM_def Let_def split: if_splits sum.splits)

lemma queryM_ok:
  "queryM f w = (Inr x, w') \<longleftrightarrow>
     (\<not> fault_next w \<and> x = f (now (tick w)) (db w) \<and> w' = drop_fault (tick w))"
  by (auto simp: queryM_def execM_ok)

lemma execM_nofault:
  "faults w = [] \<Longrightarrow> execM f w =
     (case f (now (tick w)) (db w) of
        Inl e \<Rightarrow> (Inl e, drop_fault (tick w))
      | Inr (x, d) \<Rightarrow> (Inr x, (drop_fault (tick w))\<lparr>db := d\<rparr>))"
  by (simp add: execM_def Let_def)

lemma time_Now_ok: "time_Now w = (Inr t, w') \<longleftrightarrow> w' = tick w \<and> t = now w'"
  by (auto simp: time_Now_def Let_def)

lemma bindM_time_Now: "bindM time_Now k w = k (now (tick w)) (tick w)"
  by (simp add: bindM_def time_Now_def Let_def)

lemma emit_ok: "emit e w = (Inr x, w') \<longleftrightarrow> w' = w\<lparr>log := log w @ [e]\<rparr>"
  by (auto simp: emit_def)

section \<open>Invariants over the data\<close>

text \<open>
  An invariant that reads only tables, objects, cache and log is kept by a statement as
  soon as the statement's function keeps it.
\<close>

definition data_inv :: "(world \<Rightarrow> bool) \<Rightarrow> bool" where
  "data_inv I \<longleftrightarrow> (\<forall>w w'. db w' = db w \<and> blobs w' = blobs w \<and> redis w' = redis w \<and> log w' = log w
     \<longrightarrow> I w \<longrightarrow> I w')"

named_theorems data_invs

lemma data_inv_db [data_invs]: "data_inv (\<lambda>w. J (db w))"
  by (simp add: data_inv_def)

lemma data_inv_db_blobs [data_invs]: "data_inv (\<lambda>w. J (db w) (blobs w))"
  by (simp add: data_inv_def)

lemma data_invD:
  "data_inv I \<Longrightarrow> I w \<Longrightarrow> db w' = db w \<Longrightarrow> blobs w' = blobs w \<Longrightarrow> redis w' = redis w \<Longrightarrow>
   log w' = log w \<Longrightarrow> I w'"
  unfolding data_inv_def by blast

lemma keeps_exec:
  assumes "data_inv I" and "\<And>w t x d. I w \<Longrightarrow> f t (db w) = Inr (x, d) \<Longrightarrow> I (w\<lparr>db := d\<rparr>)"
  shows "keepsM I (execM f)"
proof (rule keepsM_I)
  fix w
  assume "I w"
  with assms(1) have I': "I (drop_fault (tick w))"
    by (rule data_invD) simp_all
  show "I (snd (execM f w))"
    using I' assms(2) [OF I'] by (auto simp: execM_def Let_def split: sum.split)
qed

lemma keeps_query:
  assumes "data_inv I"
  shows "keepsM I (queryM f)"
proof -
  have "\<And>w. w\<lparr>db := db w\<rparr> = w"
    by simp
  with assms show ?thesis
    unfolding queryM_def by (intro keeps_exec) auto
qed

lemma keeps_exec_db:
  assumes "\<And>t d x d'. J d \<Longrightarrow> f t d = Inr (x, d') \<Longrightarrow> J d'"
  shows "keepsM (\<lambda>w. J (db w)) (execM f)"
  by (rule keeps_exec) (auto intro: data_invs assms)

lemma keeps_exec_db_blobs:
  assumes "\<And>t d b x d'. J d b \<Longrightarrow> f t d = Inr (x, d') \<Longrightarrow> J d' b"
  shows "keepsM (\<lambda>w. J (db w) (blobs w)) (execM f)"
  by (rule keeps_exec) (auto intro: data_invs assms)

lemma keeps_query_db [keeps]: "keepsM (\<lambda>w. J (db w)) (queryM f)"
  by (rule keeps_query) (rule data_invs)

lemma keeps_query_db_blobs [keeps]: "keepsM (\<lambda>w. J (db w) (blobs w)) (queryM f)"
  by (rule keeps_query) (rule data_invs)

lemma keeps_now:
  assumes "data_inv I"
  shows "keepsM I time_Now"
proof (rule keepsM_I)
  fix w
  assume "I w"
  with assms have "I (tick w)"
    by (rule data_invD) simp_all
  then show "I (snd (time_Now w))"
    by (simp add: time_Now_def Let_def)
qed

lemma keeps_now_db [keeps]: "keepsM (\<lambda>w. J (db w)) time_Now"
  by (rule keeps_now) (rule data_invs)

lemma keeps_now_db_blobs [keeps]: "keepsM (\<lambda>w. J (db w) (blobs w)) time_Now"
  by (rule keeps_now) (rule data_invs)

lemma keeps_emit_db [keeps]: "keepsM (\<lambda>w. J (db w)) (emit e)"
  by (rule keepsM_I) (simp add: emit_def)

lemma keeps_emit_db_blobs [keeps]: "keepsM (\<lambda>w. J (db w) (blobs w)) (emit e)"
  by (rule keepsM_I) (simp add: emit_def)

lemma keeps_ctx_db [keeps]: "keepsM (\<lambda>w. J (db w)) ctx_Err"
  by (rule keepsM_I) (simp add: ctx_Err_def)

lemma keeps_ctx_db_blobs [keeps]: "keepsM (\<lambda>w. J (db w) (blobs w)) ctx_Err"
  by (rule keepsM_I) (simp add: ctx_Err_def)

lemma keeps_rand_db [keeps]: "keepsM (\<lambda>w. J (db w)) (rand_Read n)"
  by (rule keepsM_I) (simp add: rand_Read_def)

lemma keeps_rand_db_blobs [keeps]: "keepsM (\<lambda>w. J (db w) (blobs w)) (rand_Read n)"
  by (rule keepsM_I) (simp add: rand_Read_def)

text \<open>The clock never runs backwards.\<close>

lemma keeps_exec_later [keeps]: "keepsM (\<lambda>w. t \<le> now w) (execM f)"
  by (rule keepsM_I)
    (auto simp: execM_def Let_def split: sum.split intro: order_trans [OF _ tick_mono])

lemma keeps_query_later [keeps]: "keepsM (\<lambda>w. t \<le> now w) (queryM f)"
  unfolding queryM_def by (rule keeps_exec_later)

lemma keeps_now_later [keeps]: "keepsM (\<lambda>w. t \<le> now w) time_Now"
  by (rule keepsM_I) (auto simp: time_Now_def Let_def intro: order_trans [OF _ tick_mono])

lemma keeps_emit_later [keeps]: "keepsM (\<lambda>w. t \<le> now w) (emit e)"
  by (rule keepsM_I) (simp add: emit_def)

lemma keeps_ctx_later [keeps]: "keepsM (\<lambda>w. t \<le> now w) ctx_Err"
  by (rule keepsM_I) (simp add: ctx_Err_def)

lemma keeps_rand_later [keeps]: "keepsM (\<lambda>w. t \<le> now w) (rand_Read n)"
  by (rule keepsM_I) (simp add: rand_Read_def)

section \<open>Progress\<close>

text \<open>
  \<open>smooth m\<close>: with no fault ahead, \<open>m\<close> succeeds and leaves no fault ahead. What is smooth
  can only be stopped by a failing backing service.
\<close>

definition smooth :: "'a app \<Rightarrow> bool" where
  "smooth m \<longleftrightarrow> (\<forall>w. faults w = [] \<longrightarrow> (\<exists>x w'. m w = (Inr x, w') \<and> faults w' = []))"

named_theorems smooth

lemma smooth_D: "smooth m \<Longrightarrow> faults w = [] \<Longrightarrow> \<exists>x w'. m w = (Inr x, w') \<and> faults w' = []"
  unfolding smooth_def by blast

lemma smooth_ret [smooth]: "smooth (retM x)"
  by (simp add: smooth_def)

lemma smooth_bind [smooth]: "smooth m \<Longrightarrow> (\<And>x. smooth (k x)) \<Longrightarrow> smooth (bindM m k)"
  unfolding smooth_def by (metis bindM_Inr_iff)

lemma smooth_then [smooth]: "smooth m \<Longrightarrow> smooth k \<Longrightarrow> smooth (thenM m k)"
  unfolding thenM_def by (rule smooth_bind)

lemma smooth_wrap [smooth]: "smooth m \<Longrightarrow> smooth (wrapM msg m)"
  unfolding smooth_def by (metis wrapM_Inr_iff)

lemma smooth_exec [smooth]: "(\<And>t d. \<exists>x d'. f t d = Inr (x, d')) \<Longrightarrow> smooth (execM f)"
proof (unfold smooth_def, intro allI impI)
  fix w :: world
  assume f: "\<And>t d. \<exists>x d'. f t d = Inr (x, d')" and "faults w = []"
  obtain x d' where "f (now (tick w)) (db w) = Inr (x, d')"
    using f by blast
  with \<open>faults w = []\<close> show "\<exists>x w'. execM f w = (Inr x, w') \<and> faults w' = []"
    by (simp add: execM_nofault)
qed

lemma smooth_query [smooth]: "smooth (queryM f)"
  unfolding queryM_def by (rule smooth_exec) simp

lemma smooth_now [smooth]: "smooth time_Now"
  by (simp add: smooth_def time_Now_def Let_def)

lemma smooth_emit [smooth]: "smooth (emit e)"
  by (simp add: smooth_def emit_def)

lemma queryM_nofault: "faults w = [] \<Longrightarrow> queryM f w = (Inr (f (now (tick w)) (db w)), drop_fault (tick w))"
  by (simp add: queryM_def execM_nofault db_update_same)

end
