(* ===== verification/Sample.thy ===== *)
theory Sample
  imports Store
begin

text \<open>
  A small concrete world: two active users, one with a registered device, one with a
  revoked one, no artifacts, no Redis, no faults. The witnesses start from it.
\<close>

definition empty_db :: db where
  "empty_db =
     \<lparr>users = [], devices = [], bundles = [], snapshots = [], storage_usage = [], quota_limits_tbl = [],
      refresh_tokens = [], email_verifications = [], password_resets = [], device_revocations = [],
      user_two_factor = [], backup_codes = [], idempotency_records = [], account_erasure_jobs = [],
      passkey_credentials = [], passkey_challenges = [], notification_prefs = [], audit_logs = [], system_settings = [],
      uuids = (\<lambda>n. replicate (Suc n) (CHR ''g'')), uuid_ctr = 0\<rparr>"

definition sample_user :: "uuid \<Rightarrow> string \<Rightarrow> user" where
  "sample_user i email =
     \<lparr>u_id = i, u_email = email, u_password_hash = ''$x'', u_display_name = '''', u_tier = TierFree,
      u_status = StatusActive, u_email_verified = False, u_created_at = 0, u_updated_at = 0,
      u_deleted_at = None\<rparr>"

definition sample_device :: "uuid \<Rightarrow> uuid \<Rightarrow> time option \<Rightarrow> device" where
  "sample_device uid dev revoked =
     \<lparr>d_id = dev, d_user_id = uid, d_device_uuid = dev, d_device_name = '''', d_platform = '''',
      d_app_version = '''', d_token_hash = None, d_token_expires_at = None, d_last_sync_at = None,
      d_revoked_at = revoked, d_created_at = 0\<rparr>"

definition sample_db :: db where
  "sample_db = empty_db\<lparr>users := [sample_user ''u1'' ''a@x.io'', sample_user ''u2'' ''b@x.io''],
     devices := [sample_device ''u1'' ''d1'' None, sample_device ''u2'' ''d2'' (Some 5)]\<rparr>"

definition world_of :: "db \<Rightarrow> bool list \<Rightarrow> world" where
  "world_of d fs =
     \<lparr>db = d, blobs = Map.empty, redis = None, now = 100, ticks = [], faults = fs,
      rand = (\<lambda>n. n), rand_ctr = 0, log = []\<rparr>"

definition sample_world :: world where
  "sample_world = world_of sample_db []"

end
