(* ===== verification/ArtifactRepo.thy ===== *)
theory ArtifactRepo
  imports Store
begin

text \<open>
  The metadata tables of encrypted artifacts: BundleRepo and SnapshotRepo of
  pkg/repository/repository.go, one definition per method, each the SQL statement it
  runs. \<open>ORDER BY\<close> is a stable sort of the rows in insertion order and \<open>TEXT\<close> is
  ordered by character code, one of the orders the statements allow.
\<close>

section \<open>Shared pieces\<close>

definition bundle_key :: "bundle_meta \<Rightarrow> uuid \<times> string" where
  "bundle_key b = (b_user_id b, b_bundle_id b)"

definition snapshot_key :: "snapshot_meta \<Rightarrow> uuid \<times> string" where
  "snapshot_key s = (s_user_id s, s_snapshot_id s)"

definition live_bundle :: "uuid \<Rightarrow> bundle_meta \<Rightarrow> bool" where
  "live_bundle uid b \<longleftrightarrow> b_user_id b = uid \<and> b_deleted_at b = None"

definition live_snapshot :: "uuid \<Rightarrow> snapshot_meta \<Rightarrow> bool" where
  "live_snapshot uid s \<longleftrightarrow> s_user_id s = uid \<and> s_deleted_at s = None"

definition negative_limit :: goerr where
  "negative_limit = DriverErr ''LIMIT must not be negative''"

text \<open>\<open>deleted_at IS NOT NULL AND deleted_at < $1\<close>\<close>

definition deleted_before :: "time \<Rightarrow> time option \<Rightarrow> bool" where
  "deleted_before before d = (case d of None \<Rightarrow> False | Some t \<Rightarrow> t < before)"

definition deleted_time :: "time option \<Rightarrow> time" where
  "deleted_time d = (case d of None \<Rightarrow> 0 | Some t \<Rightarrow> t)"

definition normalizeRetentionBatchLimit :: "int \<Rightarrow> int" where
  "normalizeRetentionBatchLimit limit =
     (if limit \<le> 0 then 100 else if limit > 1000 then 1000 else limit)"

lemma normalizeRetentionBatchLimit_range:
  "1 \<le> normalizeRetentionBatchLimit l \<and> normalizeRetentionBatchLimit l \<le> 1000"
  by (simp add: normalizeRetentionBatchLimit_def)

section \<open>BundleRepo\<close>

definition Bundles_Create :: "bundle_meta \<Rightarrow> bundle_meta app" where
  "Bundles_Create b = execM (\<lambda>t d.
     if \<exists>r \<in> set (bundles d). bundle_key r = bundle_key b then Inl unique_violation
     else if \<not> user_exists d (b_user_id b) then Inl fk_violation
     else Inr (b\<lparr>b_uploaded_at := t\<rparr>,
               d\<lparr>bundles := bundles d @ [b\<lparr>b_uploaded_at := t, b_deleted_at := None\<rparr>]\<rparr>))"

definition Bundles_GetByID :: "uuid \<Rightarrow> string \<Rightarrow> bundle_meta option app" where
  "Bundles_GetByID uid bid = wrapM ''get bundle'' (queryM (\<lambda>t d.
     find (\<lambda>r. b_user_id r = uid \<and> b_bundle_id r = bid \<and> b_deleted_at r = None) (bundles d)))"

definition Bundles_ExistsByID :: "string \<Rightarrow> bool app" where
  "Bundles_ExistsByID bid = queryM (\<lambda>t d. \<exists>r \<in> set (bundles d). b_bundle_id r = bid)"

definition Bundles_ListByDevice :: "uuid \<Rightarrow> uuid \<Rightarrow> int \<Rightarrow> int \<Rightarrow> bundle_meta list app" where
  "Bundles_ListByDevice uid dev afterLamport limit = wrapM ''list bundles by device'' (execM (\<lambda>t d.
     if limit < 0 then Inl negative_limit
     else Inr (take (nat limit) (sort_key b_lamport_lo
                (filter (\<lambda>r. live_bundle uid r \<and> b_uploader_device_uuid r = dev
                             \<and> b_lamport_lo r > afterLamport) (bundles d))), d)))"

definition Bundles_ListByUser :: "uuid \<Rightarrow> string \<Rightarrow> int \<Rightarrow> bundle_meta list app" where
  "Bundles_ListByUser uid cursor limit = wrapM ''list bundles'' (execM (\<lambda>t d.
     if limit < 0 then Inl negative_limit
     else if cursor = '''' then
       Inr (take (nat limit) (sort_key b_bundle_id (filter (live_bundle uid) (bundles d))), d)
     else
       Inr (take (nat limit) (sort_key b_bundle_id
              (filter (\<lambda>r. live_bundle uid r \<and> b_bundle_id r > cursor) (bundles d))), d)))"

definition Bundles_ListAllByUser :: "uuid \<Rightarrow> bundle_meta list app" where
  "Bundles_ListAllByUser uid = wrapM ''list all bundles'' (queryM (\<lambda>t d.
     sort_key (\<lambda>b. - b_uploaded_at b)
       (rev (sort_key b_bundle_id (filter (live_bundle uid) (bundles d))))))"

definition Bundles_SoftDelete :: "uuid \<Rightarrow> string \<Rightarrow> bundle_meta app" where
  "Bundles_SoftDelete uid bid = bindM time_Now (\<lambda>at. execM (\<lambda>t d.
     let hit = (\<lambda>r. b_user_id r = uid \<and> b_bundle_id r = bid \<and> b_deleted_at r = None);
         mark = (\<lambda>r. r\<lparr>b_deleted_at := Some at\<rparr>) in
     (case find hit (bundles d) of
        None \<Rightarrow> Inl (ErrMsg ''bundle not found'')
      | Some r \<Rightarrow> Inr (mark r, d\<lparr>bundles := update_where hit mark (bundles d)\<rparr>))))"

definition Bundles_SumSizeByUser :: "uuid \<Rightarrow> int app" where
  "Bundles_SumSizeByUser uid = queryM (\<lambda>t d. sum_by b_size_bytes (filter (live_bundle uid) (bundles d)))"

definition Bundles_CountByUser :: "uuid \<Rightarrow> int app" where
  "Bundles_CountByUser uid = queryM (\<lambda>t d. int (length (filter (live_bundle uid) (bundles d))))"

definition Bundles_CountAll :: "int app" where
  "Bundles_CountAll = queryM (\<lambda>t d. int (length (filter (\<lambda>b. b_deleted_at b = None) (bundles d))))"

definition Bundles_SumSizeAll :: "int app" where
  "Bundles_SumSizeAll = queryM (\<lambda>t d. sum_by b_size_bytes (filter (\<lambda>b. b_deleted_at b = None) (bundles d)))"

definition Bundles_ListForOpsConsistency :: "int \<Rightarrow> bundle_meta list app" where
  "Bundles_ListForOpsConsistency limit0 =
     (let limit = (if limit0 \<le> 0 \<or> limit0 > 1000 then 1000 else limit0) in
      wrapM ''list bundles for ops consistency'' (queryM (\<lambda>t d.
        take (nat limit) (sort_key (\<lambda>b. - b_uploaded_at b)
          (sort_key b_bundle_id (filter (\<lambda>b. b_deleted_at b = None) (bundles d)))))))"

definition Bundles_ListForOpsRestoreManifest :: "int \<Rightarrow> bundle_meta list app" where
  "Bundles_ListForOpsRestoreManifest limit = Bundles_ListForOpsConsistency limit"

definition Bundles_ListDeletedBefore :: "time \<Rightarrow> int \<Rightarrow> bundle_meta list app" where
  "Bundles_ListDeletedBefore before limit0 =
     (let limit = normalizeRetentionBatchLimit limit0 in
      wrapM ''list deleted bundles'' (queryM (\<lambda>t d.
        take (nat limit) (sort_key (\<lambda>b. deleted_time (b_deleted_at b))
          (filter (\<lambda>b. deleted_before before (b_deleted_at b)) (bundles d))))))"

definition Bundles_HardDelete :: "uuid \<Rightarrow> string \<Rightarrow> unit app" where
  "Bundles_HardDelete uid bid = execM (\<lambda>t d.
     Inr ((), d\<lparr>bundles := delete_where (\<lambda>r. b_user_id r = uid \<and> b_bundle_id r = bid) (bundles d)\<rparr>))"

definition Bundles_CountDeletedBefore :: "time \<Rightarrow> (int \<times> int) app" where
  "Bundles_CountDeletedBefore before = wrapM ''count deleted bundles'' (queryM (\<lambda>t d.
     let rows = filter (\<lambda>b. deleted_before before (b_deleted_at b)) (bundles d) in
     (int (length rows), sum_by b_size_bytes rows)))"

definition Bundles_SoftDeleteAllByUser :: "uuid \<Rightarrow> time \<Rightarrow> (int \<times> int) app" where
  "Bundles_SoftDeleteAllByUser uid at = wrapM ''soft delete bundles by user'' (execM (\<lambda>t d.
     let hit = filter (live_bundle uid) (bundles d) in
     Inr ((int (length hit), sum_by b_size_bytes hit),
          d\<lparr>bundles := update_where (live_bundle uid) (\<lambda>r. r\<lparr>b_deleted_at := Some at\<rparr>) (bundles d)\<rparr>)))"

definition Bundles_CountByUserIncludingDeleted :: "uuid \<Rightarrow> (int \<times> int) app" where
  "Bundles_CountByUserIncludingDeleted uid = wrapM ''count bundles by user including deleted'' (queryM (\<lambda>t d.
     let rows = filter (\<lambda>b. b_user_id b = uid) (bundles d) in
     (int (length rows), sum_by b_size_bytes rows)))"

section \<open>SnapshotRepo\<close>

definition Snapshots_Create :: "snapshot_meta \<Rightarrow> snapshot_meta app" where
  "Snapshots_Create s = execM (\<lambda>t d.
     if \<exists>r \<in> set (snapshots d). snapshot_key r = snapshot_key s then Inl unique_violation
     else if \<not> user_exists d (s_user_id s) then Inl fk_violation
     else Inr (s\<lparr>s_created_at := t\<rparr>,
               d\<lparr>snapshots := snapshots d @ [s\<lparr>s_created_at := t, s_deleted_at := None\<rparr>]\<rparr>))"

text \<open>\<open>ORDER BY created_at DESC\<close>\<close>

definition newest_first :: "snapshot_meta list \<Rightarrow> snapshot_meta list" where
  "newest_first rows = sort_key (\<lambda>s. - s_created_at s) rows"

definition Snapshots_GetLatest :: "uuid \<Rightarrow> snapshot_meta option app" where
  "Snapshots_GetLatest uid = wrapM ''get latest snapshot'' (queryM (\<lambda>t d.
     case newest_first (filter (live_snapshot uid) (snapshots d)) of [] \<Rightarrow> None | s # _ \<Rightarrow> Some s))"

definition Snapshots_GetByID :: "uuid \<Rightarrow> string \<Rightarrow> snapshot_meta option app" where
  "Snapshots_GetByID uid sid = wrapM ''get snapshot'' (queryM (\<lambda>t d.
     find (\<lambda>r. s_user_id r = uid \<and> s_snapshot_id r = sid \<and> s_deleted_at r = None) (snapshots d)))"

definition Snapshots_ListAllByUser :: "uuid \<Rightarrow> snapshot_meta list app" where
  "Snapshots_ListAllByUser uid = wrapM ''list all snapshots'' (queryM (\<lambda>t d.
     newest_first (rev (sort_key s_snapshot_id (filter (live_snapshot uid) (snapshots d))))))"

definition Snapshots_SoftDelete :: "uuid \<Rightarrow> string \<Rightarrow> snapshot_meta app" where
  "Snapshots_SoftDelete uid sid = bindM time_Now (\<lambda>at. execM (\<lambda>t d.
     let hit = (\<lambda>r. s_user_id r = uid \<and> s_snapshot_id r = sid \<and> s_deleted_at r = None);
         mark = (\<lambda>r. r\<lparr>s_deleted_at := Some at\<rparr>) in
     (case find hit (snapshots d) of
        None \<Rightarrow> Inl (ErrMsg ''snapshot not found'')
      | Some r \<Rightarrow> Inr (mark r, d\<lparr>snapshots := update_where hit mark (snapshots d)\<rparr>))))"

definition Snapshots_CountByUser :: "uuid \<Rightarrow> int app" where
  "Snapshots_CountByUser uid = queryM (\<lambda>t d. int (length (filter (live_snapshot uid) (snapshots d))))"

definition Snapshots_CountAll :: "int app" where
  "Snapshots_CountAll = queryM (\<lambda>t d. int (length (filter (\<lambda>s. s_deleted_at s = None) (snapshots d))))"

definition Snapshots_SumSizeAll :: "int app" where
  "Snapshots_SumSizeAll = queryM (\<lambda>t d. sum_by s_size_bytes (filter (\<lambda>s. s_deleted_at s = None) (snapshots d)))"

definition Snapshots_ListForOpsConsistency :: "int \<Rightarrow> snapshot_meta list app" where
  "Snapshots_ListForOpsConsistency limit0 =
     (let limit = (if limit0 \<le> 0 \<or> limit0 > 1000 then 1000 else limit0) in
      wrapM ''list snapshots for ops consistency'' (queryM (\<lambda>t d.
        take (nat limit) (newest_first
          (sort_key s_snapshot_id (filter (\<lambda>s. s_deleted_at s = None) (snapshots d)))))))"

definition Snapshots_ListForOpsRestoreManifest :: "int \<Rightarrow> snapshot_meta list app" where
  "Snapshots_ListForOpsRestoreManifest limit = Snapshots_ListForOpsConsistency limit"

text \<open>The rows \<open>PruneOldest\<close> hits: live, and not among the \<open>keep\<close> newest.\<close>

definition beyond_newest :: "uuid \<Rightarrow> nat \<Rightarrow> snapshot_meta list \<Rightarrow> snapshot_meta \<Rightarrow> bool" where
  "beyond_newest uid keep rows r \<longleftrightarrow> live_snapshot uid r \<and>
     s_snapshot_id r \<notin> set (map s_snapshot_id (take keep (newest_first (filter (live_snapshot uid) rows))))"

definition Snapshots_PruneOldest :: "uuid \<Rightarrow> int \<Rightarrow> snapshot_meta list app" where
  "Snapshots_PruneOldest uid keep = execM (\<lambda>t d.
     if keep < 0 then Inl negative_limit
     else
       let hit = beyond_newest uid (nat keep) (snapshots d);
           mark = (\<lambda>r. r\<lparr>s_deleted_at := Some t\<rparr>) in
       Inr (returning hit mark (snapshots d),
            d\<lparr>snapshots := update_where hit mark (snapshots d)\<rparr>))"

definition Snapshots_HardDelete :: "uuid \<Rightarrow> string \<Rightarrow> unit app" where
  "Snapshots_HardDelete uid sid = execM (\<lambda>t d.
     Inr ((), d\<lparr>snapshots := delete_where (\<lambda>r. s_user_id r = uid \<and> s_snapshot_id r = sid) (snapshots d)\<rparr>))"

definition Snapshots_CountDeletedBefore :: "time \<Rightarrow> (int \<times> int) app" where
  "Snapshots_CountDeletedBefore before = wrapM ''count deleted snapshots'' (queryM (\<lambda>t d.
     let rows = filter (\<lambda>s. deleted_before before (s_deleted_at s)) (snapshots d) in
     (int (length rows), sum_by s_size_bytes rows)))"

definition Snapshots_SoftDeleteAllByUser :: "uuid \<Rightarrow> time \<Rightarrow> (int \<times> int) app" where
  "Snapshots_SoftDeleteAllByUser uid at = wrapM ''soft delete snapshots by user'' (execM (\<lambda>t d.
     let hit = filter (live_snapshot uid) (snapshots d) in
     Inr ((int (length hit), sum_by s_size_bytes hit),
          d\<lparr>snapshots := update_where (live_snapshot uid) (\<lambda>r. r\<lparr>s_deleted_at := Some at\<rparr>) (snapshots d)\<rparr>)))"

definition Snapshots_CountByUserIncludingDeleted :: "uuid \<Rightarrow> (int \<times> int) app" where
  "Snapshots_CountByUserIncludingDeleted uid = wrapM ''count snapshots by user including deleted'' (queryM (\<lambda>t d.
     let rows = filter (\<lambda>s. s_user_id s = uid) (snapshots d) in
     (int (length rows), sum_by s_size_bytes rows)))"

definition Snapshots_ListDeletedBefore :: "time \<Rightarrow> int \<Rightarrow> snapshot_meta list app" where
  "Snapshots_ListDeletedBefore before limit0 =
     (let limit = normalizeRetentionBatchLimit limit0 in
      wrapM ''list deleted snapshots'' (queryM (\<lambda>t d.
        take (nat limit) (sort_key (\<lambda>s. deleted_time (s_deleted_at s))
          (filter (\<lambda>s. deleted_before before (s_deleted_at s)) (snapshots d))))))"

section \<open>Sizes of the live rows\<close>

definition live_bundle_bytes :: "db \<Rightarrow> uuid \<Rightarrow> int" where
  "live_bundle_bytes d uid = sum_by b_size_bytes (filter (live_bundle uid) (bundles d))"

definition live_snapshot_bytes :: "db \<Rightarrow> uuid \<Rightarrow> int" where
  "live_snapshot_bytes d uid = sum_by s_size_bytes (filter (live_snapshot uid) (snapshots d))"

definition live_bytes :: "db \<Rightarrow> uuid \<Rightarrow> int" where
  "live_bytes d uid = live_bundle_bytes d uid + live_snapshot_bytes d uid"

text \<open>Primary keys and sizes: what every statement on the two tables preserves.\<close>

definition artifacts_wf :: "db \<Rightarrow> bool" where
  "artifacts_wf d \<longleftrightarrow>
     distinct (map bundle_key (bundles d)) \<and> distinct (map snapshot_key (snapshots d)) \<and>
     (\<forall>b \<in> set (bundles d). 0 \<le> b_size_bytes b) \<and> (\<forall>s \<in> set (snapshots d). 0 \<le> s_size_bytes s)"

lemma artifacts_wfD:
  assumes "artifacts_wf d"
  shows "distinct (map bundle_key (bundles d))" and "distinct (map snapshot_key (snapshots d))"
    and "b \<in> set (bundles d) \<Longrightarrow> 0 \<le> b_size_bytes b"
    and "s \<in> set (snapshots d) \<Longrightarrow> 0 \<le> s_size_bytes s"
  using assms by (auto simp: artifacts_wf_def)

lemma live_bytes_nonneg: "artifacts_wf d \<Longrightarrow> 0 \<le> live_bundle_bytes d uid \<and> 0 \<le> live_snapshot_bytes d uid"
  unfolding live_bundle_bytes_def live_snapshot_bytes_def
  by (auto intro!: sum_by_nonneg dest: artifacts_wfD)

text \<open>A table with a primary key: soft-deleting or removing the one row with a given key.\<close>

lemma sum_live_soft_delete:
  assumes "distinct (map k rows)" and "r \<in> set rows" and "Q r"
    and "\<And>x. H x \<longleftrightarrow> k x = k r \<and> Q x" and "\<And>x. H x \<Longrightarrow> \<not> Q (f x)"
  shows "sum_by g (filter Q (update_where H f rows)) = sum_by g (filter Q rows) - g r"
  using assms(1,2)
proof (induction rows)
  case Nil
  then show ?case by simp
next
  case (Cons x rows)
  show ?case
  proof (cases "x = r")
    case True
    have none: "\<forall>y \<in> set rows. \<not> H y"
      using Cons.prems True assms(4) by (fastforce simp: image_iff)
    then have "update_where H f rows = rows"
      by (auto simp: update_where_def intro: map_idI)
    with True assms(3,4,5) show ?thesis
      by (simp add: update_where_def)
  next
    case False
    with Cons.prems have "k x \<noteq> k r" and "r \<in> set rows" and "distinct (map k rows)"
      by auto
    with Cons.IH assms(4) show ?thesis
      by (simp add: update_where_def)
  qed
qed

lemma sum_live_hard_delete:
  assumes "distinct (map k rows)" and "r \<in> set rows" and "Q r"
    and "\<And>x. H x \<longleftrightarrow> k x = k r"
  shows "sum_by g (filter Q (delete_where H rows)) = sum_by g (filter Q rows) - g r"
  using assms(1,2)
proof (induction rows)
  case Nil
  then show ?case by simp
next
  case (Cons x rows)
  show ?case
  proof (cases "x = r")
    case True
    have "\<forall>y \<in> set rows. \<not> H y"
      using Cons.prems True assms(4) by (fastforce simp: image_iff)
    then have "filter (\<lambda>y. \<not> H y) rows = rows"
      by (auto intro: filter_True)
    with True assms(3,4) show ?thesis
      by (simp add: delete_where_def)
  next
    case False
    with Cons.prems have "k x \<noteq> k r" and "r \<in> set rows" and "distinct (map k rows)"
      by auto
    with Cons.IH assms(4) show ?thesis
      by (simp add: delete_where_def)
  qed
qed

text \<open>Removing rows never raises the live total when sizes are not negative.\<close>

lemma sum_filter_delete_le:
  assumes "\<And>x. x \<in> set rows \<Longrightarrow> 0 \<le> g x"
  shows "sum_by g (filter Q (delete_where H rows)) \<le> sum_by g (filter Q rows)"
  using assms
proof (induction rows)
  case (Cons x rows)
  then have "0 \<le> g x" and "sum_by g (filter Q (delete_where H rows)) \<le> sum_by g (filter Q rows)"
    by auto
  then show ?case
    by (auto simp: delete_where_def)
qed (simp add: delete_where_def)

lemma sum_filter_update_le:
  assumes "\<And>x. x \<in> set rows \<Longrightarrow> 0 \<le> g x" and "\<And>x. H x \<Longrightarrow> g (f x) = g x"
    and "\<And>x. H x \<Longrightarrow> Q (f x) \<Longrightarrow> Q x"
  shows "sum_by g (filter Q (update_where H f rows)) \<le> sum_by g (filter Q rows)"
  using assms(1)
proof (induction rows)
  case Nil
  then show ?case by (simp add: update_where_def)
next
  case (Cons x rows)
  then have "sum_by g (filter Q (update_where H f rows)) \<le> sum_by g (filter Q rows)" and "0 \<le> g x"
    by auto
  with assms(2,3) [of x] show ?case
    by (auto simp: update_where_def)
qed

lemma sum_filter_update_hit:
  assumes "\<And>x. H x \<Longrightarrow> Q x" and "\<And>x. H x \<Longrightarrow> \<not> Q (f x)"
  shows "sum_by g (filter Q (update_where H f rows)) = sum_by g (filter Q rows) - sum_by g (filter H rows)"
  by (induction rows) (use assms in \<open>auto simp: update_where_def\<close>)

end
