(* ===== verification/QuotaRepo.thy ===== *)
theory QuotaRepo
  imports ArtifactRepo Sample "HOL-Library.Multiset"
begin

text \<open>
  QuotaRepo of pkg/repository/repository.go: the storage counters, the read-through
  Redis cache in front of them and the recomputation from the artifact rows. The laws
  an upload relies on are the locale \<open>usage_counter\<close>, interpreted on the bundle and on
  the snapshot counter.
\<close>

section \<open>The Redis cache\<close>

definition quotaCacheTTL :: duration where
  "quotaCacheTTL = 30 * Second"

text \<open>
  Cache errors are silent. An entry carries the instant at which it expires; the key is
  the user's id.
\<close>

definition Quota_cacheUsage :: "quota_usage \<Rightarrow> unit app" where
  "Quota_cacheUsage u = (\<lambda>w. case redis w of
     None \<Rightarrow> (Inr (), w)
   | Some c \<Rightarrow>
       if fault_next w then (Inr (), drop_fault w)
       else (Inr (), (drop_fault w)\<lparr>redis := Some (c(q_user_id u \<mapsto> (u, now w + quotaCacheTTL)))\<rparr>))"

definition Quota_invalidateUsageCache :: "uuid \<Rightarrow> unit app" where
  "Quota_invalidateUsageCache uid = (\<lambda>w. case redis w of
     None \<Rightarrow> (Inr (), w)
   | Some c \<Rightarrow>
       if fault_next w then (Inr (), drop_fault w)
       else (Inr (), (drop_fault w)\<lparr>redis := Some (c(uid := None))\<rparr>))"

definition Quota_getCachedUsage :: "uuid \<Rightarrow> quota_usage option app" where
  "Quota_getCachedUsage uid = (\<lambda>w. case redis w of
     None \<Rightarrow> (Inr None, w)
   | Some c \<Rightarrow>
       if fault_next w then (Inr None, drop_fault w)
       else (case c uid of
               None \<Rightarrow> (Inr None, drop_fault w)
             | Some (u, expires) \<Rightarrow> (Inr (if now w < expires then Some u else None), drop_fault w)))"

section \<open>Rows\<close>

definition usage_row :: "db \<Rightarrow> uuid \<Rightarrow> quota_usage option" where
  "usage_row d uid = find (\<lambda>r. q_user_id r = uid) (storage_usage d)"

definition used_bytes :: "db \<Rightarrow> uuid \<Rightarrow> int" where
  "used_bytes d uid = (case usage_row d uid of None \<Rightarrow> 0 | Some r \<Rightarrow> q_total_bytes r)"

text \<open>\<open>INSERT ... ON CONFLICT (user_id) DO UPDATE\<close> of a whole counter row.\<close>

definition upsert_usage :: "quota_usage \<Rightarrow> quota_usage list \<Rightarrow> quota_usage list" where
  "upsert_usage u rows =
     (if \<exists>r \<in> set rows. q_user_id r = q_user_id u
      then map (\<lambda>r. if q_user_id r = q_user_id u then u else r) rows
      else rows @ [u])"

datatype counter = BundleCounter | SnapshotCounter

fun add_count :: "counter \<Rightarrow> int \<Rightarrow> quota_usage \<Rightarrow> quota_usage" where
  "add_count BundleCounter n u = u\<lparr>q_bundle_count := q_bundle_count u + n\<rparr>"
| "add_count SnapshotCounter n u = u\<lparr>q_snap_count := q_snap_count u + n\<rparr>"

fun get_count :: "counter \<Rightarrow> quota_usage \<Rightarrow> int" where
  "get_count BundleCounter u = q_bundle_count u"
| "get_count SnapshotCounter u = q_snap_count u"

fun sub_count :: "counter \<Rightarrow> quota_usage \<Rightarrow> quota_usage" where
  "sub_count BundleCounter u = u\<lparr>q_bundle_count := max (q_bundle_count u - 1) 0\<rparr>"
| "sub_count SnapshotCounter u = u\<lparr>q_snap_count := max (q_snap_count u - 1) 0\<rparr>"

section \<open>Statements\<close>

definition stmt_ensure_usage :: "uuid \<Rightarrow> time \<Rightarrow> db \<Rightarrow> goerr + unit \<times> db" where
  "stmt_ensure_usage uid t d =
     (if usage_row d uid \<noteq> None then Inr ((), d)
      else if \<not> user_exists d uid then Inl fk_violation
      else Inr ((), d\<lparr>storage_usage := storage_usage d @ [(empty_usage uid)\<lparr>q_updated_at := t\<rparr>]\<rparr>))"

text \<open>
  The conditional \<open>UPDATE\<close>; the result is \<open>RowsAffected() == 1\<close>. bigint and integer
  arithmetic that overflows is an error of the statement.
\<close>

definition stmt_try_add :: "counter \<Rightarrow> uuid \<Rightarrow> int \<Rightarrow> int \<Rightarrow> time \<Rightarrow> db \<Rightarrow> goerr + bool \<times> db" where
  "stmt_try_add c uid sizeBytes storageLimitBytes t d =
     (case usage_row d uid of
        None \<Rightarrow> Inr (False, d)
      | Some r \<Rightarrow>
          if \<not> in_i64 (q_total_bytes r + sizeBytes) then Inl out_of_range
          else if q_total_bytes r + sizeBytes \<le> storageLimitBytes then
            if get_count c r + 1 \<ge> 2 ^ 31 then Inl out_of_range
            else Inr (True, d\<lparr>storage_usage := update_where (\<lambda>x. q_user_id x = uid)
                   (\<lambda>x. (add_count c 1 x)\<lparr>q_total_bytes := q_total_bytes x + sizeBytes, q_updated_at := t\<rparr>)
                   (storage_usage d)\<rparr>)
          else Inr (False, d))"

definition stmt_remove_usage :: "counter \<Rightarrow> uuid \<Rightarrow> int \<Rightarrow> time \<Rightarrow> db \<Rightarrow> goerr + unit \<times> db" where
  "stmt_remove_usage c uid sizeBytes t d =
     (if \<exists>r \<in> set (storage_usage d). q_user_id r = uid \<and> \<not> in_i64 (q_total_bytes r - sizeBytes)
      then Inl out_of_range
      else Inr ((), d\<lparr>storage_usage := update_where (\<lambda>x. q_user_id x = uid)
             (\<lambda>x. (sub_count c x)\<lparr>q_total_bytes := max (q_total_bytes x - sizeBytes) 0, q_updated_at := t\<rparr>)
             (storage_usage d)\<rparr>))"

text \<open>\<open>INSERT (total_bytes, count = 1) ... ON CONFLICT DO UPDATE\<close> adding to the old row.\<close>

definition stmt_add_usage :: "counter \<Rightarrow> uuid \<Rightarrow> int \<Rightarrow> time \<Rightarrow> db \<Rightarrow> goerr + unit \<times> db" where
  "stmt_add_usage c uid sizeBytes t d =
     (case usage_row d uid of
        None \<Rightarrow>
          if \<not> user_exists d uid then Inl fk_violation
          else Inr ((), d\<lparr>storage_usage := storage_usage d @
                 [(add_count c 1 (empty_usage uid))\<lparr>q_total_bytes := sizeBytes, q_updated_at := t\<rparr>]\<rparr>)
      | Some r \<Rightarrow>
          if \<not> in_i64 (q_total_bytes r + sizeBytes) \<or> get_count c r + 1 \<ge> 2 ^ 31 then Inl out_of_range
          else Inr ((), d\<lparr>storage_usage := update_where (\<lambda>x. q_user_id x = uid)
                 (\<lambda>x. (add_count c 1 x)\<lparr>q_total_bytes := q_total_bytes x + sizeBytes, q_updated_at := t\<rparr>)
                 (storage_usage d)\<rparr>))"

text \<open>The counters recomputed from the rows that are not soft-deleted.\<close>

definition recomputed_usage :: "db \<Rightarrow> uuid \<Rightarrow> time \<Rightarrow> quota_usage" where
  "recomputed_usage d uid t =
     \<lparr>q_user_id = uid,
      q_total_bytes = sum_by b_size_bytes (filter (live_bundle uid) (bundles d))
                    + sum_by s_size_bytes (filter (live_snapshot uid) (snapshots d)),
      q_bundle_count = int (length (filter (live_bundle uid) (bundles d))),
      q_snap_count = int (length (filter (live_snapshot uid) (snapshots d))),
      q_updated_at = t\<rparr>"

definition usage_in_range :: "quota_usage \<Rightarrow> bool" where
  "usage_in_range u \<longleftrightarrow> in_i64 (q_total_bytes u) \<and> q_bundle_count u < 2 ^ 31 \<and> q_snap_count u < 2 ^ 31"

section \<open>Methods\<close>

definition Quota_GetUsage :: "uuid \<Rightarrow> quota_usage app" where
  "Quota_GetUsage uid = bindM (Quota_getCachedUsage uid) (\<lambda>cached.
     case cached of
       Some u \<Rightarrow> retM u
     | None \<Rightarrow> bindM (wrapM ''get usage'' (queryM (\<lambda>t d. usage_row d uid))) (\<lambda>row.
         let u = (case row of None \<Rightarrow> empty_usage uid | Some u \<Rightarrow> u) in
         thenM (Quota_cacheUsage u) (retM u)))"

definition Quota_GetLimits :: "uuid \<Rightarrow> quota_limits app" where
  "Quota_GetLimits uid = wrapM ''get limits'' (execM (\<lambda>t d.
     case find (\<lambda>l. l_user_id l = uid) (quota_limits_tbl d) of
       None \<Rightarrow> Inl (DriverErr ''no rows in result set'')
     | Some l \<Rightarrow> Inr (l, d)))"

text \<open>\<open>override_reason\<close> and \<open>expires_at\<close> are not among the columns it writes.\<close>

definition Quota_UpsertLimits :: "quota_limits \<Rightarrow> unit app" where
  "Quota_UpsertLimits l = execM (\<lambda>t d.
     if \<exists>r \<in> set (quota_limits_tbl d). l_user_id r = l_user_id l then
       Inr ((), d\<lparr>quota_limits_tbl := map (\<lambda>r. if l_user_id r = l_user_id l
              then l\<lparr>l_override_reason := l_override_reason r, l_expires_at := l_expires_at r\<rparr> else r)
              (quota_limits_tbl d)\<rparr>)
     else if \<not> user_exists d (l_user_id l) then Inl fk_violation
     else Inr ((), d\<lparr>quota_limits_tbl :=
            quota_limits_tbl d @ [l\<lparr>l_override_reason := None, l_expires_at := None\<rparr>]\<rparr>))"

definition Quota_CreateUsage :: "uuid \<Rightarrow> unit app" where
  "Quota_CreateUsage uid = execM (stmt_ensure_usage uid)"

definition Quota_AddBundleUsage :: "uuid \<Rightarrow> int \<Rightarrow> unit app" where
  "Quota_AddBundleUsage uid sizeBytes =
     thenM (wrapM ''add bundle usage'' (execM (stmt_add_usage BundleCounter uid sizeBytes)))
           (Quota_invalidateUsageCache uid)"

definition Quota_TryAddBundleUsage :: "uuid \<Rightarrow> int \<Rightarrow> int \<Rightarrow> bool app" where
  "Quota_TryAddBundleUsage uid sizeBytes storageLimitBytes =
     thenM (wrapM ''ensure usage row'' (execM (stmt_ensure_usage uid)))
     (bindM (wrapM ''add bundle usage'' (execM (stmt_try_add BundleCounter uid sizeBytes storageLimitBytes))) (\<lambda>ok.
      thenM (if ok then Quota_invalidateUsageCache uid else retM ()) (retM ok)))"

definition Quota_RemoveBundleUsage :: "uuid \<Rightarrow> int \<Rightarrow> unit app" where
  "Quota_RemoveBundleUsage uid sizeBytes =
     thenM (wrapM ''remove bundle usage'' (execM (stmt_remove_usage BundleCounter uid sizeBytes)))
           (Quota_invalidateUsageCache uid)"

definition Quota_AddSnapshotUsage :: "uuid \<Rightarrow> int \<Rightarrow> unit app" where
  "Quota_AddSnapshotUsage uid sizeBytes =
     thenM (wrapM ''add snapshot usage'' (execM (stmt_add_usage SnapshotCounter uid sizeBytes)))
           (Quota_invalidateUsageCache uid)"

definition Quota_TryAddSnapshotUsage :: "uuid \<Rightarrow> int \<Rightarrow> int \<Rightarrow> bool app" where
  "Quota_TryAddSnapshotUsage uid sizeBytes storageLimitBytes =
     thenM (wrapM ''ensure usage row'' (execM (stmt_ensure_usage uid)))
     (bindM (wrapM ''add snapshot usage'' (execM (stmt_try_add SnapshotCounter uid sizeBytes storageLimitBytes))) (\<lambda>ok.
      thenM (if ok then Quota_invalidateUsageCache uid else retM ()) (retM ok)))"

definition Quota_RemoveSnapshotUsage :: "uuid \<Rightarrow> int \<Rightarrow> unit app" where
  "Quota_RemoveSnapshotUsage uid sizeBytes =
     thenM (wrapM ''remove snapshot usage'' (execM (stmt_remove_usage SnapshotCounter uid sizeBytes)))
           (Quota_invalidateUsageCache uid)"

definition Quota_DeleteUsageByUser :: "uuid \<Rightarrow> int app" where
  "Quota_DeleteUsageByUser uid =
     bindM (wrapM ''delete storage usage by user'' (execM (\<lambda>t d.
       let hit = (\<lambda>r. q_user_id r = uid) in
       Inr (int (length (filter hit (storage_usage d))),
            d\<lparr>storage_usage := delete_where hit (storage_usage d)\<rparr>)))) (\<lambda>n.
     thenM (Quota_invalidateUsageCache uid) (retM n))"

definition Quota_DeleteLimitsByUser :: "uuid \<Rightarrow> int app" where
  "Quota_DeleteLimitsByUser uid = wrapM ''delete quota limits by user'' (execM (\<lambda>t d.
     let hit = (\<lambda>r. l_user_id r = uid) in
     Inr (int (length (filter hit (quota_limits_tbl d))),
          d\<lparr>quota_limits_tbl := delete_where hit (quota_limits_tbl d)\<rparr>)))"

definition stmt_recalculate :: "uuid \<Rightarrow> time \<Rightarrow> db \<Rightarrow> goerr + quota_usage \<times> db" where
  "stmt_recalculate uid t d =
     (let u = recomputed_usage d uid t in
      if \<not> usage_in_range u then Inl out_of_range
      else if usage_row d uid = None \<and> \<not> user_exists d uid then Inl fk_violation
      else Inr (u, d\<lparr>storage_usage := upsert_usage u (storage_usage d)\<rparr>))"

definition Quota_RecalculateUsage :: "uuid \<Rightarrow> quota_usage app" where
  "Quota_RecalculateUsage uid =
     bindM (wrapM ''recalculate usage'' (execM (stmt_recalculate uid))) (\<lambda>u.
     thenM (Quota_invalidateUsageCache uid) (retM u))"

text \<open>One statement for all users that are not soft-deleted; it touches no cache entry.\<close>

definition active_users :: "db \<Rightarrow> user list" where
  "active_users d = filter (\<lambda>u. u_deleted_at u = None) (users d)"

definition stmt_recalculate_all :: "time \<Rightarrow> db \<Rightarrow> goerr + int \<times> db" where
  "stmt_recalculate_all t d =
     (let us = map (\<lambda>u. recomputed_usage d (u_id u) t) (active_users d) in
      if \<exists>u \<in> set us. \<not> usage_in_range u then Inl out_of_range
      else Inr (int (length us), d\<lparr>storage_usage := fold upsert_usage us (storage_usage d)\<rparr>))"

definition Quota_RecalculateAllUsage :: "int app" where
  "Quota_RecalculateAllUsage = wrapM ''recalculate all usage'' (execM stmt_recalculate_all)"

section \<open>What the statements do to the counters\<close>

lemma usage_row_key: "usage_row d uid = Some r \<Longrightarrow> q_user_id r = uid"
  unfolding usage_row_def by (drule find_Some_in) simp

lemma used_bytes_append:
  "used_bytes (d\<lparr>storage_usage := storage_usage d @ [u]\<rparr>) x =
   (if usage_row d x = None \<and> q_user_id u = x then q_total_bytes u else used_bytes d x)"
  by (auto simp: used_bytes_def usage_row_def find_append split: option.splits)

lemma used_bytes_update:
  assumes "\<And>r. q_user_id (f r) = q_user_id r"
  shows "used_bytes (d\<lparr>storage_usage := update_where (\<lambda>r. q_user_id r = uid) f (storage_usage d)\<rparr>) x =
         (if x = uid then (case usage_row d uid of None \<Rightarrow> 0 | Some r \<Rightarrow> q_total_bytes (f r))
          else used_bytes d x)"
  using assms by (simp add: used_bytes_def usage_row_def find_update_key option.case_eq_if map_option_case)

lemma counter_simps [simp]:
  "q_user_id (add_count c n u) = q_user_id u" "q_user_id (sub_count c u) = q_user_id u"
  "q_total_bytes (add_count c n u) = q_total_bytes u" "q_total_bytes (sub_count c u) = q_total_bytes u"
  by (cases c; simp)+

text \<open>A statement that only writes the counters table.\<close>

definition usage_frame :: "db \<Rightarrow> db \<Rightarrow> bool" where
  "usage_frame d d' \<longleftrightarrow> d' = d\<lparr>storage_usage := storage_usage d'\<rparr>"

lemma usage_frame_refl [simp]: "usage_frame d d"
  by (simp add: usage_frame_def)

lemma usage_frame_upd [simp]: "usage_frame d (d\<lparr>storage_usage := su\<rparr>)"
  by (simp add: usage_frame_def)

lemma usage_frame_trans: "usage_frame a b \<Longrightarrow> usage_frame b c \<Longrightarrow> usage_frame a c"
  unfolding usage_frame_def by (metis db.surjective db.update_convs(5))

lemma usage_frame_data:
  assumes "usage_frame d d'"
  shows "bundles d' = bundles d" "snapshots d' = snapshots d" "users d' = users d"
    "devices d' = devices d" "device_revocations d' = device_revocations d"
    "quota_limits_tbl d' = quota_limits_tbl d" "account_erasure_jobs d' = account_erasure_jobs d"
    "refresh_tokens d' = refresh_tokens d" "audit_logs d' = audit_logs d"
proof -
  obtain su where "d' = d\<lparr>storage_usage := su\<rparr>"
    using assms unfolding usage_frame_def by blast
  then show "bundles d' = bundles d" "snapshots d' = snapshots d" "users d' = users d"
    "devices d' = devices d" "device_revocations d' = device_revocations d"
    "quota_limits_tbl d' = quota_limits_tbl d" "account_erasure_jobs d' = account_erasure_jobs d"
    "refresh_tokens d' = refresh_tokens d" "audit_logs d' = audit_logs d"
    by simp_all
qed

lemma used_bytes_None: "usage_row d uid = None \<Longrightarrow> used_bytes d uid = 0"
  by (simp add: used_bytes_def)

lemma used_bytes_Some: "usage_row d uid = Some r \<Longrightarrow> used_bytes d uid = q_total_bytes r"
  by (simp add: used_bytes_def)

lemma usage_row_append:
  "usage_row (d\<lparr>storage_usage := storage_usage d @ [u]\<rparr>) x =
   (if usage_row d x = None \<and> q_user_id u = x then Some u else usage_row d x)"
  by (auto simp: usage_row_def find_append split: option.splits)

lemma ensure_usage_spec:
  assumes "stmt_ensure_usage uid t d = Inr (u, d')"
  shows "usage_frame d d'" and "used_bytes d' x = used_bytes d x" and "usage_row d' uid \<noteq> None"
  using assms
  by (auto simp: stmt_ensure_usage_def used_bytes_append usage_row_append empty_usage_def
      used_bytes_None split: if_splits)

lemma try_add_granted_iff:
  "stmt_try_add c uid n lim t d = Inr (True, d') \<longleftrightarrow>
   (\<exists>r. usage_row d uid = Some r \<and> in_i64 (q_total_bytes r + n) \<and> q_total_bytes r + n \<le> lim \<and>
        get_count c r + 1 < 2 ^ 31 \<and>
        d' = d\<lparr>storage_usage := update_where (\<lambda>x. q_user_id x = uid)
               (\<lambda>x. (add_count c 1 x)\<lparr>q_total_bytes := q_total_bytes x + n, q_updated_at := t\<rparr>)
               (storage_usage d)\<rparr>)"
  by (auto simp: stmt_try_add_def split: option.splits)

lemma try_add_refused_iff:
  "stmt_try_add c uid n lim t d = Inr (False, d') \<longleftrightarrow>
   d' = d \<and> (\<forall>r. usage_row d uid = Some r \<longrightarrow> in_i64 (q_total_bytes r + n) \<and> lim < q_total_bytes r + n)"
  by (auto simp: stmt_try_add_def split: option.splits)

lemma try_add_spec:
  assumes "stmt_try_add c uid n lim t d = Inr (ok, d')"
  shows "usage_frame d d'"
    and "used_bytes d' x = used_bytes d x + (if ok \<and> x = uid then n else 0)"
    and "ok \<Longrightarrow> used_bytes d' uid \<le> lim"
  using assms
  by (cases ok; clarsimp simp: try_add_granted_iff try_add_refused_iff used_bytes_update used_bytes_Some)+

lemma try_add_within:
  "stmt_try_add c uid n lim t d = Inr (True, d') \<Longrightarrow> used_bytes d uid + n \<le> lim"
  by (auto simp: try_add_granted_iff used_bytes_Some)

lemma try_add_refused:
  assumes "stmt_try_add c uid n lim t d = Inr (False, d')" and "usage_row d uid \<noteq> None"
  shows "lim < used_bytes d uid + n"
  using assms by (auto simp: try_add_refused_iff used_bytes_Some)

lemma remove_usage_iff:
  "stmt_remove_usage c uid n t d = Inr (u, d') \<longleftrightarrow>
   (\<forall>r \<in> set (storage_usage d). q_user_id r = uid \<longrightarrow> in_i64 (q_total_bytes r - n)) \<and>
   d' = d\<lparr>storage_usage := update_where (\<lambda>x. q_user_id x = uid)
          (\<lambda>x. (sub_count c x)\<lparr>q_total_bytes := max (q_total_bytes x - n) 0, q_updated_at := t\<rparr>)
          (storage_usage d)\<rparr>"
  by (auto simp: stmt_remove_usage_def)

lemma remove_usage_spec:
  assumes "stmt_remove_usage c uid n t d = Inr (u, d')"
  shows "usage_frame d d'"
    and "used_bytes d' x = (if x = uid \<and> usage_row d uid \<noteq> None then max (used_bytes d uid - n) 0
                            else used_bytes d x)"
  using assms
  by (auto simp: remove_usage_iff used_bytes_update used_bytes_Some used_bytes_None split: option.split)

section \<open>The contract of a usage counter\<close>

text \<open>
  What an upload and a delete rely on: a granted \<open>try_add\<close> adds exactly the size and
  stays within the limit, a refused or failed one adds nothing, \<open>remove\<close> subtracts at
  most the size and not below zero, and neither touches another user's counter or
  another table.
\<close>

definition usage_call :: "world \<Rightarrow> world \<Rightarrow> bool" where
  "usage_call w w' \<longleftrightarrow> usage_frame (db w) (db w') \<and> blobs w' = blobs w \<and> log w' = log w \<and> now w \<le> now w'"

locale usage_counter =
  fixes try_add :: "uuid \<Rightarrow> int \<Rightarrow> int \<Rightarrow> bool app"
    and remove :: "uuid \<Rightarrow> int \<Rightarrow> unit app"
    and used :: "db \<Rightarrow> uuid \<Rightarrow> int"
  assumes try_add_wp:
    "wpM (try_add uid n lim)
       (\<lambda>ok w'. usage_call w w' \<and> (ok \<longrightarrow> used (db w') uid \<le> lim) \<and>
                (\<forall>x. used (db w') x = used (db w) x + (if ok \<and> x = uid then n else 0)))
       (\<lambda>e w'. usage_call w w' \<and> (\<forall>x. used (db w') x = used (db w) x)) w"
    and remove_wp:
    "wpM (remove uid n)
       (\<lambda>_ w'. usage_call w w' \<and> (0 \<le> n \<longrightarrow>
               (\<forall>x. used (db w') x \<ge> used (db w) x - (if x = uid then n else 0)) \<and>
               (0 \<le> used (db w) uid \<longrightarrow> used (db w') uid \<le> used (db w) uid)))
       (\<lambda>e w'. usage_call w w' \<and> (\<forall>x. used (db w') x = used (db w) x)) w"
begin

lemma try_add_granted:
  assumes "try_add uid n lim w = (Inr True, w')"
  shows "used (db w') uid = used (db w) uid + n" and "used (db w') uid \<le> lim"
    and "x \<noteq> uid \<Longrightarrow> used (db w') x = used (db w) x" and "usage_call w w'"
  using wpM_okD [OF try_add_wp assms] by auto

lemma try_add_refused_keeps:
  assumes "try_add uid n lim w = (Inr False, w')"
  shows "used (db w') x = used (db w) x"
  using wpM_okD [OF try_add_wp assms] by auto

text \<open>A reservation that is undone leaves at least what was there before it.\<close>

lemma undo_covers:
  assumes "try_add uid n lim w = (Inr True, w1)" and "remove uid n w1 = (r, w2)" and "0 \<le> n"
  shows "used (db w) x \<le> used (db w2) x"
proof (cases r)
  case (Inl e)
  with assms have "used (db w2) x = used (db w1) x"
    using wpM_errD [OF remove_wp] by blast
  with try_add_granted [OF assms(1)] assms(3) show ?thesis
    by (cases "x = uid") auto
next
  case (Inr u)
  with assms(2,3) have "used (db w2) x \<ge> used (db w1) x - (if x = uid then n else 0)"
    using wpM_okD [OF remove_wp] by blast
  with try_add_granted [OF assms(1)] show ?thesis
    by (cases "x = uid") auto
qed

end

lemma usage_call_refl [simp]: "usage_call w w"
  by (simp add: usage_call_def)

lemma wp_invalidate [wp]:
  "wpM (Quota_invalidateUsageCache uid) Q E w = Q () (snd (Quota_invalidateUsageCache uid w))"
  by (auto simp: wpM_def Quota_invalidateUsageCache_def split: option.split)

lemma invalidate_simps [simp]:
  "db (snd (Quota_invalidateUsageCache uid w)) = db w"
  "blobs (snd (Quota_invalidateUsageCache uid w)) = blobs w"
  "log (snd (Quota_invalidateUsageCache uid w)) = log w"
  "now (snd (Quota_invalidateUsageCache uid w)) = now w"
  by (auto simp: Quota_invalidateUsageCache_def split: option.split)

lemma usage_callI [simp]:
  "usage_frame (db w) d \<Longrightarrow> usage_call w ((drop_fault (tick w))\<lparr>db := d\<rparr>)"
  by (simp add: usage_call_def tick_mono)

lemma usage_call_drop [simp]: "usage_call w (drop_fault (tick w))"
  by (simp add: usage_call_def tick_mono)

lemma usage_call_invalidate [simp]:
  "usage_call w (snd (Quota_invalidateUsageCache uid w')) = usage_call w w'"
  by (simp add: usage_call_def)

lemma usage_call_trans: "usage_call a b \<Longrightarrow> usage_call b c \<Longrightarrow> usage_call a c"
  by (auto simp: usage_call_def intro: usage_frame_trans)

lemma exec_ensure_wp:
  "wpM (execM (stmt_ensure_usage uid))
     (\<lambda>_ w'. usage_call w w' \<and> (\<forall>x. used_bytes (db w') x = used_bytes (db w) x))
     (\<lambda>e w'. usage_call w w' \<and> (\<forall>x. used_bytes (db w') x = used_bytes (db w) x)) w"
  by (auto simp: wp_exec Let_def dest: ensure_usage_spec split: sum.split)

lemma exec_try_add_wp:
  "wpM (execM (stmt_try_add c uid n lim))
     (\<lambda>ok w'. usage_call w w' \<and> (ok \<longrightarrow> used_bytes (db w') uid \<le> lim) \<and>
              (\<forall>x. used_bytes (db w') x = used_bytes (db w) x + (if ok \<and> x = uid then n else 0)))
     (\<lambda>e w'. usage_call w w' \<and> (\<forall>x. used_bytes (db w') x = used_bytes (db w) x)) w"
  by (simp add: wp_exec Let_def split: sum.split) (auto simp: try_add_spec dest: try_add_within)

lemma exec_remove_wp:
  "wpM (execM (stmt_remove_usage c uid n))
     (\<lambda>_ w'. usage_call w w' \<and> (0 \<le> n \<longrightarrow>
             (\<forall>x. used_bytes (db w') x \<ge> used_bytes (db w) x - (if x = uid then n else 0)) \<and>
             (0 \<le> used_bytes (db w) uid \<longrightarrow> used_bytes (db w') uid \<le> used_bytes (db w) uid)))
     (\<lambda>e w'. usage_call w w' \<and> (\<forall>x. used_bytes (db w') x = used_bytes (db w) x)) w"
  by (auto simp: wp_exec Let_def remove_usage_spec used_bytes_None split: sum.split)

section \<open>The two counters provide the contract\<close>

lemma ensure_then_try_add_wp:
  "wpM (thenM (wrapM a (execM (stmt_ensure_usage uid)))
        (bindM (wrapM b (execM (stmt_try_add c uid n lim)))
          (\<lambda>ok. thenM (if ok then Quota_invalidateUsageCache uid else retM ()) (retM ok))))
     (\<lambda>ok w'. usage_call w w' \<and> (ok \<longrightarrow> used_bytes (db w') uid \<le> lim) \<and>
              (\<forall>x. used_bytes (db w') x = used_bytes (db w) x + (if ok \<and> x = uid then n else 0)))
     (\<lambda>e w'. usage_call w w' \<and> (\<forall>x. used_bytes (db w') x = used_bytes (db w) x)) w"
  unfolding wp_then wp_wrap wp_bind
proof (rule wpM_mono [OF exec_ensure_wp], goal_cases)
  case (1 u w1)
  show ?case
    by (rule wpM_mono [OF exec_try_add_wp])
      (use 1 in \<open>auto simp: wp intro: usage_call_trans\<close>)
qed auto

lemma remove_then_invalidate_wp:
  "wpM (thenM (wrapM a (execM (stmt_remove_usage c uid n))) (Quota_invalidateUsageCache uid))
     (\<lambda>_ w'. usage_call w w' \<and> (0 \<le> n \<longrightarrow>
             (\<forall>x. used_bytes (db w') x \<ge> used_bytes (db w) x - (if x = uid then n else 0)) \<and>
             (0 \<le> used_bytes (db w) uid \<longrightarrow> used_bytes (db w') uid \<le> used_bytes (db w) uid)))
     (\<lambda>e w'. usage_call w w' \<and> (\<forall>x. used_bytes (db w') x = used_bytes (db w) x)) w"
  unfolding wp_then wp_wrap
  by (rule wpM_mono [OF exec_remove_wp]) (auto simp: wp)

interpretation bundle_counter: usage_counter Quota_TryAddBundleUsage Quota_RemoveBundleUsage used_bytes
  unfolding Quota_TryAddBundleUsage_def Quota_RemoveBundleUsage_def
  by unfold_locales (rule ensure_then_try_add_wp, rule remove_then_invalidate_wp)

interpretation snapshot_counter: usage_counter Quota_TryAddSnapshotUsage Quota_RemoveSnapshotUsage used_bytes
  unfolding Quota_TryAddSnapshotUsage_def Quota_RemoveSnapshotUsage_def
  by unfold_locales (rule ensure_then_try_add_wp, rule remove_then_invalidate_wp)

section \<open>Concurrent uploads as interleaved statements\<close>

text \<open>
  Requests of any number of clients, interleaved statement by statement: each step is
  one SQL statement of some upload or rollback. \<open>held\<close> is the multiset of sizes granted
  and not given back. \<open>lim\<close> gives the storage limit each user's uploads are checked against.
\<close>

inductive quota_step ::
  "(uuid \<Rightarrow> int) \<Rightarrow> db \<times> (uuid \<times> int) multiset \<Rightarrow> db \<times> (uuid \<times> int) multiset \<Rightarrow> bool"
  for lim where
  ensure: "stmt_ensure_usage uid t d = Inr (u, d') \<Longrightarrow> quota_step lim (d, held) (d', held)"
| grant: "stmt_try_add c uid n (lim uid) t d = Inr (True, d') \<Longrightarrow> 0 \<le> n \<Longrightarrow>
    quota_step lim (d, held) (d', add_mset (uid, n) held)"
| refuse: "stmt_try_add c uid n (lim uid) t d = Inr (False, d') \<Longrightarrow> quota_step lim (d, held) (d', held)"
| give_back: "(uid, n) \<in># held \<Longrightarrow> stmt_remove_usage c uid n t d = Inr (u, d') \<Longrightarrow>
    quota_step lim (d, held) (d', held - {#(uid, n)#})"

inductive_cases quota_stepE: "quota_step lim (d, held) (d', held')"

definition held_bytes :: "(uuid \<times> int) multiset \<Rightarrow> uuid \<Rightarrow> int" where
  "held_bytes held uid = \<Sum>\<^sub># (image_mset snd (filter_mset (\<lambda>p. fst p = uid) held))"

definition quota_inv :: "(uuid \<Rightarrow> int) \<Rightarrow> db \<times> (uuid \<times> int) multiset \<Rightarrow> bool" where
  "quota_inv lim s \<longleftrightarrow>
     (\<forall>p \<in># snd s. 0 \<le> snd p) \<and>
     (\<forall>uid. held_bytes (snd s) uid \<le> used_bytes (fst s) uid \<and> used_bytes (fst s) uid \<le> lim uid)"

lemma held_bytes_simps [simp]:
  "held_bytes {#} x = 0"
  "held_bytes (add_mset (uid, n) held) x = held_bytes held x + (if x = uid then n else 0)"
  by (auto simp: held_bytes_def)

lemma held_bytes_remove:
  "(uid, n) \<in># held \<Longrightarrow>
   held_bytes (held - {#(uid, n)#}) x = held_bytes held x - (if x = uid then n else 0)"
  by (drule multi_member_split) auto

lemma held_bytes_nonneg: "(\<forall>p \<in># held. 0 \<le> snd p) \<Longrightarrow> 0 \<le> held_bytes held x"
  unfolding held_bytes_def by (induction held) auto

lemma quota_inv_step:
  assumes "quota_step lim s s'" and "quota_inv lim s"
  shows "quota_inv lim s'"
  using assms
proof (induction rule: quota_step.induct)
  case (ensure uid t d u d' held)
  then show ?case
    by (simp add: quota_inv_def ensure_usage_spec)
next
  case (grant c uid n t d d' held)
  then show ?case
    by (auto simp: quota_inv_def try_add_spec dest: try_add_within)
next
  case (refuse c uid n t d d' held)
  then show ?case
    by (auto simp: quota_inv_def try_add_spec)
next
  case (give_back uid n held c t d u d')
  then have "0 \<le> n" and nonneg: "\<forall>p \<in># held - {#(uid, n)#}. 0 \<le> snd p"
    and held: "0 \<le> held_bytes held uid"
    by (auto simp: quota_inv_def dest: in_diffD intro: held_bytes_nonneg)
  have "held_bytes (held - {#(uid, n)#}) x \<le> used_bytes d' x \<and> used_bytes d' x \<le> lim x" for x
  proof -
    have "held_bytes held x \<le> used_bytes d x" and "used_bytes d x \<le> lim x"
      using give_back by (simp_all add: quota_inv_def)
    with \<open>0 \<le> n\<close> held remove_usage_spec(2) [OF give_back(2), of x] held_bytes_remove [OF give_back(1), of x]
    show ?thesis
      by (auto simp: used_bytes_None)
  qed
  with nonneg show ?case
    by (simp add: quota_inv_def)
qed

lemma quota_inv_reach: "(quota_step lim)\<^sup>*\<^sup>* s s' \<Longrightarrow> quota_inv lim s \<Longrightarrow> quota_inv lim s'"
  by (induction rule: rtranclp_induct) (auto intro: quota_inv_step)

section \<open>Recomputation\<close>

lemma find_map_replace:
  assumes "q_user_id u = k"
  shows "find (\<lambda>r. q_user_id r = k) (map (\<lambda>r. if q_user_id r = k then u else r) rows) =
    (if \<exists>r \<in> set rows. q_user_id r = k then Some u else None)"
  using assms by (induction rows) simp_all

lemma find_map_replace_other:
  assumes "q_user_id u = k" and "x \<noteq> k"
  shows "find (\<lambda>r. q_user_id r = x) (map (\<lambda>r. if q_user_id r = k then u else r) rows) =
    find (\<lambda>r. q_user_id r = x) rows"
  using assms by (induction rows) simp_all

lemma find_upsert_usage:
  "find (\<lambda>r. q_user_id r = x) (upsert_usage u rows) =
   (if x = q_user_id u then Some u else find (\<lambda>r. q_user_id r = x) rows)"
proof (cases "\<exists>r \<in> set rows. q_user_id r = q_user_id u")
  case True
  then show ?thesis
    by (simp add: upsert_usage_def find_map_replace find_map_replace_other)
next
  case False
  then have "find (\<lambda>r. q_user_id r = q_user_id u) rows = None"
    by (simp add: find_None_iff')
  with False show ?thesis
    by (auto simp: upsert_usage_def find_append split: option.split)
qed

lemma usage_row_upsert:
  "usage_row (d\<lparr>storage_usage := upsert_usage u (storage_usage d)\<rparr>) x =
   (if x = q_user_id u then Some u else usage_row d x)"
  by (simp add: usage_row_def find_upsert_usage)

lemma recomputed_usage_simps [simp]:
  "q_user_id (recomputed_usage d uid t) = uid"
  "q_total_bytes (recomputed_usage d uid t) = live_bytes d uid"
  by (simp_all add: recomputed_usage_def live_bytes_def live_bundle_bytes_def live_snapshot_bytes_def)

lemma recomputed_usage_cong:
  "bundles d' = bundles d \<Longrightarrow> snapshots d' = snapshots d \<Longrightarrow> recomputed_usage d' uid t = recomputed_usage d uid t"
  by (simp add: recomputed_usage_def)

lemma recalculate_spec:
  assumes "stmt_recalculate uid t d = Inr (u, d')"
  shows "usage_frame d d'" and "u = recomputed_usage d uid t"
    and "usage_row d' x = (if x = uid then Some u else usage_row d x)"
  using assms by (auto simp: stmt_recalculate_def Let_def usage_row_upsert split: if_splits)

text \<open>Upserting the recomputed rows of several users, one by one.\<close>

lemma usage_row_fold_upsert:
  "usage_row (d\<lparr>storage_usage := fold upsert_usage (map (\<lambda>x. recomputed_usage d0 x t) ids) (storage_usage d)\<rparr>) y =
   (if y \<in> set ids then Some (recomputed_usage d0 y t) else usage_row d y)"
proof (induction ids arbitrary: d)
  case Nil
  then show ?case by simp
next
  case (Cons x ids)
  let ?d1 = "d\<lparr>storage_usage := upsert_usage (recomputed_usage d0 x t) (storage_usage d)\<rparr>"
  have "usage_row (d\<lparr>storage_usage := fold upsert_usage (map (\<lambda>x. recomputed_usage d0 x t) (x # ids)) (storage_usage d)\<rparr>) y
      = usage_row (?d1\<lparr>storage_usage := fold upsert_usage (map (\<lambda>x. recomputed_usage d0 x t) ids) (storage_usage ?d1)\<rparr>) y"
    by simp
  also have "\<dots> = (if y \<in> set ids then Some (recomputed_usage d0 y t) else usage_row ?d1 y)"
    by (rule Cons.IH)
  finally show ?case
    by (simp add: usage_row_upsert)
qed

lemma recalculate_all_row:
  assumes "stmt_recalculate_all t d = Inr (n, d')"
  shows "usage_row d' uid =
    (if uid \<in> u_id ` set (active_users d) then Some (recomputed_usage d uid t) else usage_row d uid)"
proof -
  have "d' = d\<lparr>storage_usage := fold upsert_usage
      (map (\<lambda>x. recomputed_usage d x t) (map u_id (active_users d))) (storage_usage d)\<rparr>"
    using assms by (auto simp: stmt_recalculate_all_def Let_def comp_def split: if_splits)
  then show ?thesis
    using usage_row_fold_upsert [where d = d and ?d0.0 = d and t = t and ids = "map u_id (active_users d)" and y = uid]
    by simp
qed

section \<open>The cache\<close>

text \<open>What a read of \<open>GetUsage\<close> may serve: an entry of the cache is the user's row.\<close>

definition cache_entry_current :: "world \<Rightarrow> uuid \<Rightarrow> bool" where
  "cache_entry_current w uid \<longleftrightarrow> (case redis w of
     None \<Rightarrow> True
   | Some c \<Rightarrow> (case c uid of
       None \<Rightarrow> True
     | Some (u, expires) \<Rightarrow> u = (case usage_row (db w) uid of None \<Rightarrow> empty_usage uid | Some r \<Rightarrow> r)))"

lemma invalidate_current:
  "faults w = [] \<Longrightarrow> cache_entry_current (snd (Quota_invalidateUsageCache uid w)) uid"
  by (auto simp: cache_entry_current_def Quota_invalidateUsageCache_def split: option.split)

lemma getCachedUsage_current:
  assumes "faults w = []" and "cache_entry_current w uid"
    and "Quota_getCachedUsage uid w = (Inr (Some u), w')"
  shows "u = (case usage_row (db w) uid of None \<Rightarrow> empty_usage uid | Some r \<Rightarrow> r)" and "db w' = db w"
  using assms
  by (auto simp: Quota_getCachedUsage_def cache_entry_current_def split: option.splits if_splits)

lemma getCachedUsage_total:
  "\<exists>r w'. Quota_getCachedUsage uid w = (Inr r, w') \<and> db w' = db w \<and> (faults w = [] \<longrightarrow> faults w' = [])"
  by (auto simp: Quota_getCachedUsage_def split: option.splits)

lemma cacheUsage_total: "\<exists>w'. Quota_cacheUsage u w = (Inr (), w') \<and> db w' = db w"
  by (auto simp: Quota_cacheUsage_def split: option.splits)

lemma GetUsage_current:
  assumes nf: "faults w = []" and cur: "cache_entry_current w uid"
  shows "\<exists>w'. Quota_GetUsage uid w =
    (Inr (case usage_row (db w) uid of None \<Rightarrow> empty_usage uid | Some r \<Rightarrow> r), w') \<and> db w' = db w"
proof -
  obtain r w1 where g: "Quota_getCachedUsage uid w = (Inr r, w1)" and d1: "db w1 = db w" and f1: "faults w1 = []"
    using getCachedUsage_total nf by blast
  show ?thesis
  proof (cases r)
    case (Some u)
    with g have "u = (case usage_row (db w) uid of None \<Rightarrow> empty_usage uid | Some r \<Rightarrow> r)"
      using getCachedUsage_current(1) [OF nf cur] by blast
    moreover have "Quota_GetUsage uid w = (Inr u, w1)"
      using Some g by (simp add: Quota_GetUsage_def bindM_def)
    ultimately show ?thesis
      using d1 by blast
  next
    case None
    let ?u = "case usage_row (db w) uid of None \<Rightarrow> empty_usage uid | Some r \<Rightarrow> r"
    obtain w2 where c: "Quota_cacheUsage ?u (drop_fault (tick w1)) = (Inr (), w2)" "db w2 = db w1"
      using cacheUsage_total [of ?u "drop_fault (tick w1)"] by auto
    have q: "queryM (\<lambda>t d. usage_row d uid) w1 = (Inr (usage_row (db w) uid), drop_fault (tick w1))"
      using f1 d1 by (simp add: queryM_def execM_nofault)
    have "Quota_GetUsage uid w = thenM (Quota_cacheUsage ?u) (retM ?u) (drop_fault (tick w1))"
      using None g q by (simp add: Quota_GetUsage_def bindM_def wrapM_def Let_def)
    with c d1 show ?thesis
      by (simp add: thenM_def bindM_def)
  qed
qed

section \<open>Properties\<close>


lemma used_bytes_sample: "used_bytes sample_db uid = 0"
  by (simp add: used_bytes_def usage_row_def sample_db_def empty_db_def)


text \<open>
  C7. Recomputation sets a user's counters to exactly what is live, leaves every other
  user's row alone, and running it again changes nothing but the time stamp.
\<close>

theorem recalculate_exact:
  assumes "Quota_RecalculateUsage uid w = (Inr u, w')"
  shows "q_total_bytes u = live_bytes (db w) uid \<and>
    q_bundle_count u = int (length (filter (live_bundle uid) (bundles (db w)))) \<and>
    q_snap_count u = int (length (filter (live_snapshot uid) (snapshots (db w)))) \<and>
    (\<forall>x. usage_row (db w') x = (if x = uid then Some u else usage_row (db w) x)) \<and>
    (\<forall>u2 w''. Quota_RecalculateUsage uid w' = (Inr u2, w'') \<longrightarrow>
       u2 = u\<lparr>q_updated_at := q_updated_at u2\<rparr>)"
proof -
  have run: "stmt_recalculate uid (now (tick v)) (db v) = Inr (r, db v')"
    if ok: "Quota_RecalculateUsage uid v = (Inr r, v')" for v v' r
  proof -
    obtain v1 u where 1: "execM (stmt_recalculate uid) v = (Inr r, v1)"
      and 2: "Quota_invalidateUsageCache uid v1 = (Inr u, v')"
      using ok by (auto simp: Quota_RecalculateUsage_def run_ok)
    then show ?thesis
      using invalidate_simps(1) [of uid v1] by (auto simp: execM_ok)
  qed
  note spec = recalculate_spec [OF run [OF assms]]
  have again: "u2 = u\<lparr>q_updated_at := q_updated_at u2\<rparr>" if "Quota_RecalculateUsage uid w' = (Inr u2, w'')" for u2 w''
  proof -
    have "u2 = recomputed_usage (db w') uid (now (tick w'))"
      by (rule recalculate_spec(2) [OF run [OF that]])
    then show ?thesis
      using spec(1,2) by (simp add: recomputed_usage_def usage_frame_data)
  qed
  show ?thesis
    using spec again by (simp add: recomputed_usage_def live_bytes_def live_bundle_bytes_def live_snapshot_bytes_def)
qed

definition drifted_world :: world where
  "drifted_world = world_of (sample_db\<lparr>storage_usage := [(empty_usage ''u1'')\<lparr>q_total_bytes := 99\<rparr>]\<rparr>) []"

theorem recalculate_exact_witness:
  "\<exists>u w'. Quota_RecalculateUsage ''u1'' drifted_world = (Inr u, w') \<and> q_total_bytes u = 0"
proof -
  have "succeeds (Quota_RecalculateUsage ''u1'' drifted_world)"
    by code_simp
  then obtain u w' where run: "Quota_RecalculateUsage ''u1'' drifted_world = (Inr u, w')"
    using succeeds_ex by blast
  have "live_bytes (db drifted_world) ''u1'' = 0"
    by code_simp
  with recalculate_exact [OF run] run show ?thesis
    by auto
qed

text \<open>
  C8. The bulk reconciliation writes for every active user the row the single-user
  recomputation would have written at the same instant, leaves the rows of all others
  alone, and reports the number of active users.
\<close>

theorem recalculate_all_is_recalculate_each:
  assumes "Quota_RecalculateAllUsage w = (Inr n, w')"
  shows "n = int (length (active_users (db w))) \<and>
    (\<forall>uid \<in> u_id ` set (active_users (db w)). \<exists>u w''.
       Quota_RecalculateUsage uid w = (Inr u, w'') \<and> usage_row (db w') uid = Some u) \<and>
    (\<forall>uid. uid \<notin> u_id ` set (active_users (db w)) \<longrightarrow> usage_row (db w') uid = usage_row (db w) uid)"
proof -
  let ?t = "now (tick w)"
  have nf: "\<not> fault_next w" and all: "stmt_recalculate_all ?t (db w) = Inr (n, db w')"
    using assms by (auto simp: Quota_RecalculateAllUsage_def execM_ok)
  have each: "\<exists>u w''. Quota_RecalculateUsage uid w = (Inr u, w'') \<and> usage_row (db w') uid = Some u"
    if uid: "uid \<in> u_id ` set (active_users (db w))" for uid
  proof -
    have "usage_in_range (recomputed_usage (db w) uid ?t)"
      using all uid by (auto simp: stmt_recalculate_all_def Let_def split: if_splits)
    moreover have "user_exists (db w) uid"
      using uid by (auto simp: active_users_def user_exists_def)
    ultimately obtain d where "stmt_recalculate uid ?t (db w) = Inr (recomputed_usage (db w) uid ?t, d)"
      by (auto simp: stmt_recalculate_def Let_def)
    then have "\<exists>w''. Quota_RecalculateUsage uid w = (Inr (recomputed_usage (db w) uid ?t), w'')"
      using nf by (auto simp: Quota_RecalculateUsage_def run_ok execM_ok Quota_invalidateUsageCache_def split: option.splits)
    then show ?thesis
      using recalculate_all_row [OF all] uid by auto
  qed
  have "n = int (length (active_users (db w)))"
    using all by (auto simp: stmt_recalculate_all_def Let_def split: if_splits)
  with each recalculate_all_row [OF all] show ?thesis
    by simp
qed

theorem recalculate_all_is_recalculate_each_witness:
  "\<exists>w'. Quota_RecalculateAllUsage drifted_world = (Inr 2, w')"
proof -
  have "succeeds (Quota_RecalculateAllUsage drifted_world)"
    by code_simp
  then obtain n w' where run: "Quota_RecalculateAllUsage drifted_world = (Inr n, w')"
    using succeeds_ex by blast
  have "length (active_users (db drifted_world)) = 2"
    by code_simp
  with recalculate_all_is_recalculate_each [OF run] run show ?thesis
    by simp
qed

end
