(* ===== verification/UserRepo.thy ===== *)
theory UserRepo
  imports Store
begin

text \<open>
  UserRepo, DeviceRepo and DeviceRevocationRepo of pkg/repository/repository.go, one
  definition per method, each the SQL statement it runs against the tables of
  migrations 001, 018 and 020. The unique index on \<open>lower(trim(email))\<close> covers
  soft-deleted users too; every \<open>UPDATE\<close> of a user moves \<open>updated_at\<close> (the trigger of
  migration 001).
\<close>

section \<open>UserRepo\<close>

definition normalizeEmailForStorage :: "string \<Rightarrow> string" where
  "normalizeEmailForStorage email = ToLower (TrimSpace email)"

text \<open>\<open>lower(trim(email))\<close>: SQL's \<open>trim\<close> removes blanks only.\<close>

definition sql_trim :: "string \<Rightarrow> string" where
  "sql_trim s = rev (dropWhile (\<lambda>c. c = CHR 0x20) (rev (dropWhile (\<lambda>c. c = CHR 0x20) s)))"

definition email_key :: "user \<Rightarrow> string" where
  "email_key u = ToLower (sql_trim (u_email u))"

definition live_user :: "user \<Rightarrow> bool" where
  "live_user u \<longleftrightarrow> u_deleted_at u = None"

fun tier_allowed :: "user_tier \<Rightarrow> bool" where
  "tier_allowed (TierOther s) = (s \<in> {''free'', ''pro'', ''team'', ''enterprise''})"
| "tier_allowed _ = True"

fun status_allowed :: "user_status \<Rightarrow> bool" where
  "status_allowed (StatusOther s) = (s \<in> {''active'', ''suspended'', ''deleted''})"
| "status_allowed _ = True"

definition Users_Create :: "user \<Rightarrow> user app" where
  "Users_Create u0 = (let u = u0\<lparr>u_email := normalizeEmailForStorage (u_email u0)\<rparr> in
     execM (\<lambda>t d.
       let (i, d') = gen_random_uuid d;
           row = u\<lparr>u_id := i, u_created_at := t, u_updated_at := t\<rparr> in
       if \<not> tier_allowed (u_tier u) \<or> \<not> status_allowed (u_status u) then Inl check_violation
       else if \<exists>r \<in> set (users d). u_id r = i \<or> email_key r = email_key u then Inl unique_violation
       else Inr (row, d'\<lparr>users := users d @ [row\<lparr>u_deleted_at := None\<rparr>]\<rparr>)))"

definition Users_GetByID :: "uuid \<Rightarrow> user option app" where
  "Users_GetByID i = wrapM ''get user by id'' (queryM (\<lambda>t d.
     find (\<lambda>u. u_id u = i \<and> live_user u) (users d)))"

definition Users_GetAnyByID :: "uuid \<Rightarrow> user option app" where
  "Users_GetAnyByID i = wrapM ''get any user by id'' (queryM (\<lambda>t d.
     find (\<lambda>u. u_id u = i) (users d)))"

definition Users_GetByEmail :: "string \<Rightarrow> user option app" where
  "Users_GetByEmail email = wrapM ''get user by email'' (queryM (\<lambda>t d.
     find (\<lambda>u. email_key u = normalizeEmailForStorage email \<and> live_user u) (users d)))"

text \<open>\<open>UPDATE users SET ... WHERE\<close> with the trigger on \<open>updated_at\<close>.\<close>

definition update_users :: "(user \<Rightarrow> bool) \<Rightarrow> (user \<Rightarrow> user) \<Rightarrow> time \<Rightarrow> db \<Rightarrow> db" where
  "update_users P f t d = d\<lparr>users := update_where P (\<lambda>u. (f u)\<lparr>u_updated_at := t\<rparr>) (users d)\<rparr>"

definition Users_UpdateTier :: "uuid \<Rightarrow> user_tier \<Rightarrow> user_status \<Rightarrow> unit app" where
  "Users_UpdateTier i tier status = execM (\<lambda>t d.
     if (\<not> tier_allowed tier \<or> \<not> status_allowed status) \<and> (\<exists>u \<in> set (users d). u_id u = i \<and> live_user u)
     then Inl check_violation
     else Inr ((), update_users (\<lambda>u. u_id u = i \<and> live_user u)
                     (\<lambda>u. u\<lparr>u_tier := tier, u_status := status\<rparr>) t d))"

definition Users_UpdatePassword :: "uuid \<Rightarrow> string \<Rightarrow> unit app" where
  "Users_UpdatePassword i hash = execM (\<lambda>t d.
     Inr ((), update_users (\<lambda>u. u_id u = i \<and> live_user u) (\<lambda>u. u\<lparr>u_password_hash := hash\<rparr>) t d))"

definition Users_SoftDelete :: "uuid \<Rightarrow> unit app" where
  "Users_SoftDelete i = bindM time_Now (\<lambda>at. execM (\<lambda>t d.
     Inr ((), update_users (\<lambda>u. u_id u = i \<and> live_user u)
                (\<lambda>u. u\<lparr>u_status := StatusDeleted, u_deleted_at := Some at\<rparr>) t d)))"

definition erased_email :: "uuid \<Rightarrow> string" where
  "erased_email i = ''deleted-'' @ i @ ''@erased.local''"

definition anonymize_user :: "user \<Rightarrow> user" where
  "anonymize_user u = u\<lparr>u_email := erased_email (u_id u), u_password_hash := '''', u_display_name := '''',
     u_email_verified := False, u_tier := TierFree, u_status := StatusDeleted\<rparr>"

definition Users_AnonymizeDeletedUser :: "uuid \<Rightarrow> int app" where
  "Users_AnonymizeDeletedUser i = wrapM ''anonymize deleted user'' (execM (\<lambda>t d.
     let hit = (\<lambda>u. u_id u = i \<and> \<not> live_user u) in
     if (\<exists>u \<in> set (users d). hit u) \<and>
        (\<exists>r \<in> set (users d). \<not> hit r \<and> email_key r = ToLower (sql_trim (erased_email i)))
     then Inl unique_violation
     else Inr (int (length (filter hit (users d))), update_users hit anonymize_user t d)))"

definition Users_VerifyEmail :: "uuid \<Rightarrow> unit app" where
  "Users_VerifyEmail i = execM (\<lambda>t d.
     Inr ((), update_users (\<lambda>u. u_id u = i) (\<lambda>u. u\<lparr>u_email_verified := True\<rparr>) t d))"

definition Users_List :: "int \<Rightarrow> int \<Rightarrow> user list app" where
  "Users_List limit0 offset0 =
     (let limit = (if limit0 \<le> 0 \<or> limit0 > 200 then 50 else limit0);
          offset = (if offset0 < 0 then 0 else offset0) in
      wrapM ''list users'' (queryM (\<lambda>t d.
        take (nat limit) (drop (nat offset)
          (sort_key (\<lambda>u. - u_created_at u) (filter live_user (users d)))))))"

definition Users_Count :: "int app" where
  "Users_Count = queryM (\<lambda>t d. int (length (filter live_user (users d))))"

definition Users_CountByStatus :: "(user_status \<times> int) list app" where
  "Users_CountByStatus = wrapM ''count users by status'' (queryM (\<lambda>t d.
     let rows = filter live_user (users d) in
     map (\<lambda>st. (st, int (length (filter (\<lambda>u. u_status u = st) rows)))) (remdups (map u_status rows))))"

text \<open>\<open>(enabled, total)\<close>: \<open>user_id\<close> is the primary key of \<open>user_two_factor\<close>.\<close>

definition Users_TwoFactorEnabledStats :: "(int \<times> int) app" where
  "Users_TwoFactorEnabledStats = wrapM ''count two factor users'' (queryM (\<lambda>t d.
     let rows = filter live_user (users d) in
     (int (length (filter (\<lambda>u. \<exists>tf \<in> set (user_two_factor d). tf_user_id tf = u_id u \<and> tf_enabled tf) rows)),
      int (length rows))))"

definition Users_ListDeletedBefore :: "time \<Rightarrow> user list app" where
  "Users_ListDeletedBefore before = wrapM ''list deleted users'' (queryM (\<lambda>t d.
     take 100 (sort_key (\<lambda>u. case u_deleted_at u of None \<Rightarrow> 0 | Some x \<Rightarrow> x)
       (filter (\<lambda>u. u_status u = StatusDeleted \<and>
                    (case u_deleted_at u of None \<Rightarrow> False | Some x \<Rightarrow> x < before)) (users d)))))"

section \<open>DeviceRepo\<close>

definition Devices_Create :: "device \<Rightarrow> device app" where
  "Devices_Create dev = execM (\<lambda>t d.
     let (i, d') = gen_random_uuid d;
         row = dev\<lparr>d_id := i, d_created_at := t\<rparr> in
     if \<exists>r \<in> set (devices d). d_id r = i \<or> d_user_id r = d_user_id dev \<and> d_device_uuid r = d_device_uuid dev
     then Inl unique_violation
     else if \<not> user_exists d (d_user_id dev) then Inl fk_violation
     else Inr (row, d'\<lparr>devices := devices d @ [row\<lparr>d_last_sync_at := None, d_revoked_at := None\<rparr>]\<rparr>))"

definition Devices_GetByID :: "uuid \<Rightarrow> device option app" where
  "Devices_GetByID i = wrapM ''get device'' (queryM (\<lambda>t d. find (\<lambda>r. d_id r = i) (devices d)))"

definition device_row :: "db \<Rightarrow> uuid \<Rightarrow> uuid \<Rightarrow> device option" where
  "device_row d uid dev = find (\<lambda>r. d_user_id r = uid \<and> d_device_uuid r = dev) (devices d)"

definition Devices_GetByUserAndUUID :: "uuid \<Rightarrow> uuid \<Rightarrow> device option app" where
  "Devices_GetByUserAndUUID uid dev = wrapM ''get device by uuid'' (queryM (\<lambda>t d. device_row d uid dev))"

definition Devices_ListByUser :: "uuid \<Rightarrow> device list app" where
  "Devices_ListByUser uid = wrapM ''list devices'' (queryM (\<lambda>t d.
     sort_key d_created_at (filter (\<lambda>r. d_user_id r = uid) (devices d))))"

definition active_devices :: "db \<Rightarrow> uuid \<Rightarrow> int" where
  "active_devices d uid = int (length (filter (\<lambda>r. d_user_id r = uid \<and> d_revoked_at r = None) (devices d)))"

definition Devices_CountActiveByUser :: "uuid \<Rightarrow> int app" where
  "Devices_CountActiveByUser uid = queryM (\<lambda>t d. active_devices d uid)"

definition Devices_CountActive :: "int app" where
  "Devices_CountActive = queryM (\<lambda>t d. int (length (filter (\<lambda>r. d_revoked_at r = None) (devices d))))"

definition Devices_Revoke :: "uuid \<Rightarrow> uuid \<Rightarrow> unit app" where
  "Devices_Revoke uid dev = bindM time_Now (\<lambda>at. execM (\<lambda>t d.
     Inr ((), d\<lparr>devices := update_where
       (\<lambda>r. d_user_id r = uid \<and> d_device_uuid r = dev \<and> d_revoked_at r = None)
       (\<lambda>r. r\<lparr>d_revoked_at := Some at\<rparr>) (devices d)\<rparr>)))"

definition Devices_RevokeAllByUser :: "uuid \<Rightarrow> unit app" where
  "Devices_RevokeAllByUser uid = bindM time_Now (\<lambda>at. execM (\<lambda>t d.
     Inr ((), d\<lparr>devices := update_where (\<lambda>r. d_user_id r = uid \<and> d_revoked_at r = None)
       (\<lambda>r. r\<lparr>d_revoked_at := Some at\<rparr>) (devices d)\<rparr>)))"

definition Devices_DeleteByUser :: "uuid \<Rightarrow> int app" where
  "Devices_DeleteByUser uid = wrapM ''delete devices by user'' (execM (\<lambda>t d.
     let hit = (\<lambda>r. d_user_id r = uid) in
     Inr (int (length (filter hit (devices d))), d\<lparr>devices := delete_where hit (devices d)\<rparr>)))"

definition Devices_UpdateToken :: "uuid \<Rightarrow> bytes \<Rightarrow> time \<Rightarrow> unit app" where
  "Devices_UpdateToken i hash expiresAt = execM (\<lambda>t d.
     Inr ((), d\<lparr>devices := update_where (\<lambda>r. d_id r = i)
       (\<lambda>r. r\<lparr>d_token_hash := Some hash, d_token_expires_at := Some expiresAt\<rparr>) (devices d)\<rparr>))"

text \<open>The rows \<open>GetByTokenHash\<close> accepts at the instant \<open>t\<close>.\<close>

definition device_token_live :: "time \<Rightarrow> bytes \<Rightarrow> device \<Rightarrow> bool" where
  "device_token_live t hash r \<longleftrightarrow> d_token_hash r = Some hash \<and> d_revoked_at r = None \<and>
     (case d_token_expires_at r of None \<Rightarrow> False | Some e \<Rightarrow> t < e)"

definition Devices_GetByTokenHash :: "bytes \<Rightarrow> device option app" where
  "Devices_GetByTokenHash hash = wrapM ''get device by token hash'' (queryM (\<lambda>t d.
     find (device_token_live t hash) (devices d)))"

definition Devices_UpdateLastSync :: "uuid \<Rightarrow> unit app" where
  "Devices_UpdateLastSync i = bindM time_Now (\<lambda>at. execM (\<lambda>t d.
     Inr ((), d\<lparr>devices := update_where (\<lambda>r. d_id r = i)
       (\<lambda>r. r\<lparr>d_last_sync_at := Some at\<rparr>) (devices d)\<rparr>)))"

section \<open>DeviceRevocationRepo\<close>

definition DeviceRevocations_RecordRevocation :: "uuid \<Rightarrow> uuid \<Rightarrow> uuid \<Rightarrow> unit app" where
  "DeviceRevocations_RecordRevocation uid dev by_user = execM (\<lambda>t d.
     let (i, d') = gen_random_uuid d in
     if \<exists>r \<in> set (device_revocations d). dr_id r = i then Inl unique_violation
     else if \<not> user_exists d uid \<or> \<not> user_exists d by_user then Inl fk_violation
     else Inr ((), d'\<lparr>device_revocations := device_revocations d @
            [\<lparr>dr_id = i, dr_user_id = uid, dr_device_uuid = dev, dr_revoked_at = t, dr_revoked_by = by_user\<rparr>]\<rparr>))"

definition DeviceRevocations_ListByUser :: "uuid \<Rightarrow> device_revocation list app" where
  "DeviceRevocations_ListByUser uid = wrapM ''list revocations'' (queryM (\<lambda>t d.
     take 100 (sort_key (\<lambda>r. - dr_revoked_at r) (filter (\<lambda>r. dr_user_id r = uid) (device_revocations d)))))"

section \<open>The email index\<close>

text \<open>The unique index of migration 018, the primary key, and the form of stored addresses.\<close>

definition users_wf :: "db \<Rightarrow> bool" where
  "users_wf d \<longleftrightarrow> distinct (map u_id (users d)) \<and> distinct (map email_key (users d))"

lemma users_wfD: "users_wf d \<Longrightarrow> distinct (map u_id (users d)) \<and> distinct (map email_key (users d))"
  by (simp add: users_wf_def)

lemma users_wf_cong: "users d' = users d \<Longrightarrow> users_wf d' = users_wf d"
  by (simp add: users_wf_def)

lemma gen_random_uuid_db:
  "gen_random_uuid d = (i, d') \<Longrightarrow> i = uuids d (uuid_ctr d) \<and> d' = d\<lparr>uuid_ctr := Suc (uuid_ctr d)\<rparr>"
  by (auto simp: gen_random_uuid_def)

lemma users_wf_update:
  assumes "users_wf d" and "\<And>u. P u \<Longrightarrow> u_id (f u) = u_id u" and "\<And>u. P u \<Longrightarrow> u_email (f u) = u_email u"
  shows "users_wf (update_users P f t d)"
proof -
  have "map u_id (users (update_users P f t d)) = map u_id (users d)"
    by (simp add: update_users_def map_update_where assms(2))
  moreover have "map email_key (users (update_users P f t d)) = map email_key (users d)"
    by (simp add: update_users_def map_update_where email_key_def assms(3))
  ultimately show ?thesis
    using assms(1) by (simp add: users_wf_def)
qed

lemma Users_Create_wf:
  assumes "users_wf (db w)" and "Users_Create u w = (Inr r, w')"
  shows "users_wf (db w')" and "find (\<lambda>x. u_id x = u_id r) (users (db w)) = None"
    and "users (db w') = users (db w) @ [r\<lparr>u_deleted_at := None\<rparr>]"
    and "u_email r = normalizeEmailForStorage (u_email u)"
  using assms
  by (auto simp: Users_Create_def execM_ok Let_def gen_random_uuid_def users_wf_def email_key_def
      find_None_iff' image_iff split: if_splits)

end
