(* ===== verification/TokenRepo.thy ===== *)
theory TokenRepo
  imports Store
begin

text \<open>
  RefreshTokenRepo, EmailVerificationRepo and PasswordResetRepo of
  pkg/repository/repository.go: tables of token digests with an expiry. The three
  tables share \<open>token_hash UNIQUE\<close> and the foreign key to users.
\<close>

section \<open>RefreshTokenRepo\<close>

definition RefreshTokens_Save :: "uuid \<Rightarrow> bytes \<Rightarrow> string \<Rightarrow> time \<Rightarrow> unit app" where
  "RefreshTokens_Save uid hash info expiresAt = execM (\<lambda>t d.
     let (i, d') = gen_random_uuid d in
     if \<exists>r \<in> set (refresh_tokens d). rt_id r = i \<or> rt_token_hash r = hash then Inl unique_violation
     else if \<not> user_exists d uid then Inl fk_violation
     else Inr ((), d'\<lparr>refresh_tokens := refresh_tokens d @
            [\<lparr>rt_id = i, rt_user_id = uid, rt_token_hash = hash, rt_device_info = info,
              rt_expires_at = expiresAt, rt_revoked_at = None, rt_created_at = t\<rparr>]\<rparr>))"

definition RefreshTokens_Revoke :: "bytes \<Rightarrow> unit app" where
  "RefreshTokens_Revoke hash = bindM time_Now (\<lambda>at. execM (\<lambda>t d.
     Inr ((), d\<lparr>refresh_tokens := update_where (\<lambda>r. rt_token_hash r = hash \<and> rt_revoked_at r = None)
       (\<lambda>r. r\<lparr>rt_revoked_at := Some at\<rparr>) (refresh_tokens d)\<rparr>)))"

definition RefreshTokens_RevokeAllUserTokens :: "uuid \<Rightarrow> unit app" where
  "RefreshTokens_RevokeAllUserTokens uid = bindM time_Now (\<lambda>at. execM (\<lambda>t d.
     Inr ((), d\<lparr>refresh_tokens := update_where (\<lambda>r. rt_user_id r = uid \<and> rt_revoked_at r = None)
       (\<lambda>r. r\<lparr>rt_revoked_at := Some at\<rparr>) (refresh_tokens d)\<rparr>)))"

definition RefreshTokens_DeleteByUser :: "uuid \<Rightarrow> int app" where
  "RefreshTokens_DeleteByUser uid = wrapM ''delete refresh tokens by user'' (execM (\<lambda>t d.
     let hit = (\<lambda>r. rt_user_id r = uid) in
     Inr (int (length (filter hit (refresh_tokens d))),
          d\<lparr>refresh_tokens := delete_where hit (refresh_tokens d)\<rparr>)))"

definition refresh_live :: "time \<Rightarrow> bytes \<Rightarrow> refresh_token \<Rightarrow> bool" where
  "refresh_live t hash r \<longleftrightarrow> rt_token_hash r = hash \<and> rt_revoked_at r = None \<and> t < rt_expires_at r"

definition RefreshTokens_IsTokenValid :: "bytes \<Rightarrow> bool app" where
  "RefreshTokens_IsTokenValid hash = queryM (\<lambda>t d. \<exists>r \<in> set (refresh_tokens d). refresh_live t hash r)"

definition RefreshTokens_GetUserIDByTokenHash :: "bytes \<Rightarrow> uuid option app" where
  "RefreshTokens_GetUserIDByTokenHash hash = wrapM ''get refresh token user'' (queryM (\<lambda>t d.
     map_option rt_user_id (find (refresh_live t hash) (refresh_tokens d))))"

section \<open>EmailVerificationRepo\<close>

definition EmailVerifications_Save :: "uuid \<Rightarrow> bytes \<Rightarrow> time \<Rightarrow> unit app" where
  "EmailVerifications_Save uid hash expiresAt = execM (\<lambda>t d.
     let (i, d') = gen_random_uuid d in
     if \<exists>r \<in> set (email_verifications d). ev_id r = i \<or> ev_token_hash r = hash then Inl unique_violation
     else if \<not> user_exists d uid then Inl fk_violation
     else Inr ((), d'\<lparr>email_verifications := email_verifications d @
            [\<lparr>ev_id = i, ev_user_id = uid, ev_token_hash = hash, ev_expires_at = expiresAt,
              ev_created_at = t\<rparr>]\<rparr>))"

definition EmailVerifications_GetUserIDByToken :: "bytes \<Rightarrow> uuid option app" where
  "EmailVerifications_GetUserIDByToken hash = wrapM ''get email verification token'' (queryM (\<lambda>t d.
     case sort_key (\<lambda>r. - ev_created_at r)
            (filter (\<lambda>r. ev_token_hash r = hash \<and> t < ev_expires_at r) (email_verifications d)) of
       [] \<Rightarrow> None
     | r # _ \<Rightarrow> Some (ev_user_id r)))"

definition EmailVerifications_DeleteByUser :: "uuid \<Rightarrow> unit app" where
  "EmailVerifications_DeleteByUser uid = execM (\<lambda>t d.
     Inr ((), d\<lparr>email_verifications := delete_where (\<lambda>r. ev_user_id r = uid) (email_verifications d)\<rparr>))"

section \<open>PasswordResetRepo\<close>

definition PasswordResets_Save :: "uuid \<Rightarrow> bytes \<Rightarrow> time \<Rightarrow> unit app" where
  "PasswordResets_Save uid hash expiresAt = execM (\<lambda>t d.
     let (i, d') = gen_random_uuid d in
     if \<exists>r \<in> set (password_resets d). pr_id r = i \<or> pr_token_hash r = hash then Inl unique_violation
     else if \<not> user_exists d uid then Inl fk_violation
     else Inr ((), d'\<lparr>password_resets := password_resets d @
            [\<lparr>pr_id = i, pr_user_id = uid, pr_token_hash = hash, pr_expires_at = expiresAt,
              pr_used_at = None, pr_created_at = t\<rparr>]\<rparr>))"

definition reset_live :: "time \<Rightarrow> bytes \<Rightarrow> password_reset \<Rightarrow> bool" where
  "reset_live t hash r \<longleftrightarrow> pr_token_hash r = hash \<and> pr_used_at r = None \<and> t < pr_expires_at r"

definition PasswordResets_GetUserIDByToken :: "bytes \<Rightarrow> uuid option app" where
  "PasswordResets_GetUserIDByToken hash = wrapM ''get password reset token'' (queryM (\<lambda>t d.
     case sort_key (\<lambda>r. - pr_created_at r) (filter (reset_live t hash) (password_resets d)) of
       [] \<Rightarrow> None
     | r # _ \<Rightarrow> Some (pr_user_id r)))"

definition PasswordResets_MarkUsed :: "bytes \<Rightarrow> unit app" where
  "PasswordResets_MarkUsed hash = execM (\<lambda>t d.
     Inr ((), d\<lparr>password_resets := update_where (\<lambda>r. pr_token_hash r = hash \<and> pr_used_at r = None)
       (\<lambda>r. r\<lparr>pr_used_at := Some t\<rparr>) (password_resets d)\<rparr>))"

definition PasswordResets_DeleteByUser :: "uuid \<Rightarrow> unit app" where
  "PasswordResets_DeleteByUser uid = execM (\<lambda>t d.
     Inr ((), d\<lparr>password_resets := delete_where (\<lambda>r. pr_user_id r = uid) (password_resets d)\<rparr>))"

section \<open>Facts\<close>

definition reset_tokens_wf :: "db \<Rightarrow> bool" where
  "reset_tokens_wf d \<longleftrightarrow> distinct (map pr_token_hash (password_resets d))"

lemma head_of_sorted:
  "sort_key f (filter P xs) = r # rs \<Longrightarrow> r \<in> set xs \<and> P r"
proof -
  assume "sort_key f (filter P xs) = r # rs"
  then have "r \<in> set (sort_key f (filter P xs))"
    by simp
  then show ?thesis
    by simp
qed

lemma sorted_filter_Nil: "sort_key f (filter P xs) = [] \<longleftrightarrow> (\<forall>x \<in> set xs. \<not> P x)"
proof -
  have "sort_key f (filter P xs) = [] \<longleftrightarrow> set (sort_key f (filter P xs)) = {}"
    by (simp only: set_empty)
  then show ?thesis
    by auto
qed

text \<open>A refresh token that was revoked is not valid, whatever the clock says.\<close>

lemma revoke_then_invalid:
  assumes "\<forall>r \<in> set rows. rt_token_hash r = hash \<longrightarrow> rt_revoked_at r \<noteq> None"
  shows "find (refresh_live t hash) rows = None"
  using assms by (auto simp: find_None_iff' refresh_live_def)

lemma revoked_all:
  assumes "r \<in> set (update_where (\<lambda>r. rt_user_id r = uid \<and> rt_revoked_at r = None)
        (\<lambda>r. r\<lparr>rt_revoked_at := Some at\<rparr>) rows)" and "rt_user_id r = uid"
  shows "rt_revoked_at r \<noteq> None"
  using assms(1)
proof (rule in_update_whereE)
  fix r'
  assume "r = (if rt_user_id r' = uid \<and> rt_revoked_at r' = None
               then r'\<lparr>rt_revoked_at := Some at\<rparr> else r')"
  with assms(2) show ?thesis
    by (cases "rt_user_id r' = uid \<and> rt_revoked_at r' = None") auto
qed

end
