(* ===== verification/QuotaService.thy ===== *)
theory QuotaService
  imports QuotaRepo UserRepo
begin

text \<open>
  QuotaService of pkg/service/service.go with the threshold logic of
  pkg/service/notification.go: reading the quota, deriving the storage limit from the
  tier, releasing usage with the notification that may follow, recomputation and the
  device limit. A notification handed to \<open>runAsync\<close> is one entry of the log.
\<close>

section \<open>Thresholds\<close>

text \<open>\<open>Some (warning, exhausted)\<close>: the thresholds of a configured notification service.\<close>

type_synonym notifier_config = "(int \<times> int) option"

definition usagePercent :: "int \<Rightarrow> int \<Rightarrow> int" where
  "usagePercent usageBytes limitBytes =
     (if limitBytes \<le> 0 then 0
      else let percent = quot_go (i64 (usageBytes * 100)) limitBytes in
        if percent > 100 then 100 else if percent < 0 then 0 else percent)"

definition quotaIncreaseEvent :: "int \<Rightarrow> int \<Rightarrow> int \<Rightarrow> int \<Rightarrow> int \<Rightarrow> string" where
  "quotaIncreaseEvent beforeBytes afterBytes limitBytes warningThreshold exhaustedThreshold =
     (if limitBytes \<le> 0 then ''''
      else
        let oldPercent = usagePercent beforeBytes limitBytes;
            newPercent = usagePercent afterBytes limitBytes in
        if oldPercent < exhaustedThreshold \<and> newPercent \<ge> exhaustedThreshold then ''exhausted''
        else if oldPercent < warningThreshold \<and> newPercent \<ge> warningThreshold
                \<and> newPercent < exhaustedThreshold then ''warning''
        else '''')"

definition quotaRestored :: "int \<Rightarrow> int \<Rightarrow> int \<Rightarrow> int \<Rightarrow> bool" where
  "quotaRestored beforeBytes afterBytes limitBytes exhaustedThreshold \<longleftrightarrow>
     \<not> limitBytes \<le> 0 \<and> usagePercent beforeBytes limitBytes \<ge> exhaustedThreshold
     \<and> usagePercent afterBytes limitBytes < exhaustedThreshold"

definition MaybeNotifyQuotaIncrease ::
  "notifier_config \<Rightarrow> uuid \<Rightarrow> quota_usage \<Rightarrow> quota_usage \<Rightarrow> int \<Rightarrow> unit app" where
  "MaybeNotifyQuotaIncrease cfg uid before after limitBytes =
     (case cfg of
        None \<Rightarrow> retM ()
      | Some (warning, exhausted) \<Rightarrow>
          if limitBytes \<le> 0 then retM ()
          else
            let e = quotaIncreaseEvent (q_total_bytes before) (q_total_bytes after) limitBytes warning exhausted in
            if e = ''exhausted'' then emit (NotifyQuota ''exhausted'' uid after limitBytes)
            else if e = ''warning'' then emit (NotifyQuota ''warning'' uid after limitBytes)
            else retM ())"

definition MaybeNotifyQuotaRestored ::
  "notifier_config \<Rightarrow> uuid \<Rightarrow> quota_usage \<Rightarrow> quota_usage \<Rightarrow> int \<Rightarrow> unit app" where
  "MaybeNotifyQuotaRestored cfg uid before after limitBytes =
     (case cfg of
        None \<Rightarrow> retM ()
      | Some (warning, exhausted) \<Rightarrow>
          if limitBytes \<le> 0 then retM ()
          else if quotaRestored (q_total_bytes before) (q_total_bytes after) limitBytes exhausted
          then emit (NotifyQuota ''restored'' uid after limitBytes)
          else retM ())"

section \<open>QuotaService\<close>

definition GetQuota :: "uuid \<Rightarrow> user_tier \<Rightarrow> (quota_usage \<times> quota_limits) app" where
  "GetQuota uid tier =
     bindM (wrapM ''get usage'' (Quota_GetUsage uid)) (\<lambda>usage.
     retM (usage, (TierLimits tier)\<lparr>l_user_id := uid\<rparr>))"

definition StorageLimit :: "uuid \<Rightarrow> int app" where
  "StorageLimit uid =
     bindM (wrapM ''get user'' (Users_GetByID uid)) (\<lambda>u.
     case u of
       None \<Rightarrow> errM (Sentinel ErrUserNotFound)
     | Some user \<Rightarrow> retM (l_storage_limit_bytes (TierLimits (u_tier user))))"

definition Service_TryAddBundleUsage :: "uuid \<Rightarrow> int \<Rightarrow> int \<Rightarrow> bool app" where
  "Service_TryAddBundleUsage uid sizeBytes limit = Quota_TryAddBundleUsage uid sizeBytes limit"

definition Service_TryAddSnapshotUsage :: "uuid \<Rightarrow> int \<Rightarrow> int \<Rightarrow> bool app" where
  "Service_TryAddSnapshotUsage uid sizeBytes limit = Quota_TryAddSnapshotUsage uid sizeBytes limit"

definition NotifyBundleUsageAdded :: "notifier_config \<Rightarrow> uuid \<Rightarrow> int \<Rightarrow> int \<Rightarrow> unit app" where
  "NotifyBundleUsageAdded cfg uid sizeBytes limit =
     (if cfg = None \<or> limit \<le> 0 then retM ()
      else bindM (tryM (Quota_GetUsage uid)) (\<lambda>r.
        case r of
          Inl e \<Rightarrow> retM ()
        | Inr after \<Rightarrow>
            let tb = i64 (q_total_bytes after - sizeBytes);
                bc = q_bundle_count after - 1;
                before = after\<lparr>q_total_bytes := (if tb < 0 then 0 else tb),
                               q_bundle_count := (if bc < 0 then 0 else bc)\<rparr> in
            MaybeNotifyQuotaIncrease cfg uid before after limit))"

definition NotifySnapshotUsageAdded :: "notifier_config \<Rightarrow> uuid \<Rightarrow> int \<Rightarrow> int \<Rightarrow> unit app" where
  "NotifySnapshotUsageAdded cfg uid sizeBytes limit =
     (if cfg = None \<or> limit \<le> 0 then retM ()
      else bindM (tryM (Quota_GetUsage uid)) (\<lambda>r.
        case r of
          Inl e \<Rightarrow> retM ()
        | Inr after \<Rightarrow>
            let tb = i64 (q_total_bytes after - sizeBytes);
                sc = q_snap_count after - 1;
                before = after\<lparr>q_total_bytes := (if tb < 0 then 0 else tb),
                               q_snap_count := (if sc < 0 then 0 else sc)\<rparr> in
            MaybeNotifyQuotaIncrease cfg uid before after limit))"

text \<open>Limit and usage are read before the release; their errors only silence the notification.\<close>

definition Service_RemoveBundleUsage :: "notifier_config \<Rightarrow> uuid \<Rightarrow> int \<Rightarrow> unit app" where
  "Service_RemoveBundleUsage cfg uid sizeBytes =
     bindM (tryM (StorageLimit uid)) (\<lambda>limit.
     bindM (tryM (Quota_GetUsage uid)) (\<lambda>before.
     thenM (Quota_RemoveBundleUsage uid sizeBytes)
     (case (limit, before, cfg) of
        (Inr lim, Inr bef, Some thresholds) \<Rightarrow>
          bindM (tryM (Quota_GetUsage uid)) (\<lambda>after.
            case after of
              Inl e \<Rightarrow> retM ()
            | Inr aft \<Rightarrow> MaybeNotifyQuotaRestored (Some thresholds) uid bef aft lim)
      | _ \<Rightarrow> retM ())))"

definition Service_RemoveSnapshotUsage :: "notifier_config \<Rightarrow> uuid \<Rightarrow> int \<Rightarrow> unit app" where
  "Service_RemoveSnapshotUsage cfg uid sizeBytes =
     bindM (tryM (StorageLimit uid)) (\<lambda>limit.
     bindM (tryM (Quota_GetUsage uid)) (\<lambda>before.
     thenM (Quota_RemoveSnapshotUsage uid sizeBytes)
     (case (limit, before, cfg) of
        (Inr lim, Inr bef, Some thresholds) \<Rightarrow>
          bindM (tryM (Quota_GetUsage uid)) (\<lambda>after.
            case after of
              Inl e \<Rightarrow> retM ()
            | Inr aft \<Rightarrow> MaybeNotifyQuotaRestored (Some thresholds) uid bef aft lim)
      | _ \<Rightarrow> retM ())))"

text \<open>\<open>(before, after)\<close>\<close>

definition Service_RecalculateUsage :: "uuid \<Rightarrow> (quota_usage \<times> quota_usage) app" where
  "Service_RecalculateUsage uid =
     bindM (wrapM ''get user'' (Users_GetByID uid)) (\<lambda>u.
     case u of
       None \<Rightarrow> errM (Sentinel ErrUserNotFound)
     | Some user \<Rightarrow>
         bindM (wrapM ''get usage'' (Quota_GetUsage uid)) (\<lambda>before.
         bindM (Quota_RecalculateUsage uid) (\<lambda>after.
         retM (before, after))))"

definition Service_RecalculateAllUsage :: "int app" where
  "Service_RecalculateAllUsage = Quota_RecalculateAllUsage"

definition CheckDeviceLimit :: "uuid \<Rightarrow> user_tier \<Rightarrow> unit app" where
  "CheckDeviceLimit uid tier =
     bindM (wrapM ''count devices'' (Devices_CountActiveByUser uid)) (\<lambda>count.
     if count \<ge> l_max_devices (TierLimits tier) then errM (Wrap ''device limit'' (Sentinel ErrDeviceLimit))
     else retM ())"

section \<open>Properties\<close>

lemma usagePercent_range: "0 \<le> usagePercent u l \<and> usagePercent u l \<le> 100"
  by (simp add: usagePercent_def Let_def)

lemma usagePercent_mono:
  assumes "0 \<le> a" and "a \<le> b" and "b * 100 < 2 ^ 63"
  shows "usagePercent a l \<le> usagePercent b l"
proof (cases "l \<le> 0")
  case False
  have "in_i64 (a * 100)" and "in_i64 (b * 100)"
    using assms by (simp_all add: in_i64_def)
  moreover have "a * 100 div l \<le> b * 100 div l"
    using False assms by (intro zdiv_mono1) simp_all
  ultimately show ?thesis
    using False assms by (simp add: usagePercent_def Let_def quot_go_nonneg)
qed (simp add: usagePercent_def)



text \<open>
  C1. Read-through cache: after a granted reservation of either kind without failing
  calls, the usage that is read back is the row as it now is, whatever the cache held
  for the user before.
\<close>

lemma usage_after_try_add:
  assumes run: "thenM (wrapM a (execM (stmt_ensure_usage uid)))
      (bindM (wrapM b (execM (stmt_try_add c uid n lim)))
        (\<lambda>ok. thenM (if ok then Quota_invalidateUsageCache uid else retM ()) (retM ok))) w = (Inr True, w')"
    and nf: "faults w = []"
  shows "faults w' = [] \<and> cache_entry_current w' uid \<and> usage_row (db w') uid \<noteq> None"
proof -
  obtain u w1 w2 where 1: "execM (stmt_ensure_usage uid) w = (Inr u, w1)"
    and 2: "execM (stmt_try_add c uid n lim) w1 = (Inr True, w2)"
    and 3: "w' = snd (Quota_invalidateUsageCache uid w2)"
    using run by (auto simp: run_ok split: if_splits)
  have f2: "faults w2 = []"
    using 1 2 nf by (auto simp: execM_ok)
  moreover have "usage_row (db w2) uid \<noteq> None"
    using 2 by (auto simp: execM_ok try_add_granted_iff usage_row_def find_update_key)
  moreover have "faults (snd (Quota_invalidateUsageCache uid w2)) = []"
    using f2 by (auto simp: Quota_invalidateUsageCache_def split: option.split)
  ultimately show ?thesis
    using invalidate_current [OF f2, of uid] 3 by simp
qed


text \<open>A user whose cache entry is out of date by 99 bytes.\<close>

definition stale_cache_world :: world where
  "stale_cache_world = sample_world\<lparr>redis := Some [''u1'' \<mapsto> ((empty_usage ''u1'')\<lparr>q_total_bytes := 99\<rparr>, 120)]\<rparr>"


text \<open>The bulk reconciliation leaves the cache: a stale entry is still served after it.\<close>

lemma recalculate_all_serves_stale_entry:
  "(case Quota_GetUsage ''u1'' (snd (Quota_RecalculateAllUsage stale_cache_world)) of
      (Inr u, w) \<Rightarrow> q_total_bytes u = 99 \<and> used_bytes (db w) ''u1'' = 0
    | _ \<Rightarrow> False)"
  by code_simp

end
