(* ===== verification/BlobStore.thy ===== *)
theory BlobStore
  imports Store
begin

text \<open>
  pkg/storage: the keys of encrypted artifacts (blob.go) and the object store behind
  the interface BlobStorage (blob.go, s3.go). The bucket is the map \<open>blobs\<close>; a request
  either fails before it has an effect or does what the interface promises.
\<close>

section \<open>Keys\<close>

definition BundleKey :: "uuid \<Rightarrow> string \<Rightarrow> string" where
  "BundleKey userID bundleID = ''bundles/'' @ userID @ ''/'' @ bundleID @ ''.hsb''"

definition SnapshotKey :: "uuid \<Rightarrow> string \<Rightarrow> string" where
  "SnapshotKey userID snapshotID = ''snapshots/'' @ userID @ ''/'' @ snapshotID @ ''.hsb''"

definition UserPrefix :: "uuid \<Rightarrow> string" where
  "UserPrefix userID = ''bundles/'' @ userID @ ''/''"

text \<open>A segment of a key: the text of a UUID has no slash.\<close>

definition segment :: "string \<Rightarrow> bool" where
  "segment s \<longleftrightarrow> CHR 0x2F \<notin> set s"

lemma append_sep_inj:
  "c \<notin> set a \<Longrightarrow> c \<notin> set b \<Longrightarrow> a @ c # x = b @ c # y \<longleftrightarrow> a = b \<and> x = y"
proof (induction a arbitrary: b)
  case Nil
  then show ?case by (cases b) auto
next
  case (Cons z a)
  then show ?case by (cases b) auto
qed

lemma BundleKey_inj:
  assumes "segment u" and "segment v"
  shows "BundleKey u i = BundleKey v j \<longleftrightarrow> u = v \<and> i = j"
  using assms append_sep_inj [of "CHR 0x2F" u v] by (auto simp: BundleKey_def segment_def)

lemma SnapshotKey_inj:
  assumes "segment u" and "segment v"
  shows "SnapshotKey u i = SnapshotKey v j \<longleftrightarrow> u = v \<and> i = j"
  using assms append_sep_inj [of "CHR 0x2F" u v] by (auto simp: SnapshotKey_def segment_def)

lemma keys_disjoint [simp]: "BundleKey u i \<noteq> SnapshotKey v j" "SnapshotKey v j \<noteq> BundleKey u i"
  by (simp_all add: BundleKey_def SnapshotKey_def)

text \<open>The keys under which a user's artifacts lie.\<close>

definition key_of_user :: "uuid \<Rightarrow> string \<Rightarrow> bool" where
  "key_of_user uid k \<longleftrightarrow> (\<exists>i. k = BundleKey uid i \<or> k = SnapshotKey uid i)"

lemma key_of_user_own [simp]: "key_of_user uid (BundleKey uid i)" "key_of_user uid (SnapshotKey uid i)"
  by (auto simp: key_of_user_def)

lemma key_of_user_other:
  assumes "segment u" and "segment v" and "u \<noteq> v" and "key_of_user u k"
  shows "\<not> key_of_user v k"
  using assms by (auto simp: key_of_user_def BundleKey_inj SnapshotKey_inj)

section \<open>Requests\<close>

definition blob_failed :: "string \<Rightarrow> goerr" where
  "blob_failed op = Wrap op (DriverErr ''object store'')"

definition Blob_Put :: "string \<Rightarrow> bytes \<Rightarrow> unit app" where
  "Blob_Put key reader = (\<lambda>w.
     if fault_next w then (Inl (blob_failed ''s3 put''), drop_fault w)
     else (Inr (), (drop_fault w)\<lparr>blobs := (blobs w)(key \<mapsto> reader)\<rparr>))"

definition Blob_Get :: "string \<Rightarrow> bytes app" where
  "Blob_Get key = (\<lambda>w.
     if fault_next w then (Inl (blob_failed ''s3 get''), drop_fault w)
     else (case blobs w key of
             None \<Rightarrow> (Inl (blob_failed ''s3 get''), drop_fault w)
           | Some data \<Rightarrow> (Inr data, drop_fault w)))"

definition Blob_Delete :: "string \<Rightarrow> unit app" where
  "Blob_Delete key = (\<lambda>w.
     if fault_next w then (Inl (blob_failed ''s3 delete''), drop_fault w)
     else (Inr (), (drop_fault w)\<lparr>blobs := (blobs w)(key := None)\<rparr>))"

definition Blob_Exists :: "string \<Rightarrow> bool app" where
  "Blob_Exists key = (\<lambda>w.
     if fault_next w then (Inl (blob_failed ''s3 stat''), drop_fault w)
     else (Inr (blobs w key \<noteq> None), drop_fault w))"

definition Blob_Size :: "string \<Rightarrow> (int \<times> bool) app" where
  "Blob_Size key = (\<lambda>w.
     if fault_next w then (Inl (blob_failed ''s3 stat''), drop_fault w)
     else (Inr (case blobs w key of None \<Rightarrow> (0, False) | Some data \<Rightarrow> (int (length data), True)), drop_fault w))"

lemma wp_put [wp]:
  "wpM (Blob_Put k x) Q E w =
     (if fault_next w then E (blob_failed ''s3 put'') (drop_fault w)
      else Q () ((drop_fault w)\<lparr>blobs := (blobs w)(k \<mapsto> x)\<rparr>))"
  by (simp add: wpM_def Blob_Put_def)

lemma wp_del [wp]:
  "wpM (Blob_Delete k) Q E w =
     (if fault_next w then E (blob_failed ''s3 delete'') (drop_fault w)
      else Q () ((drop_fault w)\<lparr>blobs := (blobs w)(k := None)\<rparr>))"
  by (simp add: wpM_def Blob_Delete_def)

lemma keeps_put:
  assumes "\<And>w. I w \<Longrightarrow> I (drop_fault w)"
    and "\<And>w. I w \<Longrightarrow> I (w\<lparr>blobs := (blobs w)(k \<mapsto> x)\<rparr>)"
  shows "keepsM I (Blob_Put k x)"
  using assms(1) assms(2) [of "drop_fault w" for w] by (simp add: keepsM_def Blob_Put_def)

lemma keeps_del:
  assumes "\<And>w. I w \<Longrightarrow> I (drop_fault w)"
    and "\<And>w. I w \<Longrightarrow> I (w\<lparr>blobs := (blobs w)(k := None)\<rparr>)"
  shows "keepsM I (Blob_Delete k)"
  using assms(1) assms(2) [of "drop_fault w" for w] by (simp add: keepsM_def Blob_Delete_def)

lemma keeps_put_db [keeps]: "keepsM (\<lambda>w. J (db w)) (Blob_Put k x)"
  by (rule keeps_put) simp_all

lemma keeps_del_db [keeps]: "keepsM (\<lambda>w. J (db w)) (Blob_Delete k)"
  by (rule keeps_del) simp_all

lemma keeps_get_db_blobs [keeps]: "keepsM (\<lambda>w. J (db w) (blobs w)) (Blob_Get k)"
  by (rule keepsM_I) (auto simp: Blob_Get_def split: option.split)

lemma keeps_get_db [keeps]: "keepsM (\<lambda>w. J (db w)) (Blob_Get k)"
  by (rule keepsM_I) (auto simp: Blob_Get_def split: option.split)

end
