(* ===== verification/Reservation.thy ===== *)
theory Reservation
  imports Store
begin

text \<open>
  The storage reservation of pkg/service/service.go: the hook an Enterprise build
  plugs in (a parameter here), and the guard that settles or releases one reservation
  in the course of an upload.
\<close>

section \<open>The hook\<close>

text \<open>
  UsageReservationHook is implemented outside this repository. Its answers are functions
  of everything that was sent out before; every call is an entry of the log.
\<close>

record hook =
  h_reserve :: "effect list \<Rightarrow> uuid \<Rightarrow> int \<Rightarrow> reservation_request \<Rightarrow> goerr + string"
  h_settle :: "effect list \<Rightarrow> string \<Rightarrow> int \<Rightarrow> goerr + unit"

definition ReserveStorage :: "hook \<Rightarrow> uuid \<Rightarrow> int \<Rightarrow> reservation_request \<Rightarrow> string app" where
  "ReserveStorage h uid bytes req = (\<lambda>w.
     (h_reserve h (log w) uid bytes req, w\<lparr>log := log w @ [HookReserve uid bytes req]\<rparr>))"

definition SettleStorage :: "hook \<Rightarrow> string \<Rightarrow> int \<Rightarrow> unit app" where
  "SettleStorage h i bytes = (\<lambda>w.
     (h_settle h (log w) i bytes, w\<lparr>log := log w @ [HookSettle i bytes]\<rparr>))"

definition ReleaseStorage :: "hook \<Rightarrow> string \<Rightarrow> unit app" where
  "ReleaseStorage h i = emit (HookRelease i)"

lemma wp_ReserveStorage [wp]:
  "wpM (ReserveStorage h uid n req) Q E w =
     (case h_reserve h (log w) uid n req of
        Inl e \<Rightarrow> E e (w\<lparr>log := log w @ [HookReserve uid n req]\<rparr>)
      | Inr i \<Rightarrow> Q i (w\<lparr>log := log w @ [HookReserve uid n req]\<rparr>))"
  by (simp add: wpM_def ReserveStorage_def)

lemma wp_SettleStorage [wp]:
  "wpM (SettleStorage h i n) Q E w =
     (case h_settle h (log w) i n of
        Inl e \<Rightarrow> E e (w\<lparr>log := log w @ [HookSettle i n]\<rparr>)
      | Inr u \<Rightarrow> Q u (w\<lparr>log := log w @ [HookSettle i n]\<rparr>))"
  by (simp add: wpM_def SettleStorage_def)

section \<open>The guard\<close>

record reservation_guard =
  g_hook :: "hook option"
  g_id :: string
  g_category :: string

text \<open>The locals of an upload: the guard's \<open>settled\<close> flag and \<open>uploadResult\<close>.\<close>

record upload_vars =
  uv_settled :: bool
  uv_result :: string

definition reservationCategory :: "reservation_request \<Rightarrow> string" where
  "reservationCategory req =
     (if rr_reason req = ''bundle_upload'' then ''bundle''
      else if rr_reason req = ''snapshot_upload'' then ''snapshot''
      else ''storage'')"

definition reserve :: "hook option \<Rightarrow> uuid \<Rightarrow> int \<Rightarrow> reservation_request \<Rightarrow> reservation_guard app" where
  "reserve hk uid bytes req =
     (case hk of
        None \<Rightarrow> retM \<lparr>g_hook = None, g_id = '''', g_category = ''''\<rparr>
      | Some h \<Rightarrow>
          bindM (tryM (ReserveStorage h uid bytes req)) (\<lambda>r.
          case r of
            Inl e \<Rightarrow>
              thenM (emit (RecordQuotaReservation (reservationCategory req)
                      (if errIs e ErrReservationDenied then ''rejected'' else ''failure'')))
                    (errM e)
          | Inr i \<Rightarrow>
              thenM (if i \<noteq> '''' then emit (RecordQuotaReservation (reservationCategory req) ''success'') else retM ())
                    (retM \<lparr>g_hook = Some h, g_id = i, g_category = reservationCategory req\<rparr>)))"

definition guard_active :: "reservation_guard \<Rightarrow> bool" where
  "guard_active g \<longleftrightarrow> g_hook g \<noteq> None \<and> g_id g \<noteq> ''''"

definition settle :: "reservation_guard \<Rightarrow> int \<Rightarrow> (world \<times> upload_vars, unit) gom" where
  "settle g bytes =
     (case g_hook g of
        None \<Rightarrow> retM ()
      | Some h \<Rightarrow>
          if g_id g = '''' then retM ()
          else bindM (tryM (liftM (SettleStorage h (g_id g) bytes))) (\<lambda>r.
            case r of
              Inl e \<Rightarrow> thenM (liftM (emit (RecordQuotaReservation (g_category g) ''rollback''))) (errM e)
            | Inr u \<Rightarrow> assignM (\<lambda>v. v\<lparr>uv_settled := True\<rparr>)))"

definition release :: "reservation_guard \<Rightarrow> (world \<times> upload_vars, unit) gom" where
  "release g = readLocals (\<lambda>v.
     case g_hook g of
       None \<Rightarrow> retM ()
     | Some h \<Rightarrow>
         if g_id g = '''' \<or> uv_settled v then retM ()
         else thenM (liftM (ReleaseStorage h (g_id g)))
                    (liftM (emit (RecordQuotaReservation (g_category g) ''release''))))"

text \<open>\<open>defer func() { observability.RecordUpload(kind, uploadResult) }()\<close>\<close>

definition record_upload :: "string \<Rightarrow> (world \<times> upload_vars, unit) gom" where
  "record_upload kind = readLocals (\<lambda>v. liftM (emit (RecordUpload kind (uv_result v))))"

section \<open>What they leave alone\<close>

lemma keeps_reserve_gen:
  assumes "\<And>w l. I w \<Longrightarrow> I (w\<lparr>log := l\<rparr>)"
  shows "keepsM I (reserve hk uid n req)"
proof -
  have e: "keepsM I (emit x)" for x
    using assms by (simp add: keepsM_def emit_def)
  moreover have "keepsM I (ReserveStorage h uid n req)" for h
    using assms by (simp add: keepsM_def ReserveStorage_def)
  ultimately show ?thesis
    unfolding reserve_def by (intro keeps) auto
qed

lemma keeps_settle_gen:
  assumes "\<And>w l. I w \<Longrightarrow> I (w\<lparr>log := l\<rparr>)"
  shows "keepsM (\<lambda>p. I (fst p)) (settle g n)"
proof -
  have "keepsM I (emit x)" and "keepsM I (SettleStorage h i n)" for x h i
    using assms by (simp_all add: keepsM_def emit_def SettleStorage_def)
  then show ?thesis
    unfolding settle_def by (intro keeps) auto
qed

lemma keeps_release_gen:
  assumes "\<And>w l. I w \<Longrightarrow> I (w\<lparr>log := l\<rparr>)"
  shows "keepsM (\<lambda>p. I (fst p)) (release g)"
proof -
  have "keepsM I (emit x)" for x
    using assms by (simp add: keepsM_def emit_def)
  then show ?thesis
    unfolding release_def ReleaseStorage_def by (intro keeps) auto
qed

lemma keeps_record_gen:
  assumes "\<And>w l. I w \<Longrightarrow> I (w\<lparr>log := l\<rparr>)"
  shows "keepsM (\<lambda>p. I (fst p)) (record_upload kind)"
proof -
  have "keepsM I (emit x)" for x
    using assms by (simp add: keepsM_def emit_def)
  then show ?thesis
    unfolding record_upload_def by (intro keeps) auto
qed

end
