(* ===== verification/Accounting.thy ===== *)
theory Accounting
  imports QuotaService BlobStore Reservation
begin

text \<open>
  The accounting invariant between the artifact tables and the usage counters: what a
  user has live is covered by what is counted, up to an amount that is reserved and not
  yet written. Each call of an upload or a delete gets a contract over it; the calls of
  a usage counter get theirs once, in the locale \<open>usage_counter\<close>.
\<close>

section \<open>Coverage with slack\<close>

definition slack :: "(db \<Rightarrow> uuid \<Rightarrow> int) \<Rightarrow> db \<Rightarrow> uuid \<Rightarrow> int \<Rightarrow> bool" where
  "slack used d uid n \<longleftrightarrow>
     artifacts_wf d \<and> (\<forall>x. live_bytes d x + (if x = uid then n else 0) \<le> used d x)"

definition covers :: "db \<Rightarrow> bool" where
  "covers d \<longleftrightarrow> artifacts_wf d \<and> (\<forall>x. live_bytes d x \<le> used_bytes d x)"

lemma covers_slack: "covers d = slack used_bytes d uid 0"
  by (simp add: covers_def slack_def)

lemma slackD: "slack used d uid n \<Longrightarrow> live_bytes d x + (if x = uid then n else 0) \<le> used d x"
  by (simp add: slack_def)

lemma slack_mono:
  assumes "slack used d uid n" and "m \<le> n"
  shows "slack used d uid m"
  unfolding slack_def
proof (intro conjI allI)
  show "artifacts_wf d"
    using assms(1) by (simp add: slack_def)
  fix x
  have "live_bytes d x + (if x = uid then n else 0) \<le> used d x"
    using assms(1) by (simp add: slack_def)
  with assms(2) show "live_bytes d x + (if x = uid then m else 0) \<le> used d x"
    by (auto split: if_splits)
qed

lemma slack_covers: "slack used_bytes d uid n \<Longrightarrow> 0 \<le> n \<Longrightarrow> covers d"
  using slack_mono covers_slack by blast

lemma artifacts_wf_frame: "usage_frame d d' \<Longrightarrow> artifacts_wf d' = artifacts_wf d"
  by (simp add: artifacts_wf_def usage_frame_data)

lemma live_bytes_frame: "usage_frame d d' \<Longrightarrow> live_bytes d' x = live_bytes d x"
  by (simp add: live_bytes_def live_bundle_bytes_def live_snapshot_bytes_def usage_frame_data)

lemma live_bytes_other [simp]:
  "live_bytes (d\<lparr>storage_usage := su\<rparr>) x = live_bytes d x"
  by (simp add: live_bytes_def live_bundle_bytes_def live_snapshot_bytes_def)

context usage_counter begin

lemma try_add_slack:
  "hoareM (\<lambda>w. slack used (db w) uid m) (try_add uid n lim)
     (\<lambda>ok w. slack used (db w) uid (m + (if ok then n else 0)))
     (\<lambda>e w. slack used (db w) uid m)"
proof (rule hoareI)
  fix w :: world
  assume pre: "slack used (db w) uid m"
  show "wpM (try_add uid n lim)
     (\<lambda>ok w. slack used (db w) uid (m + (if ok then n else 0)))
     (\<lambda>e w. slack used (db w) uid m) w"
  proof (rule wpM_mono [OF try_add_wp], goal_cases)
    case (1 ok t)
    then have fr: "usage_frame (db w) (db t)"
      by (simp add: usage_call_def)
    have "live_bytes (db t) x + (if x = uid then m + (if ok then n else 0) else 0) \<le> used (db t) x" for x
      using 1 slackD [OF pre, of x] by (auto simp: live_bytes_frame [OF fr])
    with pre show ?case
      by (simp add: slack_def artifacts_wf_frame [OF fr])
  next
    case (2 e t)
    then have fr: "usage_frame (db w) (db t)"
      by (simp add: usage_call_def)
    with 2 pre show ?case
      by (simp add: slack_def artifacts_wf_frame [OF fr] live_bytes_frame [OF fr])
  qed
qed

lemma remove_slack:
  assumes "0 \<le> n"
  shows "hoareM (\<lambda>w. slack used (db w) uid (m + n)) (remove uid n)
     (\<lambda>_ w. slack used (db w) uid m) (\<lambda>_ w. slack used (db w) uid m)"
proof (rule hoareI)
  fix w :: world
  assume pre: "slack used (db w) uid (m + n)"
  show "wpM (remove uid n) (\<lambda>_ w. slack used (db w) uid m) (\<lambda>_ w. slack used (db w) uid m) w"
  proof (rule wpM_mono [OF remove_wp], goal_cases)
    case (1 u t)
    then have fr: "usage_frame (db w) (db t)"
      by (simp add: usage_call_def)
    have "live_bytes (db t) x + (if x = uid then m else 0) \<le> used (db t) x" for x
    proof -
      have "used (db w) x - (if x = uid then n else 0) \<le> used (db t) x"
        using 1 assms by simp
      moreover have "live_bytes (db w) x + (if x = uid then m + n else 0) \<le> used (db w) x"
        using pre by (simp add: slack_def)
      ultimately show ?thesis
        by (auto simp: live_bytes_frame [OF fr] split: if_splits)
    qed
    with pre show ?case
      by (simp add: slack_def artifacts_wf_frame [OF fr])
  next
    case (2 e t)
    then have fr: "usage_frame (db w) (db t)" and "\<forall>x. used (db t) x = used (db w) x"
      by (simp_all add: usage_call_def)
    with slack_mono [OF pre, of m] assms show ?case
      by (simp add: slack_def artifacts_wf_frame [OF fr] live_bytes_frame [OF fr])
  qed
qed

lemma try_add_frame: "keepsM (\<lambda>w. J (bundles (db w)) (snapshots (db w)) (blobs w)) (try_add uid n lim)"
proof (rule keepsM_I)
  fix w :: world
  assume J: "J (bundles (db w)) (snapshots (db w)) (blobs w)"
  have "usage_call w (snd (try_add uid n lim w))"
    using try_add_wp [of uid n lim w] by (auto simp: wpM_def split: prod.splits sum.splits)
  then have "bundles (db (snd (try_add uid n lim w))) = bundles (db w)"
    and "snapshots (db (snd (try_add uid n lim w))) = snapshots (db w)"
    and "blobs (snd (try_add uid n lim w)) = blobs w"
    by (simp_all add: usage_call_def usage_frame_data)
  with J show "J (bundles (db (snd (try_add uid n lim w)))) (snapshots (db (snd (try_add uid n lim w))))
      (blobs (snd (try_add uid n lim w)))"
    by simp
qed

lemma remove_frame: "keepsM (\<lambda>w. J (bundles (db w)) (snapshots (db w)) (blobs w)) (remove uid n)"
proof (rule keepsM_I)
  fix w :: world
  assume J: "J (bundles (db w)) (snapshots (db w)) (blobs w)"
  have "usage_call w (snd (remove uid n w))"
    using remove_wp [of uid n w] by (auto simp: wpM_def split: prod.splits sum.splits)
  then have "bundles (db (snd (remove uid n w))) = bundles (db w)"
    and "snapshots (db (snd (remove uid n w))) = snapshots (db w)"
    and "blobs (snd (remove uid n w)) = blobs w"
    by (simp_all add: usage_call_def usage_frame_data)
  with J show "J (bundles (db (snd (remove uid n w)))) (snapshots (db (snd (remove uid n w))))
      (blobs (snd (remove uid n w)))"
    by simp
qed

end

section \<open>The calls that read\<close>

lemma keeps_getCached [keeps]: "keepsM (\<lambda>w. J (db w) (blobs w)) (Quota_getCachedUsage uid)"
  by (rule keepsM_I) (auto simp: Quota_getCachedUsage_def split: option.split)

lemma keeps_cacheUsage [keeps]: "keepsM (\<lambda>w. J (db w) (blobs w)) (Quota_cacheUsage u)"
  by (rule keepsM_I) (auto simp: Quota_cacheUsage_def split: option.split)

lemma keeps_invalidate [keeps]: "keepsM (\<lambda>w. J (db w) (blobs w)) (Quota_invalidateUsageCache uid)"
  by (rule keepsM_I) simp

lemma keeps_GetUsage [keeps]: "keepsM (\<lambda>w. J (db w) (blobs w)) (Quota_GetUsage uid)"
  unfolding Quota_GetUsage_def Let_def by (intro keeps)

lemma keeps_Users_GetByID [keeps]: "keepsM (\<lambda>w. J (db w) (blobs w)) (Users_GetByID uid)"
  unfolding Users_GetByID_def by (intro keeps)

lemma keeps_StorageLimit [keeps]: "keepsM (\<lambda>w. J (db w) (blobs w)) (StorageLimit uid)"
  unfolding StorageLimit_def by (intro keeps)

lemma keeps_reserve [keeps]: "keepsM (\<lambda>w. J (db w) (blobs w)) (reserve hk uid n req)"
  by (rule keeps_reserve_gen) simp

lemma keeps_settle [keeps]: "keepsM (\<lambda>p. J (db (fst p)) (blobs (fst p))) (settle g n)"
  by (rule keeps_settle_gen) simp

lemma keeps_release [keeps]: "keepsM (\<lambda>p. J (db (fst p)) (blobs (fst p))) (release g)"
  by (rule keeps_release_gen) simp

lemma keeps_record_upload [keeps]: "keepsM (\<lambda>p. J (db (fst p)) (blobs (fst p))) (record_upload k)"
  by (rule keeps_record_gen) simp

lemma keeps_MaybeIncrease [keeps]: "keepsM (\<lambda>w. J (db w) (blobs w)) (MaybeNotifyQuotaIncrease cfg uid a b l)"
  unfolding MaybeNotifyQuotaIncrease_def Let_def by (intro keeps)

lemma keeps_MaybeRestored [keeps]: "keepsM (\<lambda>w. J (db w) (blobs w)) (MaybeNotifyQuotaRestored cfg uid a b l)"
  unfolding MaybeNotifyQuotaRestored_def Let_def by (intro keeps)

lemma keeps_NotifyBundle [keeps]: "keepsM (\<lambda>w. J (db w) (blobs w)) (NotifyBundleUsageAdded cfg uid n l)"
  unfolding NotifyBundleUsageAdded_def Let_def by (intro keeps)

lemma keeps_NotifySnapshot [keeps]: "keepsM (\<lambda>w. J (db w) (blobs w)) (NotifySnapshotUsageAdded cfg uid n l)"
  unfolding NotifySnapshotUsageAdded_def Let_def by (intro keeps)

lemma keeps_GetDevice [keeps]: "keepsM (\<lambda>w. J (db w) (blobs w)) (Devices_GetByUserAndUUID uid dev)"
  unfolding Devices_GetByUserAndUUID_def by (intro keeps)

lemma keeps_bundle_exists [keeps]: "keepsM (\<lambda>w. J (db w) (blobs w)) (Bundles_ExistsByID bid)"
  unfolding Bundles_ExistsByID_def by (intro keeps)

lemma keeps_snap_count [keeps]: "keepsM (\<lambda>w. J (db w) (blobs w)) (Snapshots_CountByUser uid)"
  unfolding Snapshots_CountByUser_def by (intro keeps)

section \<open>The calls that write artifact rows\<close>

lemma live_bytes_append_bundle:
  "live_bytes (d\<lparr>bundles := bundles d @ [b]\<rparr>) x =
   live_bytes d x + (if live_bundle x b then b_size_bytes b else 0)"
  by (simp add: live_bytes_def live_bundle_bytes_def live_snapshot_bytes_def)

lemma live_bytes_append_snapshot:
  "live_bytes (d\<lparr>snapshots := snapshots d @ [s]\<rparr>) x =
   live_bytes d x + (if live_snapshot x s then s_size_bytes s else 0)"
  by (simp add: live_bytes_def live_bundle_bytes_def live_snapshot_bytes_def)

lemma used_bytes_artifacts [simp]:
  "used_bytes (d\<lparr>bundles := bs\<rparr>) x = used_bytes d x"
  "used_bytes (d\<lparr>snapshots := ss\<rparr>) x = used_bytes d x"
  by (simp_all add: used_bytes_def usage_row_def)

definition bundle_of :: "uuid \<Rightarrow> string \<Rightarrow> int \<Rightarrow> db \<Rightarrow> bool" where
  "bundle_of uid bid n d \<longleftrightarrow>
     (\<exists>r \<in> set (bundles d). bundle_key r = (uid, bid) \<and> b_deleted_at r = None \<and> b_size_bytes r = n)"

definition snapshot_of :: "uuid \<Rightarrow> string \<Rightarrow> int \<Rightarrow> db \<Rightarrow> bool" where
  "snapshot_of uid sid n d \<longleftrightarrow>
     (\<exists>r \<in> set (snapshots d). snapshot_key r = (uid, sid) \<and> s_deleted_at r = None \<and> s_size_bytes r = n)"

lemma Bundles_Create_slack:
  assumes "b_user_id b = uid" and "b_size_bytes b = n" and "0 \<le> n" and "b_bundle_id b = bid"
  shows "hoareM (\<lambda>w. slack used_bytes (db w) uid (m + n)) (Bundles_Create b)
    (\<lambda>_ w. slack used_bytes (db w) uid m \<and> bundle_of uid bid n (db w))
    (\<lambda>_ w. slack used_bytes (db w) uid (m + n))"
  using assms
  by (auto simp: hoareM_def Bundles_Create_def wp Let_def slack_def artifacts_wf_def bundle_of_def
      live_bytes_append_bundle live_bundle_def bundle_key_def image_iff algebra_simps split: if_splits)

lemma Snapshots_Create_slack:
  assumes "s_user_id b = uid" and "s_size_bytes b = n" and "0 \<le> n" and "s_snapshot_id b = sid"
  shows "hoareM (\<lambda>w. slack used_bytes (db w) uid (m + n)) (Snapshots_Create b)
    (\<lambda>_ w. slack used_bytes (db w) uid m \<and> snapshot_of uid sid n (db w))
    (\<lambda>_ w. slack used_bytes (db w) uid (m + n))"
  using assms
  by (auto simp: hoareM_def Snapshots_Create_def wp Let_def slack_def artifacts_wf_def snapshot_of_def
      live_bytes_append_snapshot live_snapshot_def snapshot_key_def image_iff algebra_simps split: if_splits)

text \<open>Removing or soft-deleting the row with a given key.\<close>

definition without_bundle :: "uuid \<Rightarrow> string \<Rightarrow> db \<Rightarrow> db" where
  "without_bundle uid bid d =
     d\<lparr>bundles := delete_where (\<lambda>r. b_user_id r = uid \<and> b_bundle_id r = bid) (bundles d)\<rparr>"

definition without_snapshot :: "uuid \<Rightarrow> string \<Rightarrow> db \<Rightarrow> db" where
  "without_snapshot uid sid d =
     d\<lparr>snapshots := delete_where (\<lambda>r. s_user_id r = uid \<and> s_snapshot_id r = sid) (snapshots d)\<rparr>"

lemma without_bundle_wf: "artifacts_wf d \<Longrightarrow> artifacts_wf (without_bundle uid bid d)"
  by (auto simp: artifacts_wf_def without_bundle_def distinct_map_delete_where)

lemma without_snapshot_wf: "artifacts_wf d \<Longrightarrow> artifacts_wf (without_snapshot uid sid d)"
  by (auto simp: artifacts_wf_def without_snapshot_def distinct_map_delete_where)

lemma without_bundle_live:
  assumes "artifacts_wf d" and "bundle_of uid bid n d"
  shows "live_bytes (without_bundle uid bid d) x = live_bytes d x - (if x = uid then n else 0)"
proof -
  obtain r where r: "r \<in> set (bundles d)" "bundle_key r = (uid, bid)" "b_deleted_at r = None" "b_size_bytes r = n"
    using assms(2) by (auto simp: bundle_of_def)
  let ?H = "\<lambda>r. b_user_id r = uid \<and> b_bundle_id r = bid"
  have "sum_by b_size_bytes (filter (live_bundle x) (delete_where ?H (bundles d))) =
      sum_by b_size_bytes (filter (live_bundle x) (bundles d)) - (if x = uid then n else 0)"
  proof (cases "x = uid")
    case True
    have "sum_by b_size_bytes (filter (live_bundle uid) (delete_where ?H (bundles d))) =
        sum_by b_size_bytes (filter (live_bundle uid) (bundles d)) - b_size_bytes r"
      by (rule sum_live_hard_delete [where k = bundle_key])
        (use r artifacts_wfD(1) [OF assms(1)] in \<open>auto simp: live_bundle_def bundle_key_def\<close>)
    with True r(4) show ?thesis
      by simp
  next
    case False
    then have "filter (live_bundle x) (delete_where ?H (bundles d)) = filter (live_bundle x) (bundles d)"
      by (intro filter_delete_other) (auto simp: live_bundle_def)
    with False show ?thesis
      by simp
  qed
  then show ?thesis
    by (simp add: live_bytes_def live_bundle_bytes_def live_snapshot_bytes_def without_bundle_def)
qed

lemma without_snapshot_live:
  assumes "artifacts_wf d" and "snapshot_of uid sid n d"
  shows "live_bytes (without_snapshot uid sid d) x = live_bytes d x - (if x = uid then n else 0)"
proof -
  obtain r where r: "r \<in> set (snapshots d)" "snapshot_key r = (uid, sid)" "s_deleted_at r = None" "s_size_bytes r = n"
    using assms(2) by (auto simp: snapshot_of_def)
  let ?H = "\<lambda>r. s_user_id r = uid \<and> s_snapshot_id r = sid"
  have "sum_by s_size_bytes (filter (live_snapshot x) (delete_where ?H (snapshots d))) =
      sum_by s_size_bytes (filter (live_snapshot x) (snapshots d)) - (if x = uid then n else 0)"
  proof (cases "x = uid")
    case True
    have "sum_by s_size_bytes (filter (live_snapshot uid) (delete_where ?H (snapshots d))) =
        sum_by s_size_bytes (filter (live_snapshot uid) (snapshots d)) - s_size_bytes r"
      by (rule sum_live_hard_delete [where k = snapshot_key])
        (use r artifacts_wfD(2) [OF assms(1)] in \<open>auto simp: live_snapshot_def snapshot_key_def\<close>)
    with True r(4) show ?thesis
      by simp
  next
    case False
    then have "filter (live_snapshot x) (delete_where ?H (snapshots d)) = filter (live_snapshot x) (snapshots d)"
      by (intro filter_delete_other) (auto simp: live_snapshot_def)
    with False show ?thesis
      by simp
  qed
  then show ?thesis
    by (simp add: live_bytes_def live_bundle_bytes_def live_snapshot_bytes_def without_snapshot_def)
qed

lemma used_bytes_without [simp]:
  "used_bytes (without_bundle uid bid d) x = used_bytes d x"
  "used_bytes (without_snapshot uid bid d) x = used_bytes d x"
  by (simp_all add: without_bundle_def without_snapshot_def)

lemma Bundles_HardDelete_slack:
  "hoareM (\<lambda>w. slack used_bytes (db w) uid m \<and> bundle_of uid bid n (db w)) (Bundles_HardDelete uid bid)
    (\<lambda>_ w. slack used_bytes (db w) uid (m + n))
    (\<lambda>_ w. slack used_bytes (db w) uid m \<and> bundle_of uid bid n (db w))"
proof -
  have *: "slack used_bytes (without_bundle uid bid d) uid (m + n)"
    if s: "slack used_bytes d uid m" and b: "bundle_of uid bid n d" for d
  proof -
    have wf: "artifacts_wf d"
      using s by (simp add: slack_def)
    have "live_bytes (without_bundle uid bid d) x + (if x = uid then m + n else 0) \<le> used_bytes d x" for x
      using slackD [OF s, of x] by (simp add: without_bundle_live [OF wf b] split: if_splits)
    then show ?thesis
      by (simp add: slack_def without_bundle_wf [OF wf])
  qed
  show ?thesis
    by (auto simp: hoareM_def Bundles_HardDelete_def wp Let_def without_bundle_def [symmetric] intro: *)
qed

lemma Snapshots_HardDelete_slack:
  "hoareM (\<lambda>w. slack used_bytes (db w) uid m \<and> snapshot_of uid sid n (db w)) (Snapshots_HardDelete uid sid)
    (\<lambda>_ w. slack used_bytes (db w) uid (m + n))
    (\<lambda>_ w. slack used_bytes (db w) uid m \<and> snapshot_of uid sid n (db w))"
proof -
  have *: "slack used_bytes (without_snapshot uid sid d) uid (m + n)"
    if s: "slack used_bytes d uid m" and b: "snapshot_of uid sid n d" for d
  proof -
    have wf: "artifacts_wf d"
      using s by (simp add: slack_def)
    have "live_bytes (without_snapshot uid sid d) x + (if x = uid then m + n else 0) \<le> used_bytes d x" for x
      using slackD [OF s, of x] by (simp add: without_snapshot_live [OF wf b] split: if_splits)
    then show ?thesis
      by (simp add: slack_def without_snapshot_wf [OF wf])
  qed
  show ?thesis
    by (auto simp: hoareM_def Snapshots_HardDelete_def wp Let_def without_snapshot_def [symmetric] intro: *)
qed

text \<open>Soft deletion returns the row it marked; its size becomes slack.\<close>

lemma update_bundles_wf:
  assumes "artifacts_wf d" and "\<And>r. bundle_key (f r) = bundle_key r" and "\<And>r. b_size_bytes (f r) = b_size_bytes r"
  shows "artifacts_wf (d\<lparr>bundles := update_where H f (bundles d)\<rparr>)"
  using assms by (auto simp: artifacts_wf_def map_update_where elim!: in_update_whereE)

lemma update_snapshots_wf:
  assumes "artifacts_wf d" and "\<And>r. snapshot_key (f r) = snapshot_key r" and "\<And>r. s_size_bytes (f r) = s_size_bytes r"
  shows "artifacts_wf (d\<lparr>snapshots := update_where H f (snapshots d)\<rparr>)"
  using assms by (auto simp: artifacts_wf_def map_update_where elim!: in_update_whereE)

lemma bundle_soft_delete_live:
  assumes wf: "artifacts_wf d"
    and hit: "find (\<lambda>r. b_user_id r = uid \<and> b_bundle_id r = bid \<and> b_deleted_at r = None) (bundles d) = Some r"
  shows "live_bytes (d\<lparr>bundles := update_where (\<lambda>r. b_user_id r = uid \<and> b_bundle_id r = bid \<and> b_deleted_at r = None)
            (\<lambda>r. r\<lparr>b_deleted_at := Some at\<rparr>) (bundles d)\<rparr>) x =
         live_bytes d x - (if x = uid then b_size_bytes r else 0)"
proof -
  let ?H = "\<lambda>r. b_user_id r = uid \<and> b_bundle_id r = bid \<and> b_deleted_at r = None"
  let ?f = "\<lambda>r. r\<lparr>b_deleted_at := Some at\<rparr>"
  have r: "r \<in> set (bundles d)" "?H r"
    using find_Some_in [OF hit] by auto
  have "sum_by b_size_bytes (filter (live_bundle x) (update_where ?H ?f (bundles d))) =
      sum_by b_size_bytes (filter (live_bundle x) (bundles d)) - (if x = uid then b_size_bytes r else 0)"
  proof (cases "x = uid")
    case True
    have "sum_by b_size_bytes (filter (live_bundle uid) (update_where ?H ?f (bundles d))) =
        sum_by b_size_bytes (filter (live_bundle uid) (bundles d)) - b_size_bytes r"
      by (rule sum_live_soft_delete [where k = bundle_key])
        (use r artifacts_wfD(1) [OF wf] in \<open>auto simp: live_bundle_def bundle_key_def\<close>)
    with True show ?thesis
      by simp
  next
    case False
    then have "filter (live_bundle x) (update_where ?H ?f (bundles d)) = filter (live_bundle x) (bundles d)"
      by (intro filter_update_where_other) (auto simp: live_bundle_def)
    with False show ?thesis
      by simp
  qed
  then show ?thesis
    by (simp add: live_bytes_def live_bundle_bytes_def live_snapshot_bytes_def)
qed

lemma Bundles_SoftDelete_slack:
  "hoareM (\<lambda>w. slack used_bytes (db w) uid m) (Bundles_SoftDelete uid bid)
    (\<lambda>r w. slack used_bytes (db w) uid (m + b_size_bytes r) \<and> 0 \<le> b_size_bytes r)
    (\<lambda>_ w. slack used_bytes (db w) uid m)"
proof -
  have *: "slack used_bytes (d\<lparr>bundles := update_where (\<lambda>r. b_user_id r = uid \<and> b_bundle_id r = bid \<and> b_deleted_at r = None)
        (\<lambda>r. r\<lparr>b_deleted_at := Some at\<rparr>) (bundles d)\<rparr>) uid (m + b_size_bytes r) \<and> 0 \<le> b_size_bytes r"
    if s: "slack used_bytes d uid m"
      and hit: "find (\<lambda>r. b_user_id r = uid \<and> b_bundle_id r = bid \<and> b_deleted_at r = None) (bundles d) = Some r"
    for d at r
  proof -
    have wf: "artifacts_wf d"
      using s by (simp add: slack_def)
    have "live_bytes d x - (if x = uid then b_size_bytes r else 0) + (if x = uid then m + b_size_bytes r else 0)
        \<le> used_bytes d x" for x
      using slackD [OF s, of x] by (simp split: if_splits)
    then show ?thesis
      using find_Some_in [OF hit] artifacts_wfD(3) [OF wf]
      by (simp add: slack_def bundle_soft_delete_live [OF wf hit] update_bundles_wf [OF wf] bundle_key_def)
  qed
  show ?thesis
    by (auto simp: hoareM_def Bundles_SoftDelete_def wp Let_def split: option.split dest: *)
qed

text \<open>Pruning returns the rows it marked; their sizes become slack.\<close>

lemma sum_returning: "(\<And>r. g (f r) = g r) \<Longrightarrow> sum_by g (returning H f rows) = sum_by g (filter H rows)"
  by (induction rows) (auto simp: returning_def)

lemma prune_live:
  assumes "artifacts_wf d"
  shows "live_bytes (d\<lparr>snapshots := update_where (beyond_newest uid k (snapshots d))
            (\<lambda>r. r\<lparr>s_deleted_at := Some t\<rparr>) (snapshots d)\<rparr>) x =
         live_bytes d x - (if x = uid then sum_by s_size_bytes
            (returning (beyond_newest uid k (snapshots d)) (\<lambda>r. r\<lparr>s_deleted_at := Some t\<rparr>) (snapshots d)) else 0)"
proof -
  let ?H = "beyond_newest uid k (snapshots d)" and ?f = "\<lambda>r. r\<lparr>s_deleted_at := Some t\<rparr>"
  have "sum_by s_size_bytes (filter (live_snapshot x) (update_where ?H ?f (snapshots d))) =
      sum_by s_size_bytes (filter (live_snapshot x) (snapshots d)) -
      (if x = uid then sum_by s_size_bytes (filter ?H (snapshots d)) else 0)"
  proof (cases "x = uid")
    case True
    then show ?thesis
      by (simp, intro sum_filter_update_hit) (auto simp: beyond_newest_def live_snapshot_def)
  next
    case False
    then have "filter (live_snapshot x) (update_where ?H ?f (snapshots d)) = filter (live_snapshot x) (snapshots d)"
      by (intro filter_update_where_other) (auto simp: beyond_newest_def live_snapshot_def)
    with False show ?thesis
      by simp
  qed
  then show ?thesis
    by (simp add: live_bytes_def live_bundle_bytes_def live_snapshot_bytes_def sum_returning)
qed

lemma Snapshots_PruneOldest_slack:
  "hoareM (\<lambda>w. slack used_bytes (db w) uid m) (Snapshots_PruneOldest uid k)
    (\<lambda>pruned w. slack used_bytes (db w) uid (m + sum_by s_size_bytes pruned) \<and> (\<forall>s \<in> set pruned. 0 \<le> s_size_bytes s))
    (\<lambda>_ w. slack used_bytes (db w) uid m)"
proof -
  have *: "slack used_bytes (d\<lparr>snapshots := update_where (beyond_newest uid n (snapshots d))
            (\<lambda>r. r\<lparr>s_deleted_at := Some t\<rparr>) (snapshots d)\<rparr>) uid
          (m + sum_by s_size_bytes (returning (beyond_newest uid n (snapshots d)) (\<lambda>r. r\<lparr>s_deleted_at := Some t\<rparr>) (snapshots d))) \<and>
        (\<forall>s \<in> set (returning (beyond_newest uid n (snapshots d)) (\<lambda>r. r\<lparr>s_deleted_at := Some t\<rparr>) (snapshots d)). 0 \<le> s_size_bytes s)"
    if s: "slack used_bytes d uid m" for d n t
  proof -
    have wf: "artifacts_wf d"
      using s by (simp add: slack_def)
    let ?p = "sum_by s_size_bytes (returning (beyond_newest uid n (snapshots d)) (\<lambda>r. r\<lparr>s_deleted_at := Some t\<rparr>) (snapshots d))"
    have "live_bytes d x - (if x = uid then ?p else 0) + (if x = uid then m + ?p else 0) \<le> used_bytes d x" for x
      using slackD [OF s, of x] by (simp split: if_splits)
    moreover have "artifacts_wf (d\<lparr>snapshots := update_where (beyond_newest uid n (snapshots d))
            (\<lambda>r. r\<lparr>s_deleted_at := Some t\<rparr>) (snapshots d)\<rparr>)"
      by (rule update_snapshots_wf [OF wf]) (simp_all add: snapshot_key_def)
    moreover have "\<forall>s \<in> set (returning (beyond_newest uid n (snapshots d))
        (\<lambda>r. r\<lparr>s_deleted_at := Some t\<rparr>) (snapshots d)). 0 \<le> s_size_bytes s"
      using artifacts_wfD(4) [OF wf] by (auto simp: returning_def)
    ultimately show ?thesis
      by (simp add: slack_def prune_live [OF wf])
  qed
  show ?thesis
    by (auto simp: hoareM_def Snapshots_PruneOldest_def wp Let_def dest: *)
qed

end
