(* ===== verification/Isolation.thy ===== *)
theory Isolation
  imports Accounting
begin

text \<open>
  What one tenant can observe of the artifact tables, the counters and the object
  store, and that every repository call made on behalf of one user leaves the view of
  any other user alone. User ids are UUIDs, so they contain no slash.
\<close>

definition user_view :: "uuid \<Rightarrow> db \<Rightarrow> (string \<rightharpoonup> bytes) \<Rightarrow>
    bundle_meta list \<times> snapshot_meta list \<times> quota_usage option \<times> (string \<rightharpoonup> bytes)" where
  "user_view v d b =
     (filter (\<lambda>r. b_user_id r = v) (bundles d), filter (\<lambda>r. s_user_id r = v) (snapshots d),
      usage_row d v, (\<lambda>k. if key_of_user v k then b k else None))"

text \<open>The invariant the calls keep: the view of \<open>v\<close> is \<open>V\<close>.\<close>

abbreviation view_is :: "uuid \<Rightarrow>
    bundle_meta list \<times> snapshot_meta list \<times> quota_usage option \<times> (string \<rightharpoonup> bytes) \<Rightarrow> world \<Rightarrow> bool" where
  "view_is v V \<equiv> \<lambda>w. user_view v (db w) (blobs w) = V"

lemma user_view_usage:
  "(\<And>x. x = v \<Longrightarrow> usage_row (d\<lparr>storage_usage := su\<rparr>) x = usage_row d x) \<Longrightarrow>
   user_view v (d\<lparr>storage_usage := su\<rparr>) b = user_view v d b"
  by (simp add: user_view_def)

lemma usage_row_update_other:
  "x \<noteq> uid \<Longrightarrow> (\<And>r. q_user_id (f r) = q_user_id r) \<Longrightarrow>
   usage_row (d\<lparr>storage_usage := update_where (\<lambda>r. q_user_id r = uid) f (storage_usage d)\<rparr>) x = usage_row d x"
  by (simp add: usage_row_def find_update_key)

lemma view_ensure:
  "stmt_ensure_usage uid t d = Inr (u, d') \<Longrightarrow> v \<noteq> uid \<Longrightarrow> user_view v d' b = user_view v d b"
  by (auto simp: stmt_ensure_usage_def user_view_def usage_row_append empty_usage_def split: if_splits)

lemma view_try_add:
  "stmt_try_add c uid n lim t d = Inr (ok, d') \<Longrightarrow> v \<noteq> uid \<Longrightarrow> user_view v d' b = user_view v d b"
  by (cases ok) (auto simp: try_add_granted_iff try_add_refused_iff user_view_def usage_row_update_other)

lemma view_remove:
  "stmt_remove_usage c uid n t d = Inr (u, d') \<Longrightarrow> v \<noteq> uid \<Longrightarrow> user_view v d' b = user_view v d b"
  by (auto simp: remove_usage_iff user_view_def usage_row_update_other)

lemma keeps_view_counter:
  assumes "v \<noteq> uid"
  shows "keepsM (view_is v V) (execM (stmt_ensure_usage uid))"
    and "keepsM (view_is v V) (execM (stmt_try_add c uid n lim))"
    and "keepsM (view_is v V) (execM (stmt_remove_usage c uid n))"
  using assms
  by (auto intro!: keeps_exec_db_blobs simp: view_ensure view_try_add view_remove)

lemma keeps_view_quota:
  assumes "v \<noteq> uid"
  shows "keepsM (view_is v V) (Quota_TryAddBundleUsage uid n lim)"
    and "keepsM (view_is v V) (Quota_RemoveBundleUsage uid n)"
    and "keepsM (view_is v V) (Quota_TryAddSnapshotUsage uid n lim)"
    and "keepsM (view_is v V) (Quota_RemoveSnapshotUsage uid n)"
  unfolding Quota_TryAddBundleUsage_def Quota_RemoveBundleUsage_def
    Quota_TryAddSnapshotUsage_def Quota_RemoveSnapshotUsage_def
  by (intro keeps keeps_view_counter [OF assms])+

lemma keeps_view_bundle_rows:
  assumes "v \<noteq> uid"
  shows "b_user_id b = uid \<Longrightarrow> keepsM (view_is v V) (Bundles_Create b)"
    and "keepsM (view_is v V) (Bundles_HardDelete uid bid)"
    and "keepsM (view_is v V) (Bundles_SoftDelete uid bid)"
proof -
  assume "b_user_id b = uid"
  with assms show "keepsM (view_is v V) (Bundles_Create b)"
    unfolding Bundles_Create_def
    by (intro keeps_exec_db_blobs) (auto simp: user_view_def usage_row_def split: if_splits)
next
  from assms show "keepsM (view_is v V) (Bundles_HardDelete uid bid)"
    unfolding Bundles_HardDelete_def
    by (intro keeps_exec_db_blobs) (auto simp: user_view_def usage_row_def intro!: filter_delete_other)
next
  from assms show "keepsM (view_is v V) (Bundles_SoftDelete uid bid)"
    unfolding Bundles_SoftDelete_def
    by (intro keeps keeps_exec_db_blobs)
      (auto simp: user_view_def usage_row_def Let_def intro!: filter_update_where_other split: option.splits)
qed

lemma keeps_view_snapshot_rows:
  assumes "v \<noteq> uid"
  shows "s_user_id s = uid \<Longrightarrow> keepsM (view_is v V) (Snapshots_Create s)"
    and "keepsM (view_is v V) (Snapshots_HardDelete uid sid)"
    and "keepsM (view_is v V) (Snapshots_SoftDelete uid sid)"
    and "keepsM (view_is v V) (Snapshots_PruneOldest uid k)"
proof -
  assume "s_user_id s = uid"
  with assms show "keepsM (view_is v V) (Snapshots_Create s)"
    unfolding Snapshots_Create_def
    by (intro keeps_exec_db_blobs) (auto simp: user_view_def usage_row_def split: if_splits)
next
  from assms show "keepsM (view_is v V) (Snapshots_HardDelete uid sid)"
    unfolding Snapshots_HardDelete_def
    by (intro keeps_exec_db_blobs) (auto simp: user_view_def usage_row_def intro!: filter_delete_other)
next
  from assms show "keepsM (view_is v V) (Snapshots_SoftDelete uid sid)"
    unfolding Snapshots_SoftDelete_def
    by (intro keeps keeps_exec_db_blobs)
      (auto simp: user_view_def usage_row_def Let_def intro!: filter_update_where_other split: option.splits)
next
  from assms show "keepsM (view_is v V) (Snapshots_PruneOldest uid k)"
    unfolding Snapshots_PruneOldest_def
    by (intro keeps_exec_db_blobs)
      (auto simp: user_view_def usage_row_def Let_def beyond_newest_def live_snapshot_def
        intro!: filter_update_where_other split: if_splits)
qed

lemma keeps_view_blobs:
  assumes "segment v" and "segment uid" and "v \<noteq> uid" and "key_of_user uid k"
  shows "keepsM (view_is v V) (Blob_Put k x)" and "keepsM (view_is v V) (Blob_Delete k)"
proof -
  have "\<not> key_of_user v k"
    using key_of_user_other [OF assms(2,1) _ assms(4)] assms(3) by blast
  then have "(\<lambda>k'. if key_of_user v k' then (b(k := y)) k' else None) = (\<lambda>k'. if key_of_user v k' then b k' else None)"
    for b :: "string \<rightharpoonup> bytes" and y
    by auto
  then have view: "user_view v d (b(k := y)) = user_view v d b" for d b y
    by (simp only: user_view_def)
  show "keepsM (view_is v V) (Blob_Put k x)" and "keepsM (view_is v V) (Blob_Delete k)"
    by (auto intro!: keeps_put keeps_del simp: view)
qed

end
