(* ===== verification/HookLog.thy ===== *)
theory HookLog
  imports Accounting
begin

text \<open>
  The reservation protocol as it shows in the log: the calls of the hook, in order.
  Every call but those of the hook leaves them alone (\<open>keeps_hook\<close>).
\<close>

fun is_hook :: "effect \<Rightarrow> bool" where
  "is_hook (HookReserve u n r) = True"
| "is_hook (HookSettle i n) = True"
| "is_hook (HookRelease i) = True"
| "is_hook _ = False"

definition hook_calls :: "effect list \<Rightarrow> effect list" where
  "hook_calls l = filter is_hook l"

lemma hook_calls_append [simp]: "hook_calls (l @ m) = hook_calls l @ hook_calls m"
  by (simp add: hook_calls_def)

lemma hook_calls_simps [simp]:
  "hook_calls [] = []" "is_hook e \<Longrightarrow> hook_calls (e # l) = e # hook_calls l"
  "\<not> is_hook e \<Longrightarrow> hook_calls (e # l) = hook_calls l"
  by (simp_all add: hook_calls_def)

named_theorems keeps_hook

lemma keeps_hook_exec [keeps_hook]: "keepsM (\<lambda>w. J (hook_calls (log w))) (execM f)"
  by (rule keepsM_I) (auto simp: execM_def Let_def split: sum.split)

lemma keeps_hook_query [keeps_hook]: "keepsM (\<lambda>w. J (hook_calls (log w))) (queryM f)"
  unfolding queryM_def by (rule keeps_hook_exec)

lemma keeps_hook_now [keeps_hook]: "keepsM (\<lambda>w. J (hook_calls (log w))) time_Now"
  by (rule keepsM_I) (simp add: time_Now_def Let_def)

lemma keeps_hook_emit [keeps_hook]: "\<not> is_hook e \<Longrightarrow> keepsM (\<lambda>w. J (hook_calls (log w))) (emit e)"
  by (rule keepsM_I) (simp add: emit_def)

lemma keeps_hook_put [keeps_hook]: "keepsM (\<lambda>w. J (hook_calls (log w))) (Blob_Put k x)"
  by (rule keeps_put) simp_all

lemma keeps_hook_del [keeps_hook]: "keepsM (\<lambda>w. J (hook_calls (log w))) (Blob_Delete k)"
  by (rule keeps_del) simp_all

lemma keeps_hook_cache [keeps_hook]:
  "keepsM (\<lambda>w. J (hook_calls (log w))) (Quota_getCachedUsage uid)"
  "keepsM (\<lambda>w. J (hook_calls (log w))) (Quota_cacheUsage u)"
  "keepsM (\<lambda>w. J (hook_calls (log w))) (Quota_invalidateUsageCache uid)"
  by (auto intro!: keepsM_I simp: Quota_getCachedUsage_def Quota_cacheUsage_def
      Quota_invalidateUsageCache_def split: option.split)

lemma keeps_hook_quota [keeps_hook]:
  "keepsM (\<lambda>w. J (hook_calls (log w))) (Quota_GetUsage uid)"
  "keepsM (\<lambda>w. J (hook_calls (log w))) (Quota_TryAddBundleUsage uid n lim)"
  "keepsM (\<lambda>w. J (hook_calls (log w))) (Quota_RemoveBundleUsage uid n)"
  "keepsM (\<lambda>w. J (hook_calls (log w))) (Quota_TryAddSnapshotUsage uid n lim)"
  "keepsM (\<lambda>w. J (hook_calls (log w))) (Quota_RemoveSnapshotUsage uid n)"
  unfolding Quota_GetUsage_def Quota_TryAddBundleUsage_def Quota_RemoveBundleUsage_def
    Quota_TryAddSnapshotUsage_def Quota_RemoveSnapshotUsage_def Let_def
  by (intro keeps keeps_hook)+

lemma keeps_hook_rows [keeps_hook]:
  "keepsM (\<lambda>w. J (hook_calls (log w))) (Bundles_Create b)"
  "keepsM (\<lambda>w. J (hook_calls (log w))) (Bundles_ExistsByID bid)"
  "keepsM (\<lambda>w. J (hook_calls (log w))) (Bundles_HardDelete uid bid)"
  "keepsM (\<lambda>w. J (hook_calls (log w))) (Bundles_SoftDelete uid bid)"
  "keepsM (\<lambda>w. J (hook_calls (log w))) (Snapshots_Create s)"
  "keepsM (\<lambda>w. J (hook_calls (log w))) (Snapshots_HardDelete uid sid)"
  "keepsM (\<lambda>w. J (hook_calls (log w))) (Snapshots_SoftDelete uid sid)"
  "keepsM (\<lambda>w. J (hook_calls (log w))) (Snapshots_PruneOldest uid k)"
  "keepsM (\<lambda>w. J (hook_calls (log w))) (Snapshots_CountByUser uid)"
  "keepsM (\<lambda>w. J (hook_calls (log w))) (Devices_GetByUserAndUUID uid dev)"
  "keepsM (\<lambda>w. J (hook_calls (log w))) (Users_GetByID uid)"
  unfolding Bundles_Create_def Bundles_ExistsByID_def Bundles_HardDelete_def Bundles_SoftDelete_def
    Snapshots_Create_def Snapshots_HardDelete_def Snapshots_SoftDelete_def Snapshots_PruneOldest_def
    Snapshots_CountByUser_def Devices_GetByUserAndUUID_def Users_GetByID_def
  by (intro keeps keeps_hook)+

section \<open>The body between reserve and release\<close>

text \<open>No call of the hook yet beyond \<open>L\<close>, and the guard is not settled.\<close>

definition unsettled :: "effect list \<Rightarrow> world \<times> upload_vars \<Rightarrow> bool" where
  "unsettled L p \<longleftrightarrow> hook_calls (log (fst p)) = L \<and> \<not> uv_settled (snd p)"

lemma keeps_unsettled_lift:
  assumes "\<And>J. keepsM (\<lambda>w. J (hook_calls (log w))) m"
  shows "keepsM (unsettled L) (liftM m)"
proof (rule keepsM_I)
  fix p :: "world \<times> upload_vars"
  assume "unsettled L p"
  then have "hook_calls (log (fst p)) = L" and u: "\<not> uv_settled (snd p)"
    by (simp_all add: unsettled_def)
  then have "hook_calls (log (snd (m (fst p)))) = L"
    using keepsM_snd [OF assms [of "\<lambda>l. l = L"]] by simp
  with u show "unsettled L (snd (liftM m p))"
    by (simp add: unsettled_def liftM_def case_prod_beta)
qed

lemma keeps_unsettled_result: "keepsM (unsettled L) (assignM (\<lambda>v. v\<lparr>uv_result := x\<rparr>))"
  by (simp add: keepsM_def unsettled_def assignM_def case_prod_beta)

definition settled :: "effect list \<Rightarrow> world \<times> upload_vars \<Rightarrow> bool" where
  "settled L p \<longleftrightarrow> hook_calls (log (fst p)) = L \<and> uv_settled (snd p)"

lemma keeps_settled_result: "keepsM (settled L) (assignM (\<lambda>v. v\<lparr>uv_result := x\<rparr>))"
  by (simp add: keepsM_def settled_def assignM_def case_prod_beta)

lemma settle_protocol:
  assumes "g_hook g = Some h" and "g_id g \<noteq> []"
  shows "hoareM (unsettled L) (settle g n)
    (\<lambda>_. settled (L @ [HookSettle (g_id g) n])) (\<lambda>_. unsettled (L @ [HookSettle (g_id g) n]))"
  using assms
  by (auto simp: hoareM_def settle_def wp unsettled_def settled_def split: sum.split)

text \<open>After \<open>release\<close>: nothing more for a settled guard, one release for any other.\<close>

lemma release_settled: "hoareM (settled L) (release g) (\<lambda>_. settled L) (\<lambda>_. settled L)"
  by (auto simp: hoareM_def release_def wp settled_def split: option.split)

lemma release_unsettled:
  assumes "g_hook g = Some h" and "g_id g \<noteq> []"
  shows "hoareM (unsettled L) (release g)
    (\<lambda>_ p. hook_calls (log (fst p)) = L @ [HookRelease (g_id g)])
    (\<lambda>_ p. hook_calls (log (fst p)) = L @ [HookRelease (g_id g)])"
  using assms
  by (auto simp: hoareM_def release_def ReleaseStorage_def wp unsettled_def)

lemma release_inactive: "\<not> guard_active g \<Longrightarrow> release g = retM ()"
  by (auto simp: release_def guard_active_def readLocals_def fun_eq_iff split: option.split)

lemma record_upload_calls:
  "hoareM (\<lambda>p. hook_calls (log (fst p)) = L) (record_upload k)
    (\<lambda>_ p. hook_calls (log (fst p)) = L) (\<lambda>_ p. hook_calls (log (fst p)) = L)"
  by (auto simp: hoareM_def record_upload_def wp)

text \<open>
  How the calls of one upload look, by what the hook answered and how the upload ended:
  a refused reservation ends it; a granted one is settled by success, and given back,
  last, by any failure.
\<close>

definition hook_protocol :: "goerr + string \<Rightarrow> int \<Rightarrow> goerr + 'a \<Rightarrow> effect list \<Rightarrow> bool" where
  "hook_protocol answer n result calls \<longleftrightarrow>
     (case answer of
        Inl e \<Rightarrow> result = Inl e \<and> calls = []
      | Inr i \<Rightarrow>
          if i = '''' then calls = []
          else (case result of
                  Inr x \<Rightarrow> calls = [HookSettle i n]
                | Inl e \<Rightarrow> calls = [HookRelease i] \<or> calls = [HookSettle i n, HookRelease i]))"

end
