(* ===== verification/BundleService.thy ===== *)
theory BundleService
  imports Isolation HookLog Sample
begin

text \<open>
  BundleService of pkg/service/service.go: upload with its rollback paths, download,
  listing and soft deletion. \<open>hk\<close> is the reservation hook, if one is configured, and
  \<open>cfg\<close> the thresholds of the notification service, if there is one.
\<close>

section \<open>Operations\<close>

record upload_input =
  ui_BundleID :: string
  ui_DeviceUUID :: uuid
  ui_LamportLo :: int
  ui_LamportHi :: int
  ui_EventCount :: int
  ui_SizeBytes :: int
  ui_CipherID :: int
  ui_KeyGeneration :: int
  ui_Reader :: bytes
  ui_ContentType :: string
  ui_RequestID :: string
  ui_TeamID :: string

definition bundle_of_input :: "uuid \<Rightarrow> upload_input \<Rightarrow> bundle_meta" where
  "bundle_of_input uid i =
     \<lparr>b_bundle_id = ui_BundleID i, b_user_id = uid, b_uploader_device_uuid = ui_DeviceUUID i,
      b_lamport_lo = ui_LamportLo i, b_lamport_hi = ui_LamportHi i, b_event_count = ui_EventCount i,
      b_size_bytes = ui_SizeBytes i, b_cipher_id = ui_CipherID i, b_key_generation = ui_KeyGeneration i,
      b_uploaded_at = 0, b_deleted_at = None\<rparr>"

definition bundle_request :: "upload_input \<Rightarrow> reservation_request" where
  "bundle_request i =
     \<lparr>rr_reason = ''bundle_upload'', rr_team_id = ui_TeamID i, rr_bundle_id = ui_BundleID i,
      rr_snapshot_id = '''', rr_device_uuid = ui_DeviceUUID i, rr_request_id = ui_RequestID i\<rparr>"

text \<open>The two checks ahead of the quota: the id is new, the device registered and not revoked.\<close>

definition check_bundle_upload :: "uuid \<Rightarrow> upload_input \<Rightarrow> unit app" where
  "check_bundle_upload uid i =
     bindM (wrapM ''check bundle exists'' (Bundles_ExistsByID (ui_BundleID i))) (\<lambda>exists.
     if exists then errM (Sentinel ErrBundleExists)
     else bindM (wrapM ''get device'' (Devices_GetByUserAndUUID uid (ui_DeviceUUID i))) (\<lambda>dev.
       case dev of
         None \<Rightarrow> errM (Sentinel ErrDeviceNotRegistered)
       | Some device \<Rightarrow>
           if d_revoked_at device \<noteq> None then errM (Sentinel ErrDeviceRevoked) else retM ()))"

text \<open>The quota check of the Community Edition; the result is the storage limit.\<close>

definition reserve_bundle_quota :: "uuid \<Rightarrow> int \<Rightarrow> int app" where
  "reserve_bundle_quota uid n =
     bindM (StorageLimit uid) (\<lambda>limit.
     bindM (wrapM ''reserve bundle quota'' (Service_TryAddBundleUsage uid n limit)) (\<lambda>ok.
     if \<not> ok then thenM (emit (RecordQuotaReservation ''bundle'' ''rejected'')) (errM (Sentinel ErrQuotaExceeded))
     else thenM (emit (RecordQuotaReservation ''bundle'' ''success'')) (retM limit)))"

text \<open>\<open>_ = RemoveBundleUsage; RecordQuotaReservation("bundle", "rollback")\<close>\<close>

definition rollback_bundle_quota :: "uuid \<Rightarrow> int \<Rightarrow> unit app" where
  "rollback_bundle_quota uid n =
     thenM (ignoreM (Quota_RemoveBundleUsage uid n)) (emit (RecordQuotaReservation ''bundle'' ''rollback''))"

definition create_bundle_row :: "bool \<Rightarrow> uuid \<Rightarrow> upload_input \<Rightarrow> bundle_meta app" where
  "create_bundle_row active uid i =
     bindM (tryM (Bundles_Create (bundle_of_input uid i))) (\<lambda>r.
     case r of
       Inl e \<Rightarrow> thenM (if \<not> active then rollback_bundle_quota uid (ui_SizeBytes i) else retM ())
                      (errM (Wrap ''create bundle meta'' e))
     | Inr meta \<Rightarrow> retM meta)"

definition store_bundle_blob :: "bool \<Rightarrow> uuid \<Rightarrow> upload_input \<Rightarrow> (world \<times> upload_vars, unit) gom" where
  "store_bundle_blob active uid i =
     bindM (tryM (liftM (Blob_Put (BundleKey uid (ui_BundleID i)) (ui_Reader i)))) (\<lambda>r.
     case r of
       Inl e \<Rightarrow>
         thenM (liftM (ignoreM (Bundles_HardDelete uid (ui_BundleID i))))
         (thenM (liftM (if \<not> active then rollback_bundle_quota uid (ui_SizeBytes i) else retM ()))
         (thenM (assignM (\<lambda>v. v\<lparr>uv_result := ''storage_error''\<rparr>))
                (errM (Wrap ''store bundle'' e))))
     | Inr u \<Rightarrow> retM ())"

definition finish_bundle_upload ::
  "notifier_config \<Rightarrow> reservation_guard \<Rightarrow> uuid \<Rightarrow> upload_input \<Rightarrow> int \<Rightarrow> (world \<times> upload_vars, unit) gom" where
  "finish_bundle_upload cfg g uid i limit =
     (if guard_active g then
        bindM (tryM (settle g (ui_SizeBytes i))) (\<lambda>r.
        case r of
          Inl e \<Rightarrow>
            thenM (liftM (ignoreM (Bundles_SoftDelete uid (ui_BundleID i))))
            (thenM (liftM (ignoreM (Blob_Delete (BundleKey uid (ui_BundleID i)))))
                   (errM (Wrap ''settle bundle reservation'' e)))
        | Inr u \<Rightarrow> retM ())
      else liftM (NotifyBundleUsageAdded cfg uid (ui_SizeBytes i) limit))"

definition UploadBundle :: "hook option \<Rightarrow> notifier_config \<Rightarrow> uuid \<Rightarrow> upload_input \<Rightarrow> bundle_meta app" where
  "UploadBundle hk cfg uid i =
     withLocals \<lparr>uv_settled = False, uv_result = ''failure''\<rparr>
     (deferM
       (bindM (liftM (reserve hk uid (ui_SizeBytes i) (bundle_request i))) (\<lambda>g.
        deferM
          (thenM (liftM (check_bundle_upload uid i))
          (bindM (liftM (if \<not> guard_active g then reserve_bundle_quota uid (ui_SizeBytes i) else retM 0)) (\<lambda>limit.
           bindM (liftM (create_bundle_row (guard_active g) uid i)) (\<lambda>meta.
           thenM (store_bundle_blob (guard_active g) uid i)
          (thenM (finish_bundle_upload cfg g uid i limit)
          (thenM (assignM (\<lambda>v. v\<lparr>uv_result := ''success''\<rparr>))
                 (retM meta)))))))
          (\<lambda>r. release g)))
       (\<lambda>r. record_upload ''bundle''))"

definition DownloadBundle :: "uuid \<Rightarrow> string \<Rightarrow> (bytes \<times> bundle_meta) app" where
  "DownloadBundle uid bid =
     bindM (wrapM ''get bundle meta'' (Bundles_GetByID uid bid)) (\<lambda>m.
     case m of
       None \<Rightarrow> errM (Sentinel ErrBundleNotFound)
     | Some meta \<Rightarrow>
         bindM (wrapM ''get bundle blob'' (Blob_Get (BundleKey uid bid))) (\<lambda>reader.
         retM (reader, meta)))"

definition ListBundles :: "uuid \<Rightarrow> uuid option \<Rightarrow> int \<Rightarrow> string \<Rightarrow> int \<Rightarrow> bundle_meta list app" where
  "ListBundles uid dev afterLamport cursor limit0 =
     (let limit = (if limit0 \<le> 0 \<or> limit0 > 200 then 50 else limit0) in
      case dev of
        Some d \<Rightarrow> Bundles_ListByDevice uid d afterLamport limit
      | None \<Rightarrow> Bundles_ListByUser uid cursor limit)"

text \<open>Both branches of the error test return the error as it is.\<close>

definition DeleteBundle :: "notifier_config \<Rightarrow> uuid \<Rightarrow> string \<Rightarrow> unit app" where
  "DeleteBundle cfg uid bid =
     bindM (tryM (Bundles_SoftDelete uid bid)) (\<lambda>r.
     case r of
       Inl e \<Rightarrow> (if errIs e ErrBundleNotFound then errM e else errM e)
     | Inr meta \<Rightarrow>
         wrapM ''update bundle quota usage'' (Service_RemoveBundleUsage cfg uid (b_size_bytes meta)))"

section \<open>Accounting of an upload and a delete\<close>

lemma keeps_check_bundle [keeps]: "keepsM (\<lambda>w. J (db w) (blobs w)) (check_bundle_upload uid i)"
  unfolding check_bundle_upload_def by (intro keeps)

lemma reserve_bundle_slack:
  "hoareM (\<lambda>w. slack used_bytes (db w) uid 0) (reserve_bundle_quota uid n)
     (\<lambda>_ w. slack used_bytes (db w) uid n) (\<lambda>_ w. slack used_bytes (db w) uid 0)"
  unfolding reserve_bundle_quota_def Service_TryAddBundleUsage_def
  apply (rule hoare_bind, rule hoare_of_keeps, rule keeps_StorageLimit)
  apply (rule hoare_bind, rule hoare_wrap, rule bundle_counter.try_add_slack)
  apply (simp add: hoareM_def wp)
  done

lemma rollback_bundle_slack:
  assumes "0 \<le> n"
  shows "hoareM (\<lambda>w. slack used_bytes (db w) uid n) (rollback_bundle_quota uid n)
     (\<lambda>_ w. slack used_bytes (db w) uid 0) (\<lambda>_ w. slack used_bytes (db w) uid 0)"
  unfolding rollback_bundle_quota_def
  apply (rule hoare_then, rule hoare_ignore)
   apply (rule hoare_pre, rule bundle_counter.remove_slack [OF assms, where m = 0], simp)
  apply (simp add: hoareM_def wp)
  done

lemma create_bundle_slack:
  assumes "0 \<le> ui_SizeBytes i"
  shows "hoareM (\<lambda>w. slack used_bytes (db w) uid (ui_SizeBytes i)) (create_bundle_row False uid i)
     (\<lambda>_ w. slack used_bytes (db w) uid 0 \<and> bundle_of uid (ui_BundleID i) (ui_SizeBytes i) (db w))
     (\<lambda>_ w. slack used_bytes (db w) uid 0)"
proof -
  have create: "hoareM (\<lambda>w. slack used_bytes (db w) uid (ui_SizeBytes i)) (Bundles_Create (bundle_of_input uid i))
     (\<lambda>_ w. slack used_bytes (db w) uid 0 \<and> bundle_of uid (ui_BundleID i) (ui_SizeBytes i) (db w))
     (\<lambda>_ w. slack used_bytes (db w) uid (ui_SizeBytes i))"
    using Bundles_Create_slack [where b = "bundle_of_input uid i" and m = 0 and uid = uid] assms
    by (simp add: bundle_of_input_def)
  show ?thesis
    unfolding create_bundle_row_def
    apply (rule hoare_bind [where R = "\<lambda>r w. (\<exists>e. r = Inl e \<and> slack used_bytes (db w) uid (ui_SizeBytes i)) \<or>
        (\<exists>b. r = Inr b \<and> slack used_bytes (db w) uid 0 \<and> bundle_of uid (ui_BundleID i) (ui_SizeBytes i) (db w))"])
     apply (rule hoare_try, rule hoare_post [OF create]; simp)
    subgoal for r
      apply (cases r)
       apply simp
       apply (rule hoare_then [OF rollback_bundle_slack [OF assms]])
       apply (rule hoare_err, assumption)
      apply (auto intro: hoare_ret)
      done
    done
qed

lemma store_bundle_slack:
  assumes "0 \<le> ui_SizeBytes i"
  shows "hoareM (\<lambda>p. slack used_bytes (db (fst p)) uid 0 \<and>
        bundle_of uid (ui_BundleID i) (ui_SizeBytes i) (db (fst p)))
     (store_bundle_blob False uid i)
     (\<lambda>_ p. slack used_bytes (db (fst p)) uid 0)
     (\<lambda>_ p. slack used_bytes (db (fst p)) uid 0 \<or> bundle_of uid (ui_BundleID i) (ui_SizeBytes i) (db (fst p)))"
proof -
  let ?S = "\<lambda>w. slack used_bytes (db w) uid 0" and ?n = "ui_SizeBytes i"
  let ?B = "\<lambda>w. bundle_of uid (ui_BundleID i) ?n (db w)"
  have put: "hoareM (\<lambda>w. ?S w \<and> ?B w) (Blob_Put k x) (\<lambda>_ w. ?S w \<and> ?B w) (\<lambda>_ w. ?S w \<and> ?B w)" for k x
    by (rule hoare_of_keeps) (rule keeps_put_db)
  have del: "hoareM (\<lambda>w. ?S w \<and> ?B w) (ignoreM (Bundles_HardDelete uid (ui_BundleID i)))
      (\<lambda>_ w. slack used_bytes (db w) uid ?n \<or> ?B w) E" for E
    by (rule hoare_ignore, rule hoare_post, rule Bundles_HardDelete_slack) auto
  have keep_row: "keepsM (\<lambda>w. ?B w) (rollback_bundle_quota uid ?n)"
    unfolding rollback_bundle_quota_def bundle_of_def
    by (intro keeps bundle_counter.remove_frame)
  have roll: "hoareM (\<lambda>w. slack used_bytes (db w) uid ?n \<or> ?B w) (rollback_bundle_quota uid ?n)
      (\<lambda>_ w. ?S w \<or> ?B w) (\<lambda>_ w. ?S w \<or> ?B w)"
    using hoareD [OF rollback_bundle_slack [OF assms]] hoareD [OF hoare_of_keeps [OF keep_row]]
    by (intro hoareI) (auto intro: wpM_mono)
  show ?thesis
    unfolding store_bundle_blob_def
    apply (rule hoare_bind [where R = "\<lambda>r p. ?S (fst p) \<and> ?B (fst p)"])
     apply (rule hoare_try, rule hoare_lift)
     apply (simp add: put)
    subgoal for r
      apply (cases r)
       apply simp
       apply (rule hoare_then [where R = "\<lambda>p. slack used_bytes (db (fst p)) uid ?n \<or> ?B (fst p)"])
        apply (rule hoare_lift, simp add: del)
       apply (rule hoare_then [where R = "\<lambda>p. ?S (fst p) \<or> ?B (fst p)"])
        apply (rule hoare_lift, simp add: roll)
       apply (rule hoare_then [where R = "\<lambda>p. ?S (fst p) \<or> ?B (fst p)"])
        apply (rule hoare_assign, simp)
       apply (rule hoare_err, simp)
      apply (simp, rule hoare_ret, simp)
      done
    done
qed

lemma keeps_finish_inactive:
  "\<not> guard_active g \<Longrightarrow>
   keepsM (\<lambda>p. J (db (fst p)) (blobs (fst p))) (finish_bundle_upload cfg g uid i limit)"
  unfolding finish_bundle_upload_def by (simp, intro keeps)

definition inactive_guard :: reservation_guard where
  "inactive_guard = \<lparr>g_hook = None, g_id = '''', g_category = ''''\<rparr>"

lemma reserve_None: "reserve None uid n req = retM inactive_guard"
  by (simp add: reserve_def inactive_guard_def)

lemma inactive_guard_inactive [simp]: "\<not> guard_active inactive_guard"
  by (simp add: guard_active_def inactive_guard_def)

text \<open>The body of an upload without a reservation.\<close>

lemma upload_body_slack:
  assumes "0 \<le> ui_SizeBytes i" and g: "\<not> guard_active g"
  shows "hoareM (\<lambda>p. slack used_bytes (db (fst p)) uid 0)
    (thenM (liftM (check_bundle_upload uid i))
      (bindM (liftM (if \<not> guard_active g then reserve_bundle_quota uid (ui_SizeBytes i) else retM 0)) (\<lambda>limit.
       bindM (liftM (create_bundle_row (guard_active g) uid i)) (\<lambda>meta.
       thenM (store_bundle_blob (guard_active g) uid i)
      (thenM (finish_bundle_upload cfg g uid i limit)
      (thenM (assignM (\<lambda>v. v\<lparr>uv_result := ''success''\<rparr>))
             (retM meta)))))))
    (\<lambda>_ p. slack used_bytes (db (fst p)) uid 0)
    (\<lambda>_ p. slack used_bytes (db (fst p)) uid 0 \<or> bundle_of uid (ui_BundleID i) (ui_SizeBytes i) (db (fst p)))"
    (is "hoareM ?P ?body ?Q ?E")
proof -
  have weaken: "hoareM P m R (\<lambda>_. ?P) \<Longrightarrow> hoareM P m R ?E" for P R and m :: "(world \<times> upload_vars, 'x) gom"
    by (erule hoare_post) auto
  show ?thesis
    apply (rule hoare_then [where R = ?P])
     apply (rule weaken, rule hoare_lift, simp)
     apply (rule hoare_of_keeps, rule keeps_check_bundle)
    apply (simp only: g if_True if_False not_False_eq_True)
    apply (rule hoare_bind [where R = "\<lambda>_ p. slack used_bytes (db (fst p)) uid (ui_SizeBytes i)"])
     apply (rule weaken, rule hoare_lift, simp add: reserve_bundle_slack)
    apply (rule hoare_bind [where R = "\<lambda>_ p. slack used_bytes (db (fst p)) uid 0 \<and>
        bundle_of uid (ui_BundleID i) (ui_SizeBytes i) (db (fst p))"])
     apply (rule weaken, rule hoare_lift, simp add: create_bundle_slack assms(1))
    apply (rule hoare_then [OF store_bundle_slack [OF assms(1)]])
    apply (rule hoare_then [where R = ?P])
     apply (rule weaken, rule hoare_of_keeps)
     apply (rule keeps_finish_inactive [OF g])
    apply (rule hoare_then [where R = ?P])
     apply (rule hoare_assign, simp)
    apply (rule hoare_ret, assumption)
    done
qed

lemma UploadBundle_slack:
  assumes "0 \<le> ui_SizeBytes i"
  shows "hoareM (\<lambda>w. covers (db w)) (UploadBundle None cfg uid i)
    (\<lambda>_ w. covers (db w))
    (\<lambda>_ w. covers (db w) \<or> bundle_of uid (ui_BundleID i) (ui_SizeBytes i) (db w))"
  unfolding UploadBundle_def reserve_None covers_slack [where uid = uid]
  apply (rule hoare_withLocals)
  apply (rule hoare_pre [where P = "\<lambda>p. slack used_bytes (db (fst p)) uid 0"])
   apply (rule hoare_defer)
     apply (simp only: liftM_retM bindM_retM)
     apply (simp add: release_inactive)
     apply (rule hoare_defer)
       apply (rule upload_body_slack [OF assms inactive_guard_inactive, simplified])
      apply (rule hoare_ret, assumption)
     apply (rule hoare_ret, assumption)
    apply (rule hoare_of_keeps, rule keeps_record_upload)
   apply (rule hoare_of_keeps)
   apply (rule keeps_record_upload)
  apply simp
  done

lemma remove_service_slack:
  assumes "0 \<le> n"
  shows "hoareM (\<lambda>w. slack used_bytes (db w) uid n) (Service_RemoveBundleUsage cfg uid n)
    (\<lambda>_ w. slack used_bytes (db w) uid 0) (\<lambda>_ w. slack used_bytes (db w) uid 0)"
proof -
  have reads: "keepsM (\<lambda>w. slack used_bytes (db w) uid k) (tryM (StorageLimit uid))"
    "keepsM (\<lambda>w. slack used_bytes (db w) uid k) (tryM (Quota_GetUsage uid))" for k
    by (intro keeps)+
  have weaken: "hoareM P m R (\<lambda>_ w. slack used_bytes (db w) uid n) \<Longrightarrow>
      hoareM P m R (\<lambda>_ w. slack used_bytes (db w) uid 0)" for P R and m :: "'x app"
    by (erule hoare_post) (auto intro: slack_mono assms)
  have remove: "hoareM (\<lambda>w. slack used_bytes (db w) uid n) (Quota_RemoveBundleUsage uid n)
      (\<lambda>_ w. slack used_bytes (db w) uid 0) (\<lambda>_ w. slack used_bytes (db w) uid 0)"
    using bundle_counter.remove_slack [OF assms, where m = 0] by simp
  show ?thesis
    unfolding Service_RemoveBundleUsage_def
    apply (rule hoare_bind, rule weaken, rule hoare_of_keeps, rule reads)
    apply (rule hoare_bind, rule weaken, rule hoare_of_keeps, rule reads)
    apply (rule hoare_then [OF remove])
    apply (rule hoare_of_keeps)
    apply (intro keeps)
    done
qed

lemma DeleteBundle_slack:
  "hoareM (\<lambda>w. covers (db w)) (DeleteBundle cfg uid bid) (\<lambda>_ w. covers (db w)) (\<lambda>_ w. covers (db w))"
  unfolding DeleteBundle_def covers_slack [where uid = uid]
  apply (rule hoare_bind [where R = "\<lambda>r w. case r of Inl e \<Rightarrow> slack used_bytes (db w) uid 0
      | Inr m \<Rightarrow> slack used_bytes (db w) uid (b_size_bytes m) \<and> 0 \<le> b_size_bytes m"])
   apply (rule hoare_try)
   apply (rule hoare_post, rule Bundles_SoftDelete_slack [where m = 0]; simp)
  subgoal for r
    apply (cases r)
     apply (simp add: hoareM_def wp)
    subgoal for m
      by (cases "0 \<le> b_size_bytes m") (auto simp: hoareM_def intro: hoare_wrap [THEN hoareD] remove_service_slack)
    done
  done

section \<open>What a successful upload did\<close>

lemma check_bundle_ok:
  "hoareM (\<lambda>w. db w = d0 \<and> blobs w = b0) (check_bundle_upload uid i)
    (\<lambda>_ w. db w = d0 \<and> blobs w = b0 \<and> (\<forall>r \<in> set (bundles d0). b_bundle_id r \<noteq> ui_BundleID i) \<and>
       (\<exists>dev. device_row d0 uid (ui_DeviceUUID i) = Some dev \<and> d_revoked_at dev = None))
    (\<lambda>_ w. db w = d0 \<and> blobs w = b0)"
  by (auto simp: hoareM_def check_bundle_upload_def Bundles_ExistsByID_def Devices_GetByUserAndUUID_def
      queryM_def wp Let_def split: option.split)

definition tier_limit :: "db \<Rightarrow> uuid \<Rightarrow> int option" where
  "tier_limit d uid = map_option (\<lambda>u. l_storage_limit_bytes (TierLimits (u_tier u)))
     (find (\<lambda>u. u_id u = uid \<and> live_user u) (users d))"

lemma StorageLimit_spec:
  "hoareM (\<lambda>w. db w = d0 \<and> blobs w = b0) (StorageLimit uid)
    (\<lambda>limit w. db w = d0 \<and> blobs w = b0 \<and> tier_limit d0 uid = Some limit)
    (\<lambda>_ w. db w = d0 \<and> blobs w = b0)"
  by (auto simp: hoareM_def StorageLimit_def Users_GetByID_def tier_limit_def queryM_def wp Let_def
      split: option.split)

text \<open>The counters grew by exactly \<open>n\<close>, within the user's limit, and nothing else changed.\<close>

definition counted :: "db \<Rightarrow> uuid \<Rightarrow> int \<Rightarrow> db \<Rightarrow> bool" where
  "counted d0 uid n d \<longleftrightarrow> usage_frame d0 d \<and>
     (\<forall>x. used_bytes d x = used_bytes d0 x + (if x = uid then n else 0)) \<and>
     (\<exists>limit. tier_limit d0 uid = Some limit \<and> used_bytes d uid \<le> limit)"

lemma reserve_bundle_ok:
  "hoareM (\<lambda>w. db w = d0 \<and> blobs w = b0) (reserve_bundle_quota uid n)
    (\<lambda>_ w. counted d0 uid n (db w) \<and> blobs w = b0)
    (\<lambda>_ w. usage_frame d0 (db w) \<and> blobs w = b0)"
proof -
  have try_add: "hoareM (\<lambda>w. db w = d0 \<and> blobs w = b0 \<and> tier_limit d0 uid = Some limit)
      (Quota_TryAddBundleUsage uid n limit)
      (\<lambda>ok w. (if ok then counted d0 uid n (db w) else usage_frame d0 (db w)) \<and> blobs w = b0)
      (\<lambda>_ w. usage_frame d0 (db w) \<and> blobs w = b0)" for limit
    by (rule hoareI, rule wpM_mono [OF bundle_counter.try_add_wp])
      (auto simp: counted_def usage_call_def)
  show ?thesis
    unfolding reserve_bundle_quota_def Service_TryAddBundleUsage_def
    apply (rule hoare_bind, rule hoare_post, rule StorageLimit_spec, assumption, simp)
    apply (rule hoare_bind, rule hoare_wrap, rule try_add)
    apply (auto simp: hoareM_def wp counted_def)
    done
qed

lemma create_bundle_ok:
  "hoareM (\<lambda>w. counted d0 uid n (db w) \<and> blobs w = b0) (Bundles_Create b)
    (\<lambda>meta w. (\<exists>d. counted d0 uid n d \<and> db w = d\<lparr>bundles := bundles d0 @ [meta\<lparr>b_deleted_at := None\<rparr>]\<rparr>) \<and>
       blobs w = b0 \<and> (\<exists>t. meta = b\<lparr>b_uploaded_at := t\<rparr>))
    (\<lambda>_ w. counted d0 uid n (db w) \<and> blobs w = b0)"
proof (rule hoareI)
  fix w :: world
  assume pre: "counted d0 uid n (db w) \<and> blobs w = b0"
  then have "bundles (db w) = bundles d0"
    by (simp add: counted_def usage_frame_data)
  with pre show "wpM (Bundles_Create b)
    (\<lambda>meta w. (\<exists>d. counted d0 uid n d \<and> db w = d\<lparr>bundles := bundles d0 @ [meta\<lparr>b_deleted_at := None\<rparr>]\<rparr>) \<and>
       blobs w = b0 \<and> (\<exists>t. meta = b\<lparr>b_uploaded_at := t\<rparr>))
    (\<lambda>_ w. counted d0 uid n (db w) \<and> blobs w = b0) w"
    by (auto simp: Bundles_Create_def wp Let_def split: if_splits)
qed

definition uploaded :: "db \<Rightarrow> (string \<rightharpoonup> bytes) \<Rightarrow> uuid \<Rightarrow> upload_input \<Rightarrow> bundle_meta \<Rightarrow> db \<Rightarrow> (string \<rightharpoonup> bytes) \<Rightarrow> bool" where
  "uploaded d0 b0 uid i meta d b \<longleftrightarrow>
     (\<forall>r \<in> set (bundles d0). b_bundle_id r \<noteq> ui_BundleID i) \<and>
     (\<exists>dev. device_row d0 uid (ui_DeviceUUID i) = Some dev \<and> d_revoked_at dev = None) \<and>
     (\<exists>t. meta = (bundle_of_input uid i)\<lparr>b_uploaded_at := t\<rparr>) \<and>
     (\<exists>d1. counted d0 uid (ui_SizeBytes i) d1 \<and> d = d1\<lparr>bundles := bundles d0 @ [meta]\<rparr>) \<and>
     b = b0(BundleKey uid (ui_BundleID i) \<mapsto> ui_Reader i)"

text \<open>A successful call is a chain of successful calls.\<close>

lemma create_row_Inr:
  "create_bundle_row a uid i w = (Inr m, w') \<longleftrightarrow> Bundles_Create (bundle_of_input uid i) w = (Inr m, w')"
  unfolding create_bundle_row_def catch_Inr_iff by (auto simp: run_ok)

lemma store_blob_Inr:
  "store_bundle_blob a uid i (w, l) = (Inr u, p) \<longleftrightarrow>
   (\<exists>t. Blob_Put (BundleKey uid (ui_BundleID i)) (ui_Reader i) w = (Inr (), t) \<and> p = (t, l))"
  unfolding store_bundle_blob_def catch_Inr_iff by (auto simp: run_ok locals_ok)

lemma record_upload_run:
  "snd (record_upload k (w, l)) = (w\<lparr>log := log w @ [RecordUpload k (uv_result l)]\<rparr>, l)"
  by (simp add: record_upload_def readLocals_def liftM_def emit_def)

lemma UploadBundle_Inr:
  assumes "UploadBundle None cfg uid i w = (Inr meta, w')"
  obtains w1 w2 w3 w4 w5 limit where
    "check_bundle_upload uid i w = (Inr (), w1)"
    "reserve_bundle_quota uid (ui_SizeBytes i) w1 = (Inr limit, w2)"
    "Bundles_Create (bundle_of_input uid i) w2 = (Inr meta, w3)"
    "Blob_Put (BundleKey uid (ui_BundleID i)) (ui_Reader i) w3 = (Inr (), w4)"
    "NotifyBundleUsageAdded cfg uid (ui_SizeBytes i) limit w4 = (Inr (), w5)"
    "w' = w5\<lparr>log := log w5 @ [RecordUpload ''bundle'' ''success'']\<rparr>"
  using assms
  by (auto simp: UploadBundle_def reserve_None run_ok locals_ok release_inactive
      create_row_Inr store_blob_Inr finish_bundle_upload_def record_upload_run)

lemma UploadBundle_uploaded:
  assumes "UploadBundle None cfg uid i w = (Inr meta, w')"
  shows "uploaded (db w) (blobs w) uid i meta (db w') (blobs w')"
proof -
  let ?n = "ui_SizeBytes i" and ?k = "BundleKey uid (ui_BundleID i)"
  obtain w1 w2 w3 w4 w5 limit where run:
    "check_bundle_upload uid i w = (Inr (), w1)"
    "reserve_bundle_quota uid ?n w1 = (Inr limit, w2)"
    "Bundles_Create (bundle_of_input uid i) w2 = (Inr meta, w3)"
    "Blob_Put ?k (ui_Reader i) w3 = (Inr (), w4)"
    "NotifyBundleUsageAdded cfg uid ?n limit w4 = (Inr (), w5)"
    and w': "w' = w5\<lparr>log := log w5 @ [RecordUpload ''bundle'' ''success'']\<rparr>"
    using assms by (rule UploadBundle_Inr)
  have 1: "db w1 = db w \<and> blobs w1 = blobs w"
    and new: "\<forall>r \<in> set (bundles (db w)). b_bundle_id r \<noteq> ui_BundleID i"
    and dev: "\<exists>dev. device_row (db w) uid (ui_DeviceUUID i) = Some dev \<and> d_revoked_at dev = None"
    using hoare_ok [OF check_bundle_ok [where ?d0.0 = "db w" and ?b0.0 = "blobs w"] _ run(1)] by simp_all
  have 2: "counted (db w) uid ?n (db w2) \<and> blobs w2 = blobs w"
    using hoare_ok [OF reserve_bundle_ok [where ?d0.0 = "db w" and ?b0.0 = "blobs w"] _ run(2)] 1 by simp
  obtain d t where 3: "counted (db w) uid ?n d" "db w3 = d\<lparr>bundles := bundles (db w) @ [meta\<lparr>b_deleted_at := None\<rparr>]\<rparr>"
    "blobs w3 = blobs w" "meta = (bundle_of_input uid i)\<lparr>b_uploaded_at := t\<rparr>"
    using hoare_ok [OF create_bundle_ok [where ?d0.0 = "db w" and ?b0.0 = "blobs w" and uid = uid and n = ?n] _ run(3)] 2
    by auto
  have 4: "db w4 = db w3 \<and> blobs w4 = (blobs w3)(?k \<mapsto> ui_Reader i)"
    using run(4) by (auto simp: Blob_Put_def split: if_splits)
  have 5: "db w5 = db w4 \<and> blobs w5 = blobs w4"
    using keepsM_D [OF keeps_NotifyBundle [where J = "\<lambda>d b. d = db w4 \<and> b = blobs w4"] _ run(5)] by simp
  have "meta\<lparr>b_deleted_at := None\<rparr> = meta"
    using 3(4) by (simp add: bundle_of_input_def)
  with new dev 3 4 5 w' show ?thesis
    by (auto simp: uploaded_def)
qed

section \<open>Tenant isolation\<close>

lemma view_upload:
  assumes "segment v" and "segment uid" and "v \<noteq> uid"
  shows "keepsM (view_is v V) (UploadBundle hk cfg uid i)"
proof -
  note other = keeps_view_quota [OF assms(3)] keeps_view_bundle_rows [OF assms(3)]
    keeps_view_blobs [OF assms key_of_user_own(1)]
  have row: "keepsM (view_is v V) (Bundles_Create (bundle_of_input uid i))"
    by (rule other) (simp add: bundle_of_input_def)
  show ?thesis
    unfolding UploadBundle_def reserve_bundle_quota_def Service_TryAddBundleUsage_def
      create_bundle_row_def store_bundle_blob_def rollback_bundle_quota_def finish_bundle_upload_def
    by (intro keeps other row)
qed

lemma view_remove_service:
  assumes "v \<noteq> uid"
  shows "keepsM (view_is v V) (Service_RemoveBundleUsage cfg uid n)"
  unfolding Service_RemoveBundleUsage_def
  by (intro keeps keeps_view_quota [OF assms])

lemma view_delete:
  assumes "v \<noteq> uid"
  shows "keepsM (view_is v V) (DeleteBundle cfg uid bid)"
  unfolding DeleteBundle_def
  by (intro keeps keeps_view_bundle_rows [OF assms] view_remove_service [OF assms])

section \<open>The reservation protocol of an upload\<close>

lemma keeps_hook_StorageLimit [keeps_hook]: "keepsM (\<lambda>w. J (hook_calls (log w))) (StorageLimit uid)"
  unfolding StorageLimit_def by (intro keeps keeps_hook)

lemma keeps_hook_rollback [keeps_hook]: "keepsM (\<lambda>w. J (hook_calls (log w))) (rollback_bundle_quota uid n)"
  unfolding rollback_bundle_quota_def by (intro keeps keeps_hook) simp

lemma keeps_hook_upload_steps:
  "keepsM (\<lambda>w. J (hook_calls (log w))) (check_bundle_upload uid i)"
  "keepsM (\<lambda>w. J (hook_calls (log w))) (create_bundle_row a uid i)"
  unfolding check_bundle_upload_def create_bundle_row_def
  by (intro keeps keeps_hook)+

lemma keeps_unsettled_store: "keepsM (unsettled L) (store_bundle_blob a uid i)"
  unfolding store_bundle_blob_def
  by (intro keeps keeps_unsettled_lift keeps_unsettled_result keeps_hook)

lemma finish_protocol:
  assumes "g_hook g = Some h" and "g_id g \<noteq> []"
  shows "hoareM (unsettled L) (finish_bundle_upload cfg g uid i limit)
    (\<lambda>_. settled (L @ [HookSettle (g_id g) (ui_SizeBytes i)]))
    (\<lambda>_. unsettled (L @ [HookSettle (g_id g) (ui_SizeBytes i)]))"
proof -
  let ?L = "L @ [HookSettle (g_id g) (ui_SizeBytes i)]"
  have tail: "hoareM (unsettled ?L)
      (thenM (liftM (ignoreM (Bundles_SoftDelete uid (ui_BundleID i))))
        (thenM (liftM (ignoreM (Blob_Delete (BundleKey uid (ui_BundleID i))))) (errM e)))
      (\<lambda>_. settled ?L) (\<lambda>_. unsettled ?L)" for e :: goerr
    apply (rule hoare_then, rule hoare_of_keeps, intro keeps_unsettled_lift keeps keeps_hook)
    apply (rule hoare_then, rule hoare_of_keeps, intro keeps_unsettled_lift keeps keeps_hook)
    apply (rule hoare_err, assumption)
    done
  have active: "guard_active g"
    using assms by (simp add: guard_active_def)
  show ?thesis
    unfolding finish_bundle_upload_def if_P [OF active]
    apply (rule hoare_bind [where R = "\<lambda>r p. case r of Inl e \<Rightarrow> unsettled ?L p | Inr u \<Rightarrow> settled ?L p"])
     apply (rule hoare_try)
     apply (simp add: settle_protocol [OF assms])
    subgoal for r
      by (cases r) (simp_all add: tail hoare_ret)
    done
qed

lemma upload_body_protocol:
  assumes "g_hook g = Some h" and "g_id g \<noteq> []"
  shows "hoareM (unsettled L)
    (thenM (liftM (check_bundle_upload uid i))
      (bindM (liftM (if \<not> guard_active g then reserve_bundle_quota uid (ui_SizeBytes i) else retM 0)) (\<lambda>limit.
       bindM (liftM (create_bundle_row (guard_active g) uid i)) (\<lambda>meta.
       thenM (store_bundle_blob (guard_active g) uid i)
      (thenM (finish_bundle_upload cfg g uid i limit)
      (thenM (assignM (\<lambda>v. v\<lparr>uv_result := ''success''\<rparr>))
             (retM meta)))))))
    (\<lambda>_. settled (L @ [HookSettle (g_id g) (ui_SizeBytes i)]))
    (\<lambda>_ p. unsettled L p \<or> unsettled (L @ [HookSettle (g_id g) (ui_SizeBytes i)]) p)"
proof -
  let ?L = "L @ [HookSettle (g_id g) (ui_SizeBytes i)]"
  have active: "guard_active g"
    using assms by (simp add: guard_active_def)
  have keep: "keepsM (unsettled L) m \<Longrightarrow> hoareM (unsettled L) m (\<lambda>_. unsettled L) (\<lambda>_ p. unsettled L p \<or> unsettled ?L p)"
    for m :: "(world \<times> upload_vars, 'x) gom"
    by (drule hoare_of_keeps, erule hoare_post) auto
  show ?thesis
    apply (simp only: active not_True_eq_False if_False liftM_retM bindM_retM)
    apply (rule hoare_then, rule keep, intro keeps_unsettled_lift keeps_hook_upload_steps)
    apply (rule hoare_bind, rule keep, intro keeps_unsettled_lift keeps_hook_upload_steps)
    apply (rule hoare_then, rule keep, rule keeps_unsettled_store)
    apply (rule hoare_then, rule hoare_post, rule finish_protocol [OF assms], assumption, simp)
    apply (rule hoare_then [where R = "settled ?L"])
     apply (rule hoare_assign, simp add: settled_def)
    apply (rule hoare_ret, assumption)
    done
qed

lemma upload_guarded_protocol:
  assumes "g_hook g = Some h" and "g_id g \<noteq> []"
  shows "hoareM (unsettled L)
    (deferM
      (thenM (liftM (check_bundle_upload uid i))
        (bindM (liftM (if \<not> guard_active g then reserve_bundle_quota uid (ui_SizeBytes i) else retM 0)) (\<lambda>limit.
         bindM (liftM (create_bundle_row (guard_active g) uid i)) (\<lambda>meta.
         thenM (store_bundle_blob (guard_active g) uid i)
        (thenM (finish_bundle_upload cfg g uid i limit)
        (thenM (assignM (\<lambda>v. v\<lparr>uv_result := ''success''\<rparr>))
               (retM meta)))))))
      (\<lambda>r. release g))
    (\<lambda>x p. \<exists>calls. hook_calls (log (fst p)) = L @ calls \<and>
       hook_protocol (Inr (g_id g)) (ui_SizeBytes i) (Inr x :: goerr + bundle_meta) calls)
    (\<lambda>e p. \<exists>calls. hook_calls (log (fst p)) = L @ calls \<and>
       hook_protocol (Inr (g_id g)) (ui_SizeBytes i) (Inl e :: goerr + bundle_meta) calls)"
proof -
  let ?s = "HookSettle (g_id g) (ui_SizeBytes i)" and ?r = "HookRelease (g_id g)"
  have post: "hoareM (\<lambda>p. unsettled L p \<or> unsettled (L @ [?s]) p) (release g)
      (\<lambda>_ p. hook_calls (log (fst p)) \<in> {L @ [?r], L @ [?s, ?r]})
      (\<lambda>_ p. hook_calls (log (fst p)) \<in> {L @ [?r], L @ [?s, ?r]})"
    using hoareD [OF release_unsettled [OF assms]] by (intro hoareI) (fastforce intro: wpM_mono)
  show ?thesis
    apply (rule hoare_defer, rule upload_body_protocol [OF assms])
     apply (rule hoare_post, rule release_settled)
      apply (rule exI [where x = "[?s]"], simp add: settled_def hook_protocol_def assms(2))
     apply (rule exI [where x = "[?s]"], simp add: settled_def hook_protocol_def assms(2))
    apply (rule hoare_post, rule post)
     apply (auto simp: hook_protocol_def assms(2))
    done
qed

lemma keeps_hook_notify [keeps_hook]: "keepsM (\<lambda>w. J (hook_calls (log w))) (NotifyBundleUsageAdded cfg uid n l)"
  unfolding NotifyBundleUsageAdded_def MaybeNotifyQuotaIncrease_def Let_def
  by (intro keeps keeps_hook) simp_all

lemma keeps_hook_reserve [keeps_hook]: "keepsM (\<lambda>w. J (hook_calls (log w))) (reserve_bundle_quota uid n)"
  unfolding reserve_bundle_quota_def Service_TryAddBundleUsage_def
  by (intro keeps keeps_hook) simp_all

lemma upload_inactive_calls:
  assumes "\<not> guard_active g"
  shows "keepsM (\<lambda>p. hook_calls (log (fst p)) = L)
    (deferM
      (thenM (liftM (check_bundle_upload uid i))
        (bindM (liftM (if \<not> guard_active g then reserve_bundle_quota uid (ui_SizeBytes i) else retM 0)) (\<lambda>limit.
         bindM (liftM (create_bundle_row (guard_active g) uid i)) (\<lambda>meta.
         thenM (store_bundle_blob (guard_active g) uid i)
        (thenM (finish_bundle_upload cfg g uid i limit)
        (thenM (assignM (\<lambda>v. v\<lparr>uv_result := ''success''\<rparr>))
               (retM meta)))))))
      (\<lambda>r. release g))"
  unfolding release_inactive [OF assms] store_bundle_blob_def finish_bundle_upload_def if_not_P [OF assms]
  by (intro keeps keeps_hook keeps_hook_upload_steps)

lemma UploadBundle_protocol:
  "hoareM (\<lambda>w. log w = l0) (UploadBundle (Some h) cfg uid i)
    (\<lambda>x w. \<exists>calls. hook_calls (log w) = hook_calls l0 @ HookReserve uid (ui_SizeBytes i) (bundle_request i) # calls \<and>
       hook_protocol (h_reserve h l0 uid (ui_SizeBytes i) (bundle_request i)) (ui_SizeBytes i) (Inr x :: goerr + bundle_meta) calls)
    (\<lambda>e w. \<exists>calls. hook_calls (log w) = hook_calls l0 @ HookReserve uid (ui_SizeBytes i) (bundle_request i) # calls \<and>
       hook_protocol (h_reserve h l0 uid (ui_SizeBytes i) (bundle_request i)) (ui_SizeBytes i) (Inl e :: goerr + bundle_meta) calls)"
proof -
  let ?n = "ui_SizeBytes i" and ?req = "bundle_request i"
  let ?L = "hook_calls l0 @ [HookReserve uid ?n ?req]" and ?a = "h_reserve h l0 uid ?n ?req"
  let ?post = "\<lambda>r p. \<exists>calls. hook_calls (log (fst p)) = ?L @ calls \<and> hook_protocol ?a ?n (r :: goerr + bundle_meta) calls"
  have reserve: "hoareM (\<lambda>p. log (fst p) = l0 \<and> \<not> uv_settled (snd p)) (liftM (reserve (Some h) uid ?n ?req))
      (\<lambda>g p. unsettled ?L p \<and> g_hook g = Some h \<and> ?a = Inr (g_id g))
      (\<lambda>e p. ?post (Inl e) p)"
    by (auto simp: hoareM_def reserve_def wp unsettled_def hook_protocol_def split: sum.split)
  have metric: "hoareM (\<lambda>p. ?post r p) (record_upload ''bundle'') (\<lambda>_ p. ?post r p) (\<lambda>_ p. ?post r p)" for r
    by (auto simp: hoareM_def record_upload_def wp)
  have body: "hoareM (\<lambda>p. unsettled ?L p \<and> g_hook g = Some h \<and> ?a = Inr (g_id g))
    (deferM
      (thenM (liftM (check_bundle_upload uid i))
        (bindM (liftM (if \<not> guard_active g then reserve_bundle_quota uid ?n else retM 0)) (\<lambda>limit.
         bindM (liftM (create_bundle_row (guard_active g) uid i)) (\<lambda>meta.
         thenM (store_bundle_blob (guard_active g) uid i)
        (thenM (finish_bundle_upload cfg g uid i limit)
        (thenM (assignM (\<lambda>v. v\<lparr>uv_result := ''success''\<rparr>))
               (retM meta)))))))
      (\<lambda>r. release g)) (\<lambda>x. ?post (Inr x)) (\<lambda>e. ?post (Inl e))" for g
  proof (cases "g_hook g = Some h \<and> ?a = Inr (g_id g)")
    case True
    show ?thesis
    proof (cases "g_id g = []")
      case False
      with True upload_guarded_protocol [of g h ?L uid i cfg] show ?thesis
        by (auto elim: hoare_pre)
    next
      case nil: True
      then have inactive: "\<not> guard_active g"
        by (simp add: guard_active_def)
      show ?thesis
        by (rule hoare_conseq [OF hoare_of_keeps [OF upload_inactive_calls [OF inactive, where L = ?L]]])
          (use True nil in \<open>auto simp: unsettled_def hook_protocol_def\<close>)
    qed
  qed (auto simp: hoareM_def)
  show ?thesis
    unfolding UploadBundle_def
    apply (rule hoare_withLocals)
    apply (rule hoare_pre [where P = "\<lambda>p. log (fst p) = l0 \<and> \<not> uv_settled (snd p)"])
     apply (rule hoare_post [where Q = "\<lambda>x. ?post (Inr x)" and E = "\<lambda>e. ?post (Inl e)"])
       apply (rule hoare_defer [where R = "\<lambda>x. ?post (Inr x)" and F = "\<lambda>e. ?post (Inl e)"])
         apply (rule hoare_bind, rule reserve, rule body)
        apply (rule metric)
       apply (rule metric)
      apply auto
    done
qed

section \<open>A failed upload\<close>

text \<open>
  \<open>rows_are bs b\<close>: bundle rows and objects as they were. The counters are not part of it.
\<close>

definition rows_are :: "bundle_meta list \<Rightarrow> (string \<rightharpoonup> bytes) \<Rightarrow> world \<Rightarrow> bool" where
  "rows_are bs b w \<longleftrightarrow> bundles (db w) = bs \<and> blobs w = b"

lemma keeps_rows_upload_steps:
  "keepsM (rows_are bs b) (check_bundle_upload uid i)"
  "keepsM (rows_are bs b) (reserve_bundle_quota uid n)"
  "keepsM (rows_are bs b) (rollback_bundle_quota uid n)"
  unfolding rows_are_def [abs_def] reserve_bundle_quota_def Service_TryAddBundleUsage_def rollback_bundle_quota_def
  by (intro keeps bundle_counter.try_add_frame bundle_counter.remove_frame)+

lemma create_rows:
  "hoareM (rows_are bs b) (create_bundle_row a uid i)
    (\<lambda>meta. rows_are (bs @ [meta]) b) (\<lambda>_. rows_are bs b)"
proof -
  have create: "hoareM (rows_are bs b) (Bundles_Create (bundle_of_input uid i))
      (\<lambda>meta. rows_are (bs @ [meta]) b) (\<lambda>_. rows_are bs b)"
    by (auto simp: hoareM_def Bundles_Create_def rows_are_def wp Let_def bundle_of_input_def)
  show ?thesis
    unfolding create_bundle_row_def
    apply (rule hoare_bind [where R = "\<lambda>r. case r of Inl e \<Rightarrow> rows_are bs b | Inr m \<Rightarrow> rows_are (bs @ [m]) b"])
     apply (rule hoare_try, simp add: create)
    subgoal for r
      apply (cases r)
       apply (simp split del: if_split)
       apply (rule hoare_then, rule hoare_of_keeps, intro keeps keeps_rows_upload_steps)
       apply (rule hoare_err, assumption)
      apply (simp add: hoare_ret)
      done
    done
qed

lemma create_row_fresh:
  assumes "create_bundle_row a uid i w = (Inr m, w')"
  shows "bundle_key m = (uid, ui_BundleID i)" and "b_size_bytes m = ui_SizeBytes i" and "b_deleted_at m = None"
    and "\<forall>r \<in> set (bundles (db w)). bundle_key r \<noteq> (uid, ui_BundleID i)"
  using assms
  by (auto simp: create_row_Inr Bundles_Create_def execM_ok bundle_key_def bundle_of_input_def split: if_splits)

lemma store_rows:
  assumes "\<forall>r \<in> set bs. bundle_key r \<noteq> (uid, ui_BundleID i)" and "bundle_key m = (uid, ui_BundleID i)"
  shows "hoareM (\<lambda>p. rows_are (bs @ [m]) b (fst p)) (store_bundle_blob a uid i)
    (\<lambda>_ _. True) (\<lambda>_ p. rows_are bs b (fst p) \<or> rows_are (bs @ [m]) b (fst p))"
proof -
  have hard_delete: "hoareM (rows_are (bs @ [m]) b) (ignoreM (Bundles_HardDelete uid (ui_BundleID i)))
      (\<lambda>_ w. rows_are bs b w \<or> rows_are (bs @ [m]) b w) E" for E
    using assms delete_where_none [of bs "\<lambda>r. b_user_id r = uid \<and> b_bundle_id r = ui_BundleID i"]
    by (auto simp: hoareM_def Bundles_HardDelete_def rows_are_def bundle_key_def wp Let_def delete_where_def)
  have keep: "keepsM (\<lambda>w. rows_are bs b w \<or> rows_are (bs @ [m]) b w) (rollback_bundle_quota uid n)" for n
    using keeps_rows_upload_steps(3) [of bs b] keeps_rows_upload_steps(3) [of "bs @ [m]" b]
    by (auto simp: keepsM_def)
  show ?thesis
    unfolding store_bundle_blob_def
    apply (rule hoare_bind [where R = "\<lambda>r p. case r of Inl e \<Rightarrow> rows_are (bs @ [m]) b (fst p) | Inr u \<Rightarrow> True"])
     apply (rule hoare_try, rule hoare_lift)
     apply (simp add: hoareM_def rows_are_def wp)
    subgoal for r
      apply (cases r)
       apply (simp split del: if_split)
       apply (rule hoare_then [where R = "\<lambda>p. rows_are bs b (fst p) \<or> rows_are (bs @ [m]) b (fst p)"])
        apply (rule hoare_lift, simp add: hard_delete)
       apply (rule hoare_then [where R = "\<lambda>p. rows_are bs b (fst p) \<or> rows_are (bs @ [m]) b (fst p)"])
        apply (rule hoare_lift, simp split del: if_split, intro hoare_if hoare_of_keeps keep keeps)
       apply (rule hoare_then [where R = "\<lambda>p. rows_are bs b (fst p) \<or> rows_are (bs @ [m]) b (fst p)"])
        apply (rule hoare_assign, simp)
       apply (rule hoare_err, simp)
      apply (simp, rule hoare_ret, simp)
      done
    done
qed

definition fresh_row :: "bundle_meta list \<Rightarrow> uuid \<Rightarrow> upload_input \<Rightarrow> bundle_meta \<Rightarrow> bool" where
  "fresh_row bs uid i m \<longleftrightarrow> bundle_key m = (uid, ui_BundleID i) \<and> b_size_bytes m = ui_SizeBytes i \<and>
     b_deleted_at m = None \<and> (\<forall>r \<in> set bs. bundle_key r \<noteq> (uid, ui_BundleID i))"

lemma create_rows_fresh:
  "hoareM (rows_are bs b) (create_bundle_row a uid i)
    (\<lambda>meta w. rows_are (bs @ [meta]) b w \<and> fresh_row bs uid i meta) (\<lambda>_. rows_are bs b)"
proof (rule hoareI)
  fix w :: world
  assume pre: "rows_are bs b w"
  then have bs: "bs = bundles (db w)"
    by (simp add: rows_are_def)
  obtain r t where run: "create_bundle_row a uid i w = (r, t)"
    by (cases "create_bundle_row a uid i w")
  show "wpM (create_bundle_row a uid i)
      (\<lambda>meta w. rows_are (bs @ [meta]) b w \<and> fresh_row bs uid i meta) (\<lambda>_. rows_are bs b) w"
  proof (cases r)
    case (Inl e)
    with run hoare_error [OF create_rows pre] show ?thesis
      by (simp add: wpM_def)
  next
    case (Inr m)
    with run hoare_ok [OF create_rows pre] create_row_fresh [of a uid i w m t] bs show ?thesis
      by (simp add: wpM_def fresh_row_def)
  qed
qed

lemma Notify_no_error: "hoareM (\<lambda>_. True) (NotifyBundleUsageAdded cfg uid n l) (\<lambda>_ _. True) (\<lambda>_ _. False)"
proof -
  have total: "hoareM (\<lambda>_. True) m (\<lambda>_ _. True) (\<lambda>_ _. True)" for m :: "'a app"
    by (simp add: hoareM_def wpM_def split: prod.split sum.split)
  show ?thesis
    unfolding NotifyBundleUsageAdded_def MaybeNotifyQuotaIncrease_def Let_def
    apply (rule hoare_if, rule hoare_ret, simp)
    apply (rule hoare_bind, rule hoare_try, rule total)
    apply (auto simp: hoareM_def wp split: sum.split option.split)
    done
qed

lemma UploadBundle_failure_rows:
  "hoareM (rows_are bs b) (UploadBundle None cfg uid i) (\<lambda>_ _. True)
    (\<lambda>_ w. rows_are bs b w \<or> (\<exists>m. fresh_row bs uid i m \<and> rows_are (bs @ [m]) b w))"
proof -
  let ?E = "\<lambda>(p :: world \<times> upload_vars). rows_are bs b (fst p) \<or> (\<exists>m. fresh_row bs uid i m \<and> rows_are (bs @ [m]) b (fst p))"
  have weaken: "hoareM P m R (\<lambda>_ p. rows_are bs b (fst p)) \<Longrightarrow> hoareM P m R (\<lambda>_. ?E)"
    for P R and m :: "(world \<times> upload_vars, 'x) gom"
    by (erule hoare_post) auto
  have store: "hoareM (\<lambda>p. rows_are (bs @ [m]) b (fst p) \<and> fresh_row bs uid i m) (store_bundle_blob a uid i)
      (\<lambda>_ _. True) (\<lambda>_. ?E)" for m a
  proof (cases "fresh_row bs uid i m")
    case True
    then show ?thesis
      using store_rows [of bs uid i m b a] by (auto simp: fresh_row_def intro: hoare_conseq)
  qed (simp add: hoareM_def)
  have finish: "hoareM (\<lambda>_. True) (finish_bundle_upload cfg inactive_guard uid i limit) (\<lambda>_ _. True) (\<lambda>_. ?E)" for limit
    unfolding finish_bundle_upload_def
    by (simp, rule hoare_lift, rule hoare_post [OF Notify_no_error]) auto
  have metric: "hoareM ?E (record_upload k) (\<lambda>_. ?E) (\<lambda>_. ?E)" for k
    by (auto simp: hoareM_def record_upload_def wp rows_are_def)
  have metric': "hoareM (\<lambda>_. True) (record_upload k) (\<lambda>_ _. True) (\<lambda>_ _. True)" for k
    by (auto simp: hoareM_def record_upload_def wp)
  show ?thesis
    unfolding UploadBundle_def reserve_None
    apply (rule hoare_withLocals)
    apply (rule hoare_pre [where P = "\<lambda>p. rows_are bs b (fst p)"])
     apply (rule hoare_defer [where R = "\<lambda>_ _. True" and F = "\<lambda>_. ?E"])
       apply (simp only: liftM_retM bindM_retM release_inactive [OF inactive_guard_inactive])
       apply (rule hoare_defer [where R = "\<lambda>_ _. True" and F = "\<lambda>_. ?E"])
         apply (rule hoare_then [where R = "\<lambda>p. rows_are bs b (fst p)"])
          apply (rule weaken, rule hoare_of_keeps, intro keeps keeps_rows_upload_steps)
         apply (simp only: inactive_guard_inactive if_True not_False_eq_True)
         apply (rule hoare_bind [where R = "\<lambda>_ p. rows_are bs b (fst p)"])
          apply (rule weaken, rule hoare_of_keeps, intro keeps keeps_rows_upload_steps)
         apply (rule hoare_bind [where R = "\<lambda>m p. rows_are (bs @ [m]) b (fst p) \<and> fresh_row bs uid i m"])
          apply (rule weaken, rule hoare_lift)
          apply (simp add: create_rows_fresh)
         apply (rule hoare_then, rule store)
         apply (rule hoare_then, rule finish)
         apply (rule hoare_then [where R = "\<lambda>_. True"], rule hoare_assign, simp)
         apply (rule hoare_ret, simp)
        apply (rule hoare_ret, simp)
       apply (rule hoare_ret, simp)
      apply (rule metric')
     apply (rule metric)
    apply simp
    done
qed

section \<open>Properties\<close>

definition sample_upload :: upload_input where
  "sample_upload =
     \<lparr>ui_BundleID = ''b1'', ui_DeviceUUID = ''d1'', ui_LamportLo = 1, ui_LamportHi = 4, ui_EventCount = 3,
      ui_SizeBytes = 5, ui_CipherID = 1, ui_KeyGeneration = 0, ui_Reader = ''hello'', ui_ContentType = '''',
      ui_RequestID = '''', ui_TeamID = ''''\<rparr>"

lemma sample_upload_runs: "succeeds (UploadBundle None None ''u1'' sample_upload sample_world)"
  by code_simp

lemma covers_sample: "covers (db sample_world)"
  by (simp add: covers_def artifacts_wf_def live_bytes_def live_bundle_bytes_def live_snapshot_bytes_def
      used_bytes_def usage_row_def sample_world_def world_of_def sample_db_def empty_db_def)

text \<open>
  C1. A successful Community upload stored exactly one new row and one new object: the
  bundle id was unused by anyone, the uploading device belongs to the user and is not
  revoked, the row carries the request's metadata, the object under the bundle's key is
  the request's data, every other row, object and table is untouched, and the user's
  counter grew by exactly the size and is within the limit of the tier.
\<close>

theorem upload_success:
  assumes "UploadBundle None cfg uid i w = (Inr meta, w')"
  shows "(\<forall>r \<in> set (bundles (db w)). b_bundle_id r \<noteq> ui_BundleID i) \<and>
    (\<exists>dev. device_row (db w) uid (ui_DeviceUUID i) = Some dev \<and> d_revoked_at dev = None) \<and>
    (\<exists>t. meta = (bundle_of_input uid i)\<lparr>b_uploaded_at := t\<rparr>) \<and>
    blobs w' = (blobs w)(BundleKey uid (ui_BundleID i) \<mapsto> ui_Reader i) \<and>
    db w' = (db w)\<lparr>storage_usage := storage_usage (db w'), bundles := bundles (db w) @ [meta]\<rparr> \<and>
    (\<forall>x. used_bytes (db w') x = used_bytes (db w) x + (if x = uid then ui_SizeBytes i else 0)) \<and>
    (\<exists>limit. tier_limit (db w) uid = Some limit \<and> used_bytes (db w') uid \<le> limit)"
proof -
  note up = UploadBundle_uploaded [OF assms, unfolded uploaded_def]
  obtain d1 where d1: "counted (db w) uid (ui_SizeBytes i) d1" "db w' = d1\<lparr>bundles := bundles (db w) @ [meta]\<rparr>"
    using up by blast
  then obtain su where "d1 = (db w)\<lparr>storage_usage := su\<rparr>"
    unfolding counted_def usage_frame_def by blast
  with d1 have "db w' = (db w)\<lparr>storage_usage := storage_usage (db w'), bundles := bundles (db w) @ [meta]\<rparr>"
    by simp
  moreover have same: "\<And>x. used_bytes (db w') x = used_bytes d1 x"
    using d1(2) by simp
  moreover have "\<exists>limit. tier_limit (db w) uid = Some limit \<and> used_bytes (db w') uid \<le> limit"
    using d1(1) unfolding counted_def same by blast
  ultimately show ?thesis
    using up d1(1) unfolding counted_def by simp
qed

theorem upload_success_witness:
  "\<exists>meta w'. UploadBundle None None ''u1'' sample_upload sample_world = (Inr meta, w') \<and>
     used_bytes (db w') ''u1'' = used_bytes (db sample_world) ''u1'' + 5"
proof -
  obtain meta w' where run: "UploadBundle None None ''u1'' sample_upload sample_world = (Inr meta, w')"
    using succeeds_ex [OF sample_upload_runs] by blast
  show ?thesis
    using upload_success [OF run] run by (auto simp: sample_upload_def)
qed

text \<open>
  C4. Round trip: what a successful upload stored is what a download of the same bundle
  by the same user returns, data and metadata.
\<close>

theorem upload_then_download:
  assumes "UploadBundle None cfg uid i w = (Inr meta, w')" and "faults w' = []"
  shows "\<exists>w''. DownloadBundle uid (ui_BundleID i) w' = (Inr (ui_Reader i, meta), w'')"
proof -
  note up = UploadBundle_uploaded [OF assms(1), unfolded uploaded_def]
  have rows: "bundles (db w') = bundles (db w) @ [meta]"
    using up by auto
  have "find (\<lambda>r. b_user_id r = uid \<and> b_bundle_id r = ui_BundleID i \<and> b_deleted_at r = None) (bundles (db w)) = None"
    using up by (auto simp: find_None_iff')
  then have "find (\<lambda>r. b_user_id r = uid \<and> b_bundle_id r = ui_BundleID i \<and> b_deleted_at r = None)
      (bundles (db w')) = Some meta"
    using up rows by (auto simp: find_append bundle_of_input_def)
  moreover have "blobs w' (BundleKey uid (ui_BundleID i)) = Some (ui_Reader i)"
    using up by simp
  ultimately show ?thesis
    using assms(2)
    by (simp add: DownloadBundle_def Bundles_GetByID_def Blob_Get_def queryM_def execM_nofault run_defs)
qed

theorem upload_then_download_witness:
  "\<exists>meta w' w''. UploadBundle None None ''u1'' sample_upload sample_world = (Inr meta, w') \<and>
     DownloadBundle ''u1'' ''b1'' w' = (Inr (''hello'', meta), w'')"
proof -
  obtain meta w' where run: "UploadBundle None None ''u1'' sample_upload sample_world = (Inr meta, w')"
    using succeeds_ex [OF sample_upload_runs] by blast
  have "faults (snd (UploadBundle None None ''u1'' sample_upload sample_world)) = []"
    by code_simp
  with run have "faults w' = []"
    by simp
  from upload_then_download [OF run this] run show ?thesis
    by (auto simp: sample_upload_def)
qed

text \<open>
  Where the counters fall behind: the object store and then the database fail, the new row stays,
  and five live bytes count as none.
\<close>

definition leaking_world :: world where
  "leaking_world = world_of sample_db [False, False, False, False, False, False, True, True]"

lemma upload_leaks:
  "live_bytes (db (snd (UploadBundle None None ''u1'' sample_upload leaking_world))) ''u1'' = 5 \<and>
   used_bytes (db (snd (UploadBundle None None ''u1'' sample_upload leaking_world))) ''u1'' = 0"
  by code_simp



text \<open>
  C3. Tenant isolation: with or without a reservation hook, an upload or a deletion by
  one user leaves every other user's rows, counter and objects as they were.
\<close>

theorem tenant_isolation:
  assumes "segment v" and "segment uid" and "v \<noteq> uid"
  shows "user_view v (db (snd (UploadBundle hk cfg uid i w))) (blobs (snd (UploadBundle hk cfg uid i w))) =
      user_view v (db w) (blobs w) \<and>
    user_view v (db (snd (DeleteBundle cfg uid bid w))) (blobs (snd (DeleteBundle cfg uid bid w))) =
      user_view v (db w) (blobs w)"
  using keepsM_snd [OF view_upload [OF assms]] keepsM_snd [OF view_delete [OF assms(3)]] by blast

theorem tenant_isolation_witness:
  "user_view ''u2'' (db (snd (UploadBundle None None ''u1'' sample_upload sample_world)))
     (blobs (snd (UploadBundle None None ''u1'' sample_upload sample_world))) =
   user_view ''u2'' (db sample_world) (blobs sample_world)"
  using tenant_isolation [of "''u2''" "''u1''"] by (simp add: segment_def)

text \<open>
  C2. The reservation protocol: with a hook configured an upload asks it for a
  reservation exactly once and first; a refusal ends the upload with the hook's error
  and no further call; a granted reservation is settled with the uploaded size exactly
  once when the upload succeeds and is then never released, and is released exactly
  once, last, whenever the upload fails.
\<close>

theorem upload_hook_protocol:
  assumes "UploadBundle (Some h) cfg uid i w = (r, w')"
  shows "\<exists>calls. hook_calls (log w') =
      hook_calls (log w) @ HookReserve uid (ui_SizeBytes i) (bundle_request i) # calls \<and>
    hook_protocol (h_reserve h (log w) uid (ui_SizeBytes i) (bundle_request i)) (ui_SizeBytes i) r calls"
  using hoare_ok [OF UploadBundle_protocol [where ?l0.0 = "log w"]]
    hoare_error [OF UploadBundle_protocol [where ?l0.0 = "log w"]] assms
  by (cases r) auto

text \<open>A hook that grants every reservation and cannot settle.\<close>

definition failing_hook :: hook where
  "failing_hook = \<lparr>h_reserve = (\<lambda>l u n q. Inr ''res1''), h_settle = (\<lambda>l i n. Inl (ErrMsg ''no''))\<rparr>"

theorem upload_hook_protocol_witness:
  "\<exists>calls. hook_calls (log (snd (UploadBundle (Some failing_hook) None ''u1'' sample_upload sample_world))) =
      HookReserve ''u1'' 5 (bundle_request sample_upload) # calls \<and>
    (calls = [HookRelease ''res1''] \<or> calls = [HookSettle ''res1'' 5, HookRelease ''res1''])"
proof -
  let ?r = "UploadBundle (Some failing_hook) None ''u1'' sample_upload sample_world"
  have "\<not> succeeds ?r"
    by code_simp
  then obtain e where "fst ?r = Inl e"
    by (auto simp: succeeds_def split: sum.splits)
  then have run: "?r = (Inl e, snd ?r)"
    by (metis prod.collapse)
  from upload_hook_protocol [OF run] show ?thesis
    by (simp add: hook_protocol_def failing_hook_def sample_upload_def sample_world_def world_of_def)
qed

end
