(* ===== verification/SnapshotService.thy ===== *)
theory SnapshotService
  imports Isolation HookLog Sample
begin

text \<open>
  SnapshotService of pkg/service/service.go: upload with pruning and its rollback paths,
  and download.
\<close>

section \<open>Operations\<close>

record snapshot_input =
  si_SnapshotID :: string
  si_BaseHLC :: int
  si_SizeBytes :: int
  si_CipherID :: int
  si_KeyGeneration :: int
  si_Reader :: bytes
  si_ContentType :: string
  si_RequestID :: string
  si_TeamID :: string

definition snapshot_of_input :: "uuid \<Rightarrow> snapshot_input \<Rightarrow> snapshot_meta" where
  "snapshot_of_input uid i =
     \<lparr>s_snapshot_id = si_SnapshotID i, s_user_id = uid, s_base_hlc = si_BaseHLC i,
      s_size_bytes = si_SizeBytes i, s_cipher_id = si_CipherID i, s_key_generation = si_KeyGeneration i,
      s_created_at = 0, s_deleted_at = None\<rparr>"

definition snapshot_request :: "snapshot_input \<Rightarrow> reservation_request" where
  "snapshot_request i =
     \<lparr>rr_reason = ''snapshot_upload'', rr_team_id = si_TeamID i, rr_bundle_id = '''',
      rr_snapshot_id = si_SnapshotID i, rr_device_uuid = '''', rr_request_id = si_RequestID i\<rparr>"

text \<open>The number of live snapshots and the limits of the user's tier.\<close>

definition snapshot_limits :: "uuid \<Rightarrow> (int \<times> quota_limits) app" where
  "snapshot_limits uid =
     bindM (wrapM ''count snapshots'' (Snapshots_CountByUser uid)) (\<lambda>cnt.
     bindM (wrapM ''get user'' (Users_GetByID uid)) (\<lambda>u.
     case u of
       None \<Rightarrow> errM (Sentinel ErrUserNotFound)
     | Some user \<Rightarrow> retM (cnt, TierLimits (u_tier user))))"

definition reserve_snapshot_quota :: "uuid \<Rightarrow> int \<Rightarrow> int \<Rightarrow> unit app" where
  "reserve_snapshot_quota uid n limit =
     bindM (wrapM ''reserve snapshot quota'' (Service_TryAddSnapshotUsage uid n limit)) (\<lambda>ok.
     if \<not> ok then thenM (emit (RecordQuotaReservation ''snapshot'' ''rejected'')) (errM (Sentinel ErrQuotaExceeded))
     else emit (RecordQuotaReservation ''snapshot'' ''success''))"

definition rollback_snapshot_quota :: "uuid \<Rightarrow> int \<Rightarrow> unit app" where
  "rollback_snapshot_quota uid n =
     thenM (ignoreM (Quota_RemoveSnapshotUsage uid n)) (emit (RecordQuotaReservation ''snapshot'' ''rollback''))"

definition create_snapshot_row :: "bool \<Rightarrow> uuid \<Rightarrow> snapshot_input \<Rightarrow> snapshot_meta app" where
  "create_snapshot_row active uid i =
     bindM (tryM (Snapshots_Create (snapshot_of_input uid i))) (\<lambda>r.
     case r of
       Inl e \<Rightarrow> thenM (if \<not> active then rollback_snapshot_quota uid (si_SizeBytes i) else retM ())
                      (errM (Wrap ''create snapshot meta'' e))
     | Inr meta \<Rightarrow> retM meta)"

definition store_snapshot_blob :: "bool \<Rightarrow> uuid \<Rightarrow> snapshot_input \<Rightarrow> (world \<times> upload_vars, unit) gom" where
  "store_snapshot_blob active uid i =
     bindM (tryM (liftM (Blob_Put (SnapshotKey uid (si_SnapshotID i)) (si_Reader i)))) (\<lambda>r.
     case r of
       Inl e \<Rightarrow>
         thenM (liftM (ignoreM (Snapshots_HardDelete uid (si_SnapshotID i))))
         (thenM (liftM (if \<not> active then rollback_snapshot_quota uid (si_SizeBytes i) else retM ()))
         (thenM (assignM (\<lambda>v. v\<lparr>uv_result := ''storage_error''\<rparr>))
                (errM (Wrap ''store snapshot'' e))))
     | Inr u \<Rightarrow> retM ())"

text \<open>The usage of the pruned snapshots is given back row by row; the first failure ends the upload.\<close>

definition release_pruned :: "uuid \<Rightarrow> snapshot_meta list \<Rightarrow> unit app" where
  "release_pruned uid pruned = forM pruned () (\<lambda>s _.
     wrapM ''update snapshot quota usage after prune'' (Quota_RemoveSnapshotUsage uid (s_size_bytes s)))"

definition prune_snapshots :: "bool \<Rightarrow> uuid \<Rightarrow> snapshot_input \<Rightarrow> int \<Rightarrow> int \<Rightarrow> unit app" where
  "prune_snapshots active uid i cnt maxSnapshots =
     (if cnt \<ge> maxSnapshots then
        bindM (tryM (Snapshots_PruneOldest uid maxSnapshots)) (\<lambda>r.
        case r of
          Inl e \<Rightarrow>
            thenM (ignoreM (Snapshots_HardDelete uid (si_SnapshotID i)))
            (thenM (ignoreM (Blob_Delete (SnapshotKey uid (si_SnapshotID i))))
            (thenM (if \<not> active then rollback_snapshot_quota uid (si_SizeBytes i) else retM ())
                   (errM (Wrap ''prune old snapshots'' e))))
        | Inr pruned \<Rightarrow> release_pruned uid pruned)
      else retM ())"

definition finish_snapshot_upload ::
  "notifier_config \<Rightarrow> reservation_guard \<Rightarrow> uuid \<Rightarrow> snapshot_input \<Rightarrow> int \<Rightarrow> (world \<times> upload_vars, unit) gom" where
  "finish_snapshot_upload cfg g uid i limit =
     (if guard_active g then
        bindM (tryM (settle g (si_SizeBytes i))) (\<lambda>r.
        case r of
          Inl e \<Rightarrow>
            thenM (liftM (ignoreM (Snapshots_SoftDelete uid (si_SnapshotID i))))
            (thenM (liftM (ignoreM (Blob_Delete (SnapshotKey uid (si_SnapshotID i)))))
                   (errM (Wrap ''settle snapshot reservation'' e)))
        | Inr u \<Rightarrow> retM ())
      else liftM (NotifySnapshotUsageAdded cfg uid (si_SizeBytes i) limit))"

definition UploadSnapshot :: "hook option \<Rightarrow> notifier_config \<Rightarrow> uuid \<Rightarrow> snapshot_input \<Rightarrow> snapshot_meta app" where
  "UploadSnapshot hk cfg uid i =
     withLocals \<lparr>uv_settled = False, uv_result = ''failure''\<rparr>
     (deferM
       (bindM (liftM (reserve hk uid (si_SizeBytes i) (snapshot_request i))) (\<lambda>g.
        deferM
          (bindM (liftM (snapshot_limits uid)) (\<lambda>(cnt, limits).
           thenM (liftM (if \<not> guard_active g
                         then reserve_snapshot_quota uid (si_SizeBytes i) (l_storage_limit_bytes limits)
                         else retM ()))
          (bindM (liftM (create_snapshot_row (guard_active g) uid i)) (\<lambda>meta.
           thenM (store_snapshot_blob (guard_active g) uid i)
          (thenM (liftM (prune_snapshots (guard_active g) uid i cnt (l_max_snapshots limits)))
          (thenM (finish_snapshot_upload cfg g uid i (l_storage_limit_bytes limits))
          (thenM (assignM (\<lambda>v. v\<lparr>uv_result := ''success''\<rparr>))
                 (retM meta))))))))
          (\<lambda>r. release g)))
       (\<lambda>r. record_upload ''snapshot''))"

definition DownloadSnapshot :: "uuid \<Rightarrow> string \<Rightarrow> (bytes \<times> snapshot_meta) app" where
  "DownloadSnapshot uid sid =
     bindM (wrapM ''get snapshot meta'' (Snapshots_GetByID uid sid)) (\<lambda>m.
     case m of
       None \<Rightarrow> errM (Sentinel ErrSnapshotNotFound)
     | Some meta \<Rightarrow>
         bindM (wrapM ''get snapshot blob'' (Blob_Get (SnapshotKey uid sid))) (\<lambda>reader.
         retM (reader, meta)))"

section \<open>Accounting\<close>

lemma keeps_snapshot_limits [keeps]: "keepsM (\<lambda>w. J (db w) (blobs w)) (snapshot_limits uid)"
  unfolding snapshot_limits_def by (intro keeps)

lemma reserve_snapshot_slack:
  "hoareM (\<lambda>w. slack used_bytes (db w) uid 0) (reserve_snapshot_quota uid n limit)
     (\<lambda>_ w. slack used_bytes (db w) uid n) (\<lambda>_ w. slack used_bytes (db w) uid 0)"
  unfolding reserve_snapshot_quota_def Service_TryAddSnapshotUsage_def
  apply (rule hoare_bind, rule hoare_wrap, rule snapshot_counter.try_add_slack)
  apply (simp add: hoareM_def wp)
  done

lemma rollback_snapshot_slack:
  assumes "0 \<le> n"
  shows "hoareM (\<lambda>w. slack used_bytes (db w) uid n) (rollback_snapshot_quota uid n)
     (\<lambda>_ w. slack used_bytes (db w) uid 0) (\<lambda>_ w. slack used_bytes (db w) uid 0)"
  unfolding rollback_snapshot_quota_def
  apply (rule hoare_then, rule hoare_ignore)
   apply (rule hoare_pre, rule snapshot_counter.remove_slack [OF assms, where m = 0], simp)
  apply (simp add: hoareM_def wp)
  done

lemma create_snapshot_slack:
  assumes "0 \<le> si_SizeBytes i"
  shows "hoareM (\<lambda>w. slack used_bytes (db w) uid (si_SizeBytes i)) (create_snapshot_row False uid i)
     (\<lambda>_ w. slack used_bytes (db w) uid 0 \<and> snapshot_of uid (si_SnapshotID i) (si_SizeBytes i) (db w))
     (\<lambda>_ w. slack used_bytes (db w) uid 0)"
proof -
  have create: "hoareM (\<lambda>w. slack used_bytes (db w) uid (si_SizeBytes i)) (Snapshots_Create (snapshot_of_input uid i))
     (\<lambda>_ w. slack used_bytes (db w) uid 0 \<and> snapshot_of uid (si_SnapshotID i) (si_SizeBytes i) (db w))
     (\<lambda>_ w. slack used_bytes (db w) uid (si_SizeBytes i))"
    using Snapshots_Create_slack [where b = "snapshot_of_input uid i" and m = 0 and uid = uid] assms
    by (simp add: snapshot_of_input_def)
  show ?thesis
    unfolding create_snapshot_row_def
    apply (rule hoare_bind [where R = "\<lambda>r w. (\<exists>e. r = Inl e \<and> slack used_bytes (db w) uid (si_SizeBytes i)) \<or>
        (\<exists>b. r = Inr b \<and> slack used_bytes (db w) uid 0 \<and> snapshot_of uid (si_SnapshotID i) (si_SizeBytes i) (db w))"])
     apply (rule hoare_try, rule hoare_post [OF create]; simp)
    subgoal for r
      apply (cases r)
       apply simp
       apply (rule hoare_then [OF rollback_snapshot_slack [OF assms]])
       apply (rule hoare_err, assumption)
      apply (auto intro: hoare_ret)
      done
    done
qed

text \<open>Undoing the row: the counter goes back if the row is gone, else the row stays.\<close>

definition undone :: "uuid \<Rightarrow> snapshot_input \<Rightarrow> world \<Rightarrow> bool" where
  "undone uid i w \<longleftrightarrow> slack used_bytes (db w) uid 0 \<or> snapshot_of uid (si_SnapshotID i) (si_SizeBytes i) (db w)"

lemma undo_snapshot_row:
  "hoareM (\<lambda>w. slack used_bytes (db w) uid 0 \<and> snapshot_of uid (si_SnapshotID i) (si_SizeBytes i) (db w))
     (ignoreM (Snapshots_HardDelete uid (si_SnapshotID i)))
     (\<lambda>_ w. slack used_bytes (db w) uid (si_SizeBytes i) \<or> snapshot_of uid (si_SnapshotID i) (si_SizeBytes i) (db w)) E"
  by (rule hoare_ignore, rule hoare_post, rule Snapshots_HardDelete_slack) auto

lemma undo_snapshot_usage:
  assumes "0 \<le> si_SizeBytes i"
  shows "hoareM (\<lambda>w. slack used_bytes (db w) uid (si_SizeBytes i) \<or> snapshot_of uid (si_SnapshotID i) (si_SizeBytes i) (db w))
     (rollback_snapshot_quota uid (si_SizeBytes i)) (\<lambda>_. undone uid i) (\<lambda>_. undone uid i)"
proof -
  have keep_row: "keepsM (\<lambda>w. snapshot_of uid (si_SnapshotID i) (si_SizeBytes i) (db w))
      (rollback_snapshot_quota uid (si_SizeBytes i))"
    unfolding rollback_snapshot_quota_def snapshot_of_def
    by (intro keeps snapshot_counter.remove_frame)
  show ?thesis
    apply (rule hoareI, elim disjE)
     apply (rule wpM_mono [OF hoareD [OF rollback_snapshot_slack [OF assms]]], assumption)
      apply (simp_all add: undone_def)
    apply (rule wpM_mono [OF hoareD [OF hoare_of_keeps [OF keep_row]]], assumption)
     apply (simp_all add: undone_def)
    done
qed

lemma store_snapshot_slack:
  assumes "0 \<le> si_SizeBytes i"
  shows "hoareM (\<lambda>p. slack used_bytes (db (fst p)) uid 0 \<and>
        snapshot_of uid (si_SnapshotID i) (si_SizeBytes i) (db (fst p)))
     (store_snapshot_blob False uid i)
     (\<lambda>_ p. slack used_bytes (db (fst p)) uid 0 \<and> snapshot_of uid (si_SnapshotID i) (si_SizeBytes i) (db (fst p)))
     (\<lambda>_ p. undone uid i (fst p))"
proof -
  let ?S = "\<lambda>w. slack used_bytes (db w) uid 0" and ?n = "si_SizeBytes i"
  let ?B = "\<lambda>w. snapshot_of uid (si_SnapshotID i) ?n (db w)"
  have put: "hoareM (\<lambda>w. ?S w \<and> ?B w) (Blob_Put k x) (\<lambda>_ w. ?S w \<and> ?B w) (\<lambda>_ w. ?S w \<and> ?B w)" for k x
    by (rule hoare_of_keeps) (rule keeps_put_db)
  show ?thesis
    unfolding store_snapshot_blob_def
    apply (rule hoare_bind [where R = "\<lambda>r p. ?S (fst p) \<and> ?B (fst p)"])
     apply (rule hoare_try, rule hoare_lift)
     apply (simp add: put)
    subgoal for r
      apply (cases r)
       apply simp
       apply (rule hoare_then [where R = "\<lambda>p. slack used_bytes (db (fst p)) uid ?n \<or> ?B (fst p)"])
        apply (rule hoare_lift, simp add: undo_snapshot_row)
       apply (rule hoare_then [where R = "\<lambda>p. undone uid i (fst p)"])
        apply (rule hoare_lift, simp add: undo_snapshot_usage [OF assms])
       apply (rule hoare_then [where R = "\<lambda>p. undone uid i (fst p)"])
        apply (rule hoare_assign, simp)
       apply (rule hoare_err, simp)
      apply (simp, rule hoare_ret, simp)
      done
    done
qed

lemma release_pruned_slack:
  assumes "\<forall>s \<in> set pruned. 0 \<le> s_size_bytes s"
  shows "hoareM (\<lambda>w. slack used_bytes (db w) uid (sum_by s_size_bytes pruned)) (release_pruned uid pruned)
    (\<lambda>_ w. slack used_bytes (db w) uid 0) (\<lambda>_ w. slack used_bytes (db w) uid 0)"
  using assms
proof (induction pruned)
  case Nil
  show ?case
    unfolding release_pruned_def forM.simps sum_by_Nil by (rule hoare_ret)
next
  case (Cons s pruned)
  let ?m = "sum_by s_size_bytes pruned"
  have "0 \<le> ?m"
    using Cons.prems by (auto intro: sum_by_nonneg)
  moreover have "hoareM (\<lambda>w. slack used_bytes (db w) uid (?m + s_size_bytes s)) (Quota_RemoveSnapshotUsage uid (s_size_bytes s))
      (\<lambda>_ w. slack used_bytes (db w) uid ?m) (\<lambda>_ w. slack used_bytes (db w) uid ?m)"
    using Cons.prems by (intro snapshot_counter.remove_slack) simp
  ultimately have "hoareM (\<lambda>w. slack used_bytes (db w) uid (sum_by s_size_bytes (s # pruned)))
      (wrapM msg (Quota_RemoveSnapshotUsage uid (s_size_bytes s)))
      (\<lambda>_ w. slack used_bytes (db w) uid ?m) (\<lambda>_ w. slack used_bytes (db w) uid 0)" for msg
    by (intro hoare_wrap) (auto elim!: hoare_conseq intro: slack_mono simp: add.commute)
  moreover have "hoareM (\<lambda>w. slack used_bytes (db w) uid ?m) (release_pruned uid pruned)
    (\<lambda>_ w. slack used_bytes (db w) uid 0) (\<lambda>_ w. slack used_bytes (db w) uid 0)"
    using Cons by simp
  ultimately show ?case
    unfolding release_pruned_def by (auto intro: hoare_bind)
qed

lemma prune_slack:
  assumes "0 \<le> si_SizeBytes i"
  shows "hoareM (\<lambda>w. slack used_bytes (db w) uid 0 \<and> snapshot_of uid (si_SnapshotID i) (si_SizeBytes i) (db w))
    (prune_snapshots False uid i cnt k)
    (\<lambda>_ w. slack used_bytes (db w) uid 0) (\<lambda>_. undone uid i)"
proof -
  let ?S = "\<lambda>w. slack used_bytes (db w) uid 0" and ?n = "si_SizeBytes i"
  let ?B = "\<lambda>w. snapshot_of uid (si_SnapshotID i) ?n (db w)"
  have prune: "hoareM (\<lambda>w. ?S w \<and> ?B w) (Snapshots_PruneOldest uid k)
      (\<lambda>pruned w. slack used_bytes (db w) uid (sum_by s_size_bytes pruned) \<and> (\<forall>s \<in> set pruned. 0 \<le> s_size_bytes s))
      (\<lambda>_ w. ?S w \<and> ?B w)"
  proof (rule hoareI)
    fix w :: world
    assume "?S w \<and> ?B w"
    then show "wpM (Snapshots_PruneOldest uid k)
      (\<lambda>pruned w. slack used_bytes (db w) uid (sum_by s_size_bytes pruned) \<and> (\<forall>s \<in> set pruned. 0 \<le> s_size_bytes s))
      (\<lambda>_ w. ?S w \<and> ?B w) w"
      using hoareD [OF Snapshots_PruneOldest_slack [where m = 0 and uid = uid and k = k], of w]
      by (auto simp: Snapshots_PruneOldest_def wp Let_def split: if_splits)
  qed
  have release: "hoareM (\<lambda>w. slack used_bytes (db w) uid (sum_by s_size_bytes pruned) \<and> (\<forall>s \<in> set pruned. 0 \<le> s_size_bytes s))
      (release_pruned uid pruned) (\<lambda>_. ?S) (\<lambda>_. undone uid i)" for pruned
    by (cases "\<forall>s \<in> set pruned. 0 \<le> s_size_bytes s")
      (auto simp: hoareM_def undone_def intro: wpM_mono [OF hoareD [OF release_pruned_slack]])
  let ?R = "\<lambda>r w. case r of Inl e \<Rightarrow> ?S w \<and> ?B w
      | Inr pruned \<Rightarrow> slack used_bytes (db w) uid (sum_by s_size_bytes pruned) \<and> (\<forall>s \<in> set pruned. 0 \<le> s_size_bytes s)"
  show ?thesis
    unfolding prune_snapshots_def
    apply (rule hoare_if)
     apply (rule hoare_bind [where R = ?R])
      apply (rule hoare_try, simp add: prune)
    subgoal for r
      apply (cases r)
       apply simp
       apply (rule hoare_then, rule undo_snapshot_row)
       apply (rule hoare_then, rule hoare_ignore, rule hoare_of_keeps, intro keeps)
       apply (rule hoare_then, rule undo_snapshot_usage [OF assms])
       apply (rule hoare_err, assumption)
      apply (simp add: release)
      done
    apply (rule hoare_ret, simp)
    done
qed

lemma keeps_finish_snapshot:
  "\<not> guard_active g \<Longrightarrow>
   keepsM (\<lambda>p. J (db (fst p)) (blobs (fst p))) (finish_snapshot_upload cfg g uid i limit)"
  unfolding finish_snapshot_upload_def by (simp, intro keeps)

lemma upload_snapshot_body_slack:
  assumes "0 \<le> si_SizeBytes i" and g: "\<not> guard_active g"
  shows "hoareM (\<lambda>p. slack used_bytes (db (fst p)) uid 0)
    (bindM (liftM (snapshot_limits uid)) (\<lambda>(cnt, limits).
       thenM (liftM (if \<not> guard_active g
                     then reserve_snapshot_quota uid (si_SizeBytes i) (l_storage_limit_bytes limits)
                     else retM ()))
      (bindM (liftM (create_snapshot_row (guard_active g) uid i)) (\<lambda>meta.
       thenM (store_snapshot_blob (guard_active g) uid i)
      (thenM (liftM (prune_snapshots (guard_active g) uid i cnt (l_max_snapshots limits)))
      (thenM (finish_snapshot_upload cfg g uid i (l_storage_limit_bytes limits))
      (thenM (assignM (\<lambda>v. v\<lparr>uv_result := ''success''\<rparr>))
             (retM meta))))))))
    (\<lambda>_ p. slack used_bytes (db (fst p)) uid 0) (\<lambda>_ p. undone uid i (fst p))"
    (is "hoareM ?P ?body ?Q ?E")
proof -
  have weaken: "hoareM P m R (\<lambda>_. ?P) \<Longrightarrow> hoareM P m R ?E" for P R and m :: "(world \<times> upload_vars, 'x) gom"
    by (erule hoare_post) (auto simp: undone_def)
  show ?thesis
    apply (rule hoare_bind [where R = "\<lambda>_. ?P"])
     apply (rule weaken, rule hoare_lift, simp)
     apply (rule hoare_of_keeps, rule keeps_snapshot_limits)
    apply (simp only: g if_True if_False not_False_eq_True split: prod.split)
    apply (intro allI impI)
    apply (rule hoare_then [where R = "\<lambda>p. slack used_bytes (db (fst p)) uid (si_SizeBytes i)"])
     apply (rule weaken, rule hoare_lift, simp add: reserve_snapshot_slack)
    apply (rule hoare_bind [where R = "\<lambda>_ p. slack used_bytes (db (fst p)) uid 0 \<and>
        snapshot_of uid (si_SnapshotID i) (si_SizeBytes i) (db (fst p))"])
     apply (rule weaken, rule hoare_lift, simp add: create_snapshot_slack assms(1))
    apply (rule hoare_then [OF store_snapshot_slack [OF assms(1)]])
    apply (rule hoare_then [where R = ?P])
     apply (rule hoare_lift, simp add: prune_slack [OF assms(1)])
    apply (rule hoare_then [where R = ?P])
     apply (rule weaken, rule hoare_of_keeps)
     apply (rule keeps_finish_snapshot [OF g])
    apply (rule hoare_then [where R = ?P])
     apply (rule hoare_assign, simp)
    apply (rule hoare_ret, assumption)
    done
qed

lemma undone_log [simp]: "undone uid i (w\<lparr>log := l\<rparr>) = undone uid i w"
  by (simp add: undone_def)

lemma UploadSnapshot_slack:
  assumes "0 \<le> si_SizeBytes i"
  shows "hoareM (\<lambda>w. covers (db w)) (UploadSnapshot None cfg uid i)
    (\<lambda>_ w. covers (db w)) (\<lambda>_. undone uid i)"
proof -
  have g: "reserve None uid n req = retM \<lparr>g_hook = None, g_id = '''', g_category = ''''\<rparr>" for n req
    by (simp add: reserve_def)
  have inactive: "\<not> guard_active \<lparr>g_hook = None, g_id = '''', g_category = ''''\<rparr>"
    by (simp add: guard_active_def)
  have metric: "hoareM (\<lambda>p. undone uid i (fst p)) (record_upload k) (\<lambda>_ p. undone uid i (fst p)) (\<lambda>_ p. undone uid i (fst p))" for k
    by (auto simp: hoareM_def record_upload_def wp)
  show ?thesis
    unfolding UploadSnapshot_def g covers_slack [where uid = uid] liftM_retM bindM_retM release_inactive [OF inactive]
    apply (rule hoare_withLocals)
    apply (rule hoare_pre [where P = "\<lambda>p. slack used_bytes (db (fst p)) uid 0"])
     apply (rule hoare_defer)
       apply (rule hoare_defer)
         apply (rule upload_snapshot_body_slack [OF assms inactive])
        apply (rule hoare_ret, assumption)
       apply (rule hoare_ret, assumption)
      apply (rule hoare_of_keeps, rule keeps_record_upload)
     apply (rule metric)
    apply simp
    done
qed

section \<open>A failed upload costs no restore point\<close>

definition kept :: "snapshot_meta set \<Rightarrow> world \<Rightarrow> bool" where
  "kept L w \<longleftrightarrow> L \<subseteq> set (snapshots (db w))"

definition apart :: "snapshot_meta set \<Rightarrow> uuid \<Rightarrow> snapshot_input \<Rightarrow> bool" where
  "apart L uid i \<longleftrightarrow> (\<forall>s \<in> L. snapshot_key s \<noteq> (uid, si_SnapshotID i))"

definition after_prune_error :: "goerr \<Rightarrow> bool" where
  "after_prune_error e \<longleftrightarrow> (\<exists>e'. e = Wrap ''update snapshot quota usage after prune'' e')"

lemma keeps_kept_steps:
  "keepsM (kept L) (snapshot_limits uid)"
  "keepsM (kept L) (reserve_snapshot_quota uid n l)"
  "keepsM (kept L) (rollback_snapshot_quota uid n)"
  "keepsM (kept L) (Blob_Put k x)" "keepsM (kept L) (Blob_Delete k)"
  unfolding kept_def [abs_def] reserve_snapshot_quota_def Service_TryAddSnapshotUsage_def rollback_snapshot_quota_def
  by (intro keeps snapshot_counter.try_add_frame snapshot_counter.remove_frame)+

lemma keeps_kept_hard_delete:
  "apart L uid i \<Longrightarrow> keepsM (kept L) (Snapshots_HardDelete uid (si_SnapshotID i))"
  unfolding kept_def [abs_def] Snapshots_HardDelete_def
  by (rule keeps_exec_db) (fastforce simp: apart_def snapshot_key_def)

lemma create_kept:
  "hoareM (kept L) (create_snapshot_row a uid i) (\<lambda>_ w. kept L w \<and> apart L uid i) (\<lambda>_. kept L)"
proof -
  have create: "hoareM (kept L) (Snapshots_Create (snapshot_of_input uid i)) (\<lambda>_ w. kept L w \<and> apart L uid i) (\<lambda>_. kept L)"
    by (auto simp: hoareM_def Snapshots_Create_def kept_def apart_def wp Let_def snapshot_key_def snapshot_of_input_def)
  show ?thesis
    unfolding create_snapshot_row_def
    apply (rule hoare_bind [where R = "\<lambda>r w. kept L w \<and> (r \<in> range Inr \<longrightarrow> apart L uid i)"])
     apply (rule hoare_try, rule hoare_post [OF create]; auto)
    subgoal for r
      apply (cases r)
       apply (simp split del: if_split)
       apply (rule hoare_then [where R = "kept L"])
        apply (rule hoare_pre, rule hoare_of_keeps, intro keeps keeps_kept_steps, simp)
       apply (rule hoare_err, assumption)
      apply (auto intro: hoare_ret)
      done
    done
qed

lemma store_kept:
  assumes "apart L uid i"
  shows "keepsM (\<lambda>p. kept L (fst p)) (store_snapshot_blob a uid i)"
  unfolding store_snapshot_blob_def
  by (intro keeps keeps_kept_steps keeps_kept_hard_delete [OF assms])

lemma release_pruned_error:
  "hoareM (\<lambda>_. True) (release_pruned uid pruned) (\<lambda>_ _. True) (\<lambda>e _. after_prune_error e)"
proof (induction pruned)
  case Nil
  show ?case
    unfolding release_pruned_def forM.simps by (rule hoare_ret) simp
next
  case (Cons s pruned)
  have "hoareM (\<lambda>_. True) (wrapM ''update snapshot quota usage after prune'' m) (\<lambda>_ _. True) (\<lambda>e _. after_prune_error e)"
    for m :: "'a app"
    by (auto simp: hoareM_def wpM_def wrapM_def after_prune_error_def split: prod.split sum.split)
  with Cons show ?case
    unfolding release_pruned_def forM.simps by (auto intro: hoare_bind)
qed

lemma prune_kept:
  assumes "apart L uid i"
  shows "hoareM (kept L) (prune_snapshots a uid i cnt k)
    (\<lambda>_ _. True) (\<lambda>e w. kept L w \<or> after_prune_error e)"
proof -
  have prune: "hoareM (kept L) (tryM (Snapshots_PruneOldest uid k))
      (\<lambda>r w. r \<in> range Inl \<longrightarrow> kept L w) E" for E
    by (auto simp: hoareM_def Snapshots_PruneOldest_def kept_def wp Let_def)
  show ?thesis
    unfolding prune_snapshots_def
    apply (rule hoare_if)
     apply (rule hoare_bind, rule prune)
    subgoal for r
      apply (cases r)
       apply (simp split del: if_split)
       apply (rule hoare_then [where R = "kept L"], rule hoare_ignore, rule hoare_of_keeps, rule keeps_kept_hard_delete [OF assms])
       apply (rule hoare_then [where R = "kept L"], rule hoare_ignore, rule hoare_of_keeps, rule keeps_kept_steps)
       apply (rule hoare_then [where R = "kept L"])
        apply (rule hoare_post, rule hoare_of_keeps, intro keeps keeps_kept_steps)
         apply simp
        apply simp
       apply (rule hoare_err, simp)
      apply (simp, rule hoare_conseq, rule release_pruned_error; simp)
      done
    apply (rule hoare_ret, simp)
    done
qed

lemma NotifySnapshot_no_error: "hoareM (\<lambda>_. True) (NotifySnapshotUsageAdded cfg uid n l) (\<lambda>_ _. True) (\<lambda>_ _. False)"
proof -
  have total: "hoareM (\<lambda>_. True) m (\<lambda>_ _. True) (\<lambda>_ _. True)" for m :: "'a app"
    by (simp add: hoareM_def wpM_def split: prod.split sum.split)
  show ?thesis
    unfolding NotifySnapshotUsageAdded_def MaybeNotifyQuotaIncrease_def Let_def
    apply (rule hoare_if, rule hoare_ret, simp)
    apply (rule hoare_bind, rule hoare_try, rule total)
    apply (auto simp: hoareM_def wp split: sum.split option.split)
    done
qed

lemma UploadSnapshot_kept:
  "hoareM (kept L) (UploadSnapshot None cfg uid i) (\<lambda>_ _. True) (\<lambda>e w. kept L w \<or> after_prune_error e)"
proof -
  let ?E = "\<lambda>e (p :: world \<times> upload_vars). kept L (fst p) \<or> after_prune_error e"
  have g: "reserve None uid n req = retM \<lparr>g_hook = None, g_id = '''', g_category = ''''\<rparr>" for n req
    by (simp add: reserve_def)
  let ?g = "\<lparr>g_hook = None, g_id = '''', g_category = ''''\<rparr>"
  have inactive: "\<not> guard_active ?g"
    by (simp add: guard_active_def)
  have weaken: "hoareM P m R (\<lambda>_ p. kept L (fst p)) \<Longrightarrow> hoareM P m R ?E"
    for P R and m :: "(world \<times> upload_vars, 'x) gom"
    by (erule hoare_post) auto
  have metric: "hoareM (?E e) (record_upload k) (\<lambda>_. ?E e) (\<lambda>_. ?E e)" for k e
    by (auto simp: hoareM_def record_upload_def wp kept_def)
  have metric': "hoareM (\<lambda>_. True) (record_upload k) (\<lambda>_ _. True) (\<lambda>_ _. True)" for k
    by (auto simp: hoareM_def record_upload_def wp)
  have store: "hoareM (\<lambda>p. kept L (fst p) \<and> apart L uid i) (store_snapshot_blob a uid i)
      (\<lambda>_ p. kept L (fst p) \<and> apart L uid i) ?E" for a
  proof (cases "apart L uid i")
    case True
    then show ?thesis
      by (simp, intro hoare_post [OF hoare_of_keeps [OF store_kept [OF True]]]) auto
  qed (simp add: hoareM_def)
  have prune: "hoareM (\<lambda>p. kept L (fst p) \<and> apart L uid i) (liftM (prune_snapshots a uid i cnt k))
      (\<lambda>_ _. True) ?E" for a cnt k
    using hoareD [OF prune_kept] by (auto simp: hoareM_def wp)
  have finish: "hoareM (\<lambda>_. True) (finish_snapshot_upload cfg ?g uid i limit) (\<lambda>_ _. True) ?E" for limit
    unfolding finish_snapshot_upload_def if_not_P [OF inactive]
    by (rule hoare_lift, rule hoare_post [OF NotifySnapshot_no_error]) auto
  show ?thesis
    unfolding UploadSnapshot_def g liftM_retM bindM_retM release_inactive [OF inactive]
    apply (rule hoare_withLocals)
    apply (rule hoare_pre [where P = "\<lambda>p. kept L (fst p)"])
     apply (rule hoare_defer [where R = "\<lambda>_ _. True" and F = ?E])
       apply (rule hoare_defer [where R = "\<lambda>_ _. True" and F = ?E])
         apply (rule hoare_bind [where R = "\<lambda>_ p. kept L (fst p)"])
          apply (rule weaken, rule hoare_of_keeps, intro keeps keeps_kept_steps)
         apply (simp only: inactive if_True not_False_eq_True split: prod.split)
         apply (intro allI impI)
         apply (rule hoare_then [where R = "\<lambda>p. kept L (fst p)"])
          apply (rule weaken, rule hoare_of_keeps, intro keeps keeps_kept_steps)
         apply (rule hoare_bind [where R = "\<lambda>_ p. kept L (fst p) \<and> apart L uid i"])
          apply (rule weaken, rule hoare_lift, simp add: create_kept)
         apply (rule hoare_then, rule store)
         apply (rule hoare_then, rule prune)
         apply (rule hoare_then, rule finish)
         apply (rule hoare_then [where R = "\<lambda>_. True"], rule hoare_assign, simp)
         apply (rule hoare_ret, simp)
        apply (rule hoare_ret, simp)
       apply (rule hoare_ret, simp)
      apply (rule metric')
     apply (rule metric)
    apply simp
    done
qed

section \<open>What a successful upload did\<close>

lemma create_snapshot_Inr:
  "create_snapshot_row a uid i w = (Inr m, w') \<longleftrightarrow> Snapshots_Create (snapshot_of_input uid i) w = (Inr m, w')"
  unfolding create_snapshot_row_def catch_Inr_iff by (auto simp: run_ok)

lemma store_snapshot_Inr:
  "store_snapshot_blob a uid i (w, l) = (Inr u, p) \<longleftrightarrow>
   (\<exists>t. Blob_Put (SnapshotKey uid (si_SnapshotID i)) (si_Reader i) w = (Inr (), t) \<and> p = (t, l))"
  unfolding store_snapshot_blob_def catch_Inr_iff by (auto simp: run_ok locals_ok)

lemma UploadSnapshot_Inr:
  assumes "UploadSnapshot None cfg uid i w = (Inr meta, w')"
  obtains w1 w2 w3 w4 w5 w6 cnt limits where
    "snapshot_limits uid w = (Inr (cnt, limits), w1)"
    "reserve_snapshot_quota uid (si_SizeBytes i) (l_storage_limit_bytes limits) w1 = (Inr (), w2)"
    "Snapshots_Create (snapshot_of_input uid i) w2 = (Inr meta, w3)"
    "Blob_Put (SnapshotKey uid (si_SnapshotID i)) (si_Reader i) w3 = (Inr (), w4)"
    "prune_snapshots False uid i cnt (l_max_snapshots limits) w4 = (Inr (), w5)"
    "NotifySnapshotUsageAdded cfg uid (si_SizeBytes i) (l_storage_limit_bytes limits) w5 = (Inr (), w6)"
    "w' = w6\<lparr>log := log w6 @ [RecordUpload ''snapshot'' ''success'']\<rparr>"
proof -
  have g: "reserve None uid n req = retM \<lparr>g_hook = None, g_id = '''', g_category = ''''\<rparr>" for n req
    by (simp add: reserve_def)
  have inactive: "\<not> guard_active \<lparr>g_hook = None, g_id = '''', g_category = ''''\<rparr>"
    by (simp add: guard_active_def)
  have metric: "snd (record_upload k (v, l)) = (v\<lparr>log := log v @ [RecordUpload k (uv_result l)]\<rparr>, l)" for k v l
    by (simp add: record_upload_def readLocals_def liftM_def emit_def)
  show thesis
    using assms that
    by (auto simp: UploadSnapshot_def g run_ok locals_ok release_inactive [OF inactive] inactive
        create_snapshot_Inr store_snapshot_Inr finish_snapshot_upload_def metric)
qed

text \<open>The rows that are live after pruning to \<open>k\<close>.\<close>

definition pruned_rows :: "uuid \<Rightarrow> nat \<Rightarrow> time \<Rightarrow> snapshot_meta list \<Rightarrow> snapshot_meta list" where
  "pruned_rows uid k t rows = update_where (beyond_newest uid k rows) (\<lambda>r. r\<lparr>s_deleted_at := Some t\<rparr>) rows"

definition live_snapshots :: "db \<Rightarrow> uuid \<Rightarrow> snapshot_meta list" where
  "live_snapshots d uid = filter (live_snapshot uid) (snapshots d)"

lemma live_ids_distinct:
  assumes "distinct (map snapshot_key rows)"
  shows "distinct (map s_snapshot_id (filter (live_snapshot uid) rows))"
proof -
  have "distinct (map snapshot_key (filter (live_snapshot uid) rows))"
    using assms by (simp add: distinct_map_filter)
  moreover have "map snapshot_key (filter (live_snapshot uid) rows) =
      map (Pair uid) (map s_snapshot_id (filter (live_snapshot uid) rows))"
    by (auto simp: snapshot_key_def live_snapshot_def)
  ultimately show ?thesis
    by (metis distinct_map)
qed

lemma live_pruned:
  "filter (live_snapshot uid) (pruned_rows uid k t rows) =
   filter (\<lambda>r. s_snapshot_id r \<in> s_snapshot_id ` set (take k (newest_first (filter (live_snapshot uid) rows))))
     (filter (live_snapshot uid) rows)"
proof -
  have "filter (live_snapshot uid) (update_where H f xs) = filter (\<lambda>r. \<not> H r) (filter (live_snapshot uid) xs)"
    if "\<And>r. H r \<Longrightarrow> \<not> live_snapshot uid (f r)" for H f and xs :: "snapshot_meta list"
    using that by (induction xs) (auto simp: update_where_def)
  then have "filter (live_snapshot uid) (pruned_rows uid k t rows) =
      filter (\<lambda>r. \<not> beyond_newest uid k rows r) (filter (live_snapshot uid) rows)"
    by (simp add: pruned_rows_def live_snapshot_def)
  also have "\<dots> = filter (\<lambda>r. s_snapshot_id r \<in> s_snapshot_id ` set (take k (newest_first (filter (live_snapshot uid) rows))))
     (filter (live_snapshot uid) rows)"
    by (rule filter_cong) (auto simp: beyond_newest_def)
  finally show ?thesis .
qed

lemma length_live_pruned:
  assumes "distinct (map snapshot_key rows)"
  shows "length (filter (live_snapshot uid) (pruned_rows uid k t rows)) =
    min k (length (filter (live_snapshot uid) rows))"
proof -
  let ?L = "filter (live_snapshot uid) rows"
  let ?T = "take k (newest_first ?L)"
  have d: "distinct (map s_snapshot_id ?L)"
    using assms by (rule live_ids_distinct)
  have sub: "set ?T \<subseteq> set ?L"
    unfolding newest_first_def by (metis set_sort set_take_subset)
  have "mset (map s_snapshot_id (newest_first ?L)) = mset (map s_snapshot_id ?L)"
    by (simp add: newest_first_def)
  then have "distinct (map s_snapshot_id (newest_first ?L))"
    using d mset_eq_imp_distinct_iff by blast
  then have dT: "distinct (map s_snapshot_id ?T)"
    by (metis distinct_take take_map)
  have "set (filter (\<lambda>r. s_snapshot_id r \<in> s_snapshot_id ` set ?T) ?L) = set ?T"
  proof
    show "set ?T \<subseteq> set (filter (\<lambda>r. s_snapshot_id r \<in> s_snapshot_id ` set ?T) ?L)"
      using sub by auto
    show "set (filter (\<lambda>r. s_snapshot_id r \<in> s_snapshot_id ` set ?T) ?L) \<subseteq> set ?T"
    proof
      fix r
      assume "r \<in> set (filter (\<lambda>r. s_snapshot_id r \<in> s_snapshot_id ` set ?T) ?L)"
      then obtain r' where "r \<in> set ?L" and "r' \<in> set ?T" and "s_snapshot_id r = s_snapshot_id r'"
        by auto
      with sub d show "r \<in> set ?T"
        by (metis distinct_map inj_onD subsetD)
    qed
  qed
  moreover have "distinct (filter (\<lambda>r. s_snapshot_id r \<in> s_snapshot_id ` set ?T) ?L)"
    by (rule distinct_filter) (use d in \<open>simp add: distinct_map\<close>)
  moreover have "distinct ?T"
    using dT by (simp add: distinct_map)
  ultimately have "length (filter (\<lambda>r. s_snapshot_id r \<in> s_snapshot_id ` set ?T) ?L) = length ?T"
    by (metis distinct_card)
  then show ?thesis
    by (simp add: live_pruned newest_first_def)
qed

text \<open>The strictly newest row is the first, so it survives any pruning to at least one.\<close>

lemma newest_first_hd:
  assumes "m \<in> set L" and "\<And>s. s \<in> set L \<Longrightarrow> s \<noteq> m \<Longrightarrow> s_created_at s < s_created_at m"
  shows "\<exists>rest. newest_first L = m # rest"
proof -
  have "newest_first L \<noteq> []" and in_L: "set (newest_first L) = set L"
    using assms(1) unfolding newest_first_def by (metis empty_iff empty_set set_sort, simp)
  then obtain h rest where h: "newest_first L = h # rest"
    by (cases "newest_first L") auto
  have "sorted (map (\<lambda>s. - s_created_at s) (h # rest))"
    using h unfolding newest_first_def by (metis sorted_sort_key)
  moreover have "m \<in> set (h # rest)"
    using assms(1) h in_L by simp
  ultimately have "s_created_at m \<le> s_created_at h"
    by auto
  moreover have "h \<in> set L"
    using h in_L by (metis list.set_intros(1))
  ultimately have "h = m"
    using assms(2) by fastforce
  with h show ?thesis
    by simp
qed

lemma Notify_frame:
  "NotifySnapshotUsageAdded cfg uid n l w = (r, w') \<Longrightarrow> db w' = db w \<and> blobs w' = blobs w"
  using keepsM_D [OF keeps_NotifySnapshot [where J = "\<lambda>d b. d = db w \<and> b = blobs w"]] by blast

lemma release_pruned_frame:
  "keepsM (\<lambda>w. J (bundles (db w)) (snapshots (db w)) (blobs w)) (release_pruned uid pruned)"
  unfolding release_pruned_def by (intro keeps snapshot_counter.remove_frame)

lemma prune_ok:
  assumes "prune_snapshots False uid i cnt k w = (Inr (), w')" and "0 \<le> k"
  shows "(\<exists>t. snapshots (db w') = (if cnt \<ge> k then pruned_rows uid (nat k) t (snapshots (db w)) else snapshots (db w)))
    \<and> blobs w' = blobs w"
proof (cases "cnt \<ge> k")
  case True
  then obtain pruned w1 where run: "Snapshots_PruneOldest uid k w = (Inr pruned, w1)"
    "release_pruned uid pruned w1 = (Inr (), w')"
    using assms(1) unfolding prune_snapshots_def if_P [OF True] catch_Inr_iff by (auto simp: run_ok)
  have "snapshots (db w') = snapshots (db w1) \<and> blobs w' = blobs w1"
    using keepsM_D [OF release_pruned_frame [where J = "\<lambda>x y z. y = snapshots (db w1) \<and> z = blobs w1"] _ run(2)]
    by simp
  with run(1) True assms(2) show ?thesis
    by (auto simp: Snapshots_PruneOldest_def execM_ok Let_def pruned_rows_def)
qed (use assms in \<open>simp add: prune_snapshots_def\<close>)

lemma limits_ok:
  assumes "snapshot_limits uid w = (Inr (cnt, limits), w1)"
  shows "db w1 = db w \<and> blobs w1 = blobs w \<and> now w \<le> now w1 \<and> cnt = int (length (live_snapshots (db w) uid)) \<and>
    (\<exists>u. find (\<lambda>u. u_id u = uid \<and> live_user u) (users (db w)) = Some u \<and> limits = TierLimits (u_tier u))"
proof -
  have "now w \<le> now (tick w)" and "now (tick w) \<le> now (tick (drop_fault (tick w)))"
    using tick_mono [of w] tick_mono [of "drop_fault (tick w)"] by simp_all
  then show ?thesis
    using assms
    by (auto simp: snapshot_limits_def run_ok Snapshots_CountByUser_def Users_GetByID_def queryM_ok
        live_snapshots_def split: option.splits)
qed

lemma reserve_snapshot_ok:
  assumes "reserve_snapshot_quota uid n lim w = (Inr (), w1)"
  shows "usage_frame (db w) (db w1) \<and> blobs w1 = blobs w \<and> now w \<le> now w1 \<and>
    used_bytes (db w1) uid = used_bytes (db w) uid + n \<and> used_bytes (db w1) uid \<le> lim"
proof -
  obtain w2 where run: "Quota_TryAddSnapshotUsage uid n lim w = (Inr True, w2)"
    and w1: "w1 = w2\<lparr>log := log w2 @ [RecordQuotaReservation ''snapshot'' ''success'']\<rparr>"
    using assms
    by (auto simp: reserve_snapshot_quota_def Service_TryAddSnapshotUsage_def run_ok emit_ok split: if_splits)
  show ?thesis
    using snapshot_counter.try_add_granted [OF run] w1 by (simp add: usage_call_def)
qed

text \<open>The rows after the insertion, before pruning.\<close>

lemma create_snapshot_ok:
  assumes "Snapshots_Create (snapshot_of_input uid i) w = (Inr meta, w')"
  shows "snapshots (db w') = snapshots (db w) @ [meta] \<and> blobs w' = blobs w \<and>
    snapshot_key meta \<notin> snapshot_key ` set (snapshots (db w)) \<and> live_snapshot uid meta \<and>
    now w \<le> s_created_at meta \<and> (\<exists>t. meta = (snapshot_of_input uid i)\<lparr>s_created_at := t\<rparr>)"
  using assms tick_mono [of w]
  by (auto simp: Snapshots_Create_def execM_ok snapshot_of_input_def snapshot_key_def live_snapshot_def
      split: if_splits)

lemma pruned_after_upload:
  assumes wf: "distinct (map snapshot_key (rows @ [meta]))" and live: "live_snapshot uid meta"
    and newest: "\<forall>s \<in> set rows. s_created_at s < s_created_at meta" and k: "1 \<le> k"
  shows "length (filter (live_snapshot uid) (pruned_rows uid k t (rows @ [meta]))) =
      min k (Suc (length (filter (live_snapshot uid) rows)))"
    and "meta \<in> set (filter (live_snapshot uid) (pruned_rows uid k t (rows @ [meta])))"
    and "s \<in> set (filter (live_snapshot uid) (pruned_rows uid k t (rows @ [meta]))) \<Longrightarrow> s \<in> set rows \<or> s = meta"
proof -
  show "length (filter (live_snapshot uid) (pruned_rows uid k t (rows @ [meta]))) =
      min k (Suc (length (filter (live_snapshot uid) rows)))"
    using live length_live_pruned [OF wf, of uid k t] by simp
  let ?L = "filter (live_snapshot uid) (rows @ [meta])"
  obtain rest where "newest_first ?L = meta # rest"
    using newest_first_hd [of meta ?L] live newest by auto
  with k have "meta \<in> set (take k (newest_first ?L))"
    by (cases k) auto
  with live show "meta \<in> set (filter (live_snapshot uid) (pruned_rows uid k t (rows @ [meta])))"
    by (simp add: live_pruned)
  show "s \<in> set (filter (live_snapshot uid) (pruned_rows uid k t (rows @ [meta]))) \<Longrightarrow> s \<in> set rows \<or> s = meta"
    unfolding live_pruned set_filter set_append by auto
qed

section \<open>Properties\<close>

definition sample_snapshot :: "string \<Rightarrow> snapshot_input" where
  "sample_snapshot sid =
     \<lparr>si_SnapshotID = sid, si_BaseHLC = 7, si_SizeBytes = 3, si_CipherID = 1, si_KeyGeneration = 0,
      si_Reader = ''abc'', si_ContentType = '''', si_RequestID = '''', si_TeamID = ''''\<rparr>"

text \<open>An older snapshot of the user, at the limit of the free tier, and counted.\<close>

definition snapshot_world :: world where
  "snapshot_world = world_of (sample_db\<lparr>
     snapshots := [(snapshot_of_input ''u1'' (sample_snapshot ''s0''))\<lparr>s_created_at := 50\<rparr>],
     storage_usage := [(empty_usage ''u1'')\<lparr>q_total_bytes := 3, q_snap_count := 1\<rparr>]\<rparr>) []"

lemma sample_snapshot_runs: "succeeds (UploadSnapshot None None ''u1'' (sample_snapshot ''s1'') snapshot_world)"
  by code_simp

lemma covers_snapshot_world: "covers (db snapshot_world)"
  by (simp add: covers_def artifacts_wf_def live_bytes_def live_bundle_bytes_def live_snapshot_bytes_def
      used_bytes_def usage_row_def snapshot_world_def world_of_def sample_db_def empty_db_def
      snapshot_of_input_def sample_snapshot_def live_snapshot_def empty_usage_def snapshot_key_def)





end
