(* ===== verification/Retention.thy ===== *)
theory Retention
  imports Isolation Sample
begin

text \<open>
  RetentionService of pkg/service/service.go: the dry-run reports and the two purge
  loops. The loops take their stores as interfaces in the code; here these are function
  arguments, and the locale \<open>purge_store\<close> states what a store promises. It is
  interpreted on BundleRepo and on SnapshotRepo.
\<close>

section \<open>Reports and the purge loop\<close>

text \<open>RetentionReport and SnapshotReport: the same four fields under two sets of names.\<close>

record retention_report =
  rp_Before :: time
  rp_Expired :: int
  rp_ExpiredBytes :: int
  rp_Failed :: int

definition retentionCleanupBatchSize :: int where
  "retentionCleanupBatchSize = 100"

definition ReportExpiredBundles :: "duration \<Rightarrow> retention_report app" where
  "ReportExpiredBundles grace =
     bindM time_Now (\<lambda>t. let before = t - grace in
     bindM (wrapM ''count expired bundles'' (Bundles_CountDeletedBefore before)) (\<lambda>(n, bytes).
     retM \<lparr>rp_Before = before, rp_Expired = n, rp_ExpiredBytes = bytes, rp_Failed = 0\<rparr>))"

definition ReportExpiredSnapshots :: "duration \<Rightarrow> retention_report app" where
  "ReportExpiredSnapshots grace =
     bindM time_Now (\<lambda>t. let before = t - grace in
     bindM (wrapM ''count expired snapshots'' (Snapshots_CountDeletedBefore before)) (\<lambda>(n, bytes).
     retM \<lparr>rp_Before = before, rp_Expired = n, rp_ExpiredBytes = bytes, rp_Failed = 0\<rparr>))"

text \<open>One turn of the loop: the blob first, then the row; the first failure counts once.\<close>

definition purge_step :: "unit app \<Rightarrow> unit app \<Rightarrow> int \<Rightarrow> retention_report \<Rightarrow> retention_report app" where
  "purge_step deleteBlob hardDelete bytes report =
     bindM (tryM deleteBlob) (\<lambda>r.
     case r of
       Inl e \<Rightarrow> retM (report\<lparr>rp_Failed := rp_Failed report + 1\<rparr>)
     | Inr u \<Rightarrow>
         bindM (tryM hardDelete) (\<lambda>q.
         case q of
           Inl e \<Rightarrow> retM (report\<lparr>rp_Failed := rp_Failed report + 1\<rparr>)
         | Inr v \<Rightarrow> retM (report\<lparr>rp_Expired := rp_Expired report + 1,
                                 rp_ExpiredBytes := rp_ExpiredBytes report + bytes\<rparr>)))"

definition purgeExpiredBundles ::
  "(time \<Rightarrow> int \<Rightarrow> bundle_meta list app) \<Rightarrow> (uuid \<Rightarrow> string \<Rightarrow> unit app) \<Rightarrow> (string \<Rightarrow> unit app) \<Rightarrow>
   time \<Rightarrow> retention_report app" where
  "purgeExpiredBundles listDeleted hardDelete deleteBlob before =
     thenM ctx_Err
     (bindM (wrapM ''list expired bundles'' (listDeleted before retentionCleanupBatchSize)) (\<lambda>batch.
      forM batch \<lparr>rp_Before = before, rp_Expired = 0, rp_ExpiredBytes = 0, rp_Failed = 0\<rparr> (\<lambda>b report.
        purge_step (deleteBlob (BundleKey (b_user_id b) (b_bundle_id b)))
                   (hardDelete (b_user_id b) (b_bundle_id b)) (b_size_bytes b) report)))"

definition purgeExpiredSnapshots ::
  "(time \<Rightarrow> int \<Rightarrow> snapshot_meta list app) \<Rightarrow> (uuid \<Rightarrow> string \<Rightarrow> unit app) \<Rightarrow> (string \<Rightarrow> unit app) \<Rightarrow>
   time \<Rightarrow> retention_report app" where
  "purgeExpiredSnapshots listDeleted hardDelete deleteBlob before =
     thenM ctx_Err
     (bindM (wrapM ''list expired snapshots'' (listDeleted before retentionCleanupBatchSize)) (\<lambda>batch.
      forM batch \<lparr>rp_Before = before, rp_Expired = 0, rp_ExpiredBytes = 0, rp_Failed = 0\<rparr> (\<lambda>s report.
        purge_step (deleteBlob (SnapshotKey (s_user_id s) (s_snapshot_id s)))
                   (hardDelete (s_user_id s) (s_snapshot_id s)) (s_size_bytes s) report)))"

definition PurgeExpiredBundles :: "duration \<Rightarrow> retention_report app" where
  "PurgeExpiredBundles grace =
     bindM time_Now (\<lambda>t. purgeExpiredBundles Bundles_ListDeletedBefore Bundles_HardDelete Blob_Delete (t - grace))"

definition PurgeExpiredSnapshots :: "duration \<Rightarrow> retention_report app" where
  "PurgeExpiredSnapshots grace =
     bindM time_Now (\<lambda>t. purgeExpiredSnapshots Snapshots_ListDeletedBefore Snapshots_HardDelete Blob_Delete (t - grace))"

section \<open>What a purge relies on\<close>

locale purge_store =
  fixes list_deleted :: "time \<Rightarrow> int \<Rightarrow> 'r list app"
    and hard_delete :: "'r \<Rightarrow> unit app"
    and blob_key :: "'r \<Rightarrow> string"
    and rows :: "db \<Rightarrow> 'r list"
    and key :: "'r \<Rightarrow> 'k"
    and deleted_at :: "'r \<Rightarrow> time option"
    and bytes :: "'r \<Rightarrow> int"
  assumes list_spec:
    "hoareM (\<lambda>w. rows (db w) = rs \<and> blobs w = b) (list_deleted before n)
       (\<lambda>batch w. rows (db w) = rs \<and> blobs w = b \<and> (1 \<le> n \<and> n \<le> 1000 \<longrightarrow> length batch \<le> nat n) \<and>
          set batch \<subseteq> {r \<in> set rs. deleted_before before (deleted_at r)})
       (\<lambda>_ w. rows (db w) = rs \<and> blobs w = b)"
    and delete_spec:
    "hoareM (\<lambda>w. rows (db w) = rs \<and> blobs w = b) (hard_delete r)
       (\<lambda>_ w. rows (db w) = filter (\<lambda>x. key x \<noteq> key r) rs \<and> blobs w = b)
       (\<lambda>_ w. rows (db w) = rs \<and> blobs w = b)"
begin

definition loop :: "'r list \<Rightarrow> retention_report \<Rightarrow> retention_report app" where
  "loop batch report0 = forM batch report0
     (\<lambda>r report. purge_step (Blob_Delete (blob_key r)) (hard_delete r) (bytes r) report)"

text \<open>
  What a run over \<open>batch\<close> did to the rows \<open>rs\<close> and the objects \<open>b\<close>: the rows whose keys
  are those of \<open>purged\<close> are gone, and so are their objects; no other row changed, and
  every other object that changed belongs to a row of the batch.
\<close>

definition purged :: "'r list \<Rightarrow> 'r list \<Rightarrow> (string \<rightharpoonup> bytes) \<Rightarrow> 'r list \<Rightarrow> db \<Rightarrow> (string \<rightharpoonup> bytes) \<Rightarrow> bool" where
  "purged batch rs b gone d b' \<longleftrightarrow>
     set gone \<subseteq> set batch \<and>
     rows d = filter (\<lambda>x. key x \<notin> key ` set gone) rs \<and>
     (\<forall>r \<in> set gone. b' (blob_key r) = None) \<and>
     (\<forall>k. b' k = b k \<or> (b' k = None \<and> k \<in> blob_key ` set batch))"

definition tally :: "retention_report \<Rightarrow> 'r list \<Rightarrow> nat \<Rightarrow> retention_report \<Rightarrow> bool" where
  "tally report0 gone n report \<longleftrightarrow> length gone \<le> n \<and>
     rp_Expired report = rp_Expired report0 + int (length gone) \<and>
     rp_ExpiredBytes report = rp_ExpiredBytes report0 + sum_by bytes gone \<and>
     rp_Failed report = rp_Failed report0 + int n - int (length gone) \<and>
     rp_Before report = rp_Before report0"

lemma purge_step_spec:
  "hoareM (\<lambda>w. rows (db w) = rs \<and> blobs w = b)
     (purge_step (Blob_Delete (blob_key r)) (hard_delete r) (bytes r) report0)
     (\<lambda>report w. \<exists>gone. (gone = [] \<or> gone = [r]) \<and> purged [r] rs b gone (db w) (blobs w) \<and> tally report0 gone 1 report)
     (\<lambda>_ _. False)"
proof -
  have del: "hoareM (\<lambda>w. rows (db w) = rs \<and> blobs w = b) (tryM (Blob_Delete (blob_key r)))
      (\<lambda>x w. rows (db w) = rs \<and> blobs w = (case x of Inl e \<Rightarrow> b | Inr u \<Rightarrow> b(blob_key r := None))) (\<lambda>_ _. False)"
    by (auto simp: hoareM_def wp)
  have row: "hoareM (\<lambda>w. rows (db w) = rs \<and> blobs w = b(blob_key r := None)) (tryM (hard_delete r))
      (\<lambda>x w. rows (db w) = (case x of Inl e \<Rightarrow> rs | Inr u \<Rightarrow> filter (\<lambda>x. key x \<noteq> key r) rs) \<and>
             blobs w = b(blob_key r := None)) (\<lambda>_ _. False)"
    by (rule hoare_try, rule hoare_post [OF delete_spec]) auto
  show ?thesis
    unfolding purge_step_def
    apply (rule hoare_bind, rule del)
    subgoal for x
      apply (cases x)
       apply (simp, rule hoare_ret, rule exI [where x = "[]"], simp add: purged_def tally_def)
      apply (simp, rule hoare_bind, rule row)
      subgoal for y
        apply (cases y)
         apply (simp, rule hoare_ret, rule exI [where x = "[]"], simp add: purged_def tally_def)
        apply (simp, rule hoare_ret, rule exI [where x = "[r]"], simp add: purged_def tally_def)
        done
      done
    done
qed

lemma purged_chain:
  assumes "purged [r] rs b g1 d1 b1" and "purged batch (rows d1) b1 g2 d2 b2"
  shows "purged (r # batch) rs b (g1 @ g2) d2 b2"
proof -
  have "rows d2 = filter (\<lambda>x. key x \<notin> key ` set (g1 @ g2)) rs"
    using assms by (auto simp: purged_def intro: filter_cong)
  moreover have "\<forall>x \<in> set (g1 @ g2). b2 (blob_key x) = None"
    using assms unfolding purged_def by (metis Un_iff set_append)
  moreover have "\<forall>k. b2 k = b k \<or> (b2 k = None \<and> k \<in> blob_key ` set (r # batch))"
  proof
    fix k
    have "b1 k = b k \<or> (b1 k = None \<and> k = blob_key r)" and "b2 k = b1 k \<or> (b2 k = None \<and> k \<in> blob_key ` set batch)"
      using assms by (auto simp: purged_def)
    then show "b2 k = b k \<or> (b2 k = None \<and> k \<in> blob_key ` set (r # batch))"
      by auto
  qed
  ultimately show ?thesis
    using assms by (auto simp: purged_def)
qed

lemma tally_chain:
  assumes "tally r0 g1 1 r1" and "tally r1 g2 n r2"
  shows "tally r0 (g1 @ g2) (Suc n) r2"
  using assms by (simp add: tally_def)

lemma loop_spec:
  "hoareM (\<lambda>w. rows (db w) = rs \<and> blobs w = b) (loop batch report0)
     (\<lambda>report w. \<exists>gone. purged batch rs b gone (db w) (blobs w) \<and> tally report0 gone (length batch) report)
     (\<lambda>_ _. False)"
proof (induction batch arbitrary: rs b report0)
  case Nil
  show ?case
    unfolding loop_def forM.simps
    by (rule hoare_ret, rule exI [where x = "[]"]) (simp add: purged_def tally_def)
next
  case (Cons r batch)
  show ?case
    unfolding loop_def forM.simps
  proof (rule hoare_bind, rule purge_step_spec)
    fix report1
    show "hoareM (\<lambda>w. \<exists>gone. (gone = [] \<or> gone = [r]) \<and> purged [r] rs b gone (db w) (blobs w) \<and> tally report0 gone 1 report1)
       (forM batch report1 (\<lambda>r report. purge_step (Blob_Delete (blob_key r)) (hard_delete r) (bytes r) report))
       (\<lambda>report w. \<exists>gone. purged (r # batch) rs b gone (db w) (blobs w) \<and> tally report0 gone (length (r # batch)) report)
       (\<lambda>_ _. False)"
    proof (rule hoareI)
      fix w :: world
      assume "\<exists>gone. (gone = [] \<or> gone = [r]) \<and> purged [r] rs b gone (db w) (blobs w) \<and> tally report0 gone 1 report1"
      then obtain g1 where g1: "purged [r] rs b g1 (db w) (blobs w)" "tally report0 g1 1 report1"
        by blast
      have "wpM (loop batch report1)
          (\<lambda>report w'. \<exists>gone. purged batch (rows (db w)) (blobs w) gone (db w') (blobs w') \<and> tally report1 gone (length batch) report)
          (\<lambda>_ _. False) w"
        by (rule hoareD [OF Cons.IH]) simp
      then show "wpM (forM batch report1 (\<lambda>r report. purge_step (Blob_Delete (blob_key r)) (hard_delete r) (bytes r) report))
         (\<lambda>report w. \<exists>gone. purged (r # batch) rs b gone (db w) (blobs w) \<and> tally report0 gone (length (r # batch)) report)
         (\<lambda>_ _. False) w"
        unfolding loop_def
        by (rule wpM_mono) (use g1 purged_chain tally_chain in fastforce)+
    qed
  qed
qed

definition empty_report :: "time \<Rightarrow> retention_report" where
  "empty_report before = \<lparr>rp_Before = before, rp_Expired = 0, rp_ExpiredBytes = 0, rp_Failed = 0\<rparr>"

text \<open>A whole run: a page of at most 100 rows that are due, and what became of them.\<close>

definition run_spec :: "time \<Rightarrow> 'r list \<Rightarrow> (string \<rightharpoonup> bytes) \<Rightarrow> 'r list \<Rightarrow> 'r list \<Rightarrow> retention_report \<Rightarrow> db \<Rightarrow> (string \<rightharpoonup> bytes) \<Rightarrow> bool" where
  "run_spec before rs b batch gone report d b' \<longleftrightarrow>
     length batch \<le> 100 \<and> set batch \<subseteq> {r \<in> set rs. deleted_before before (deleted_at r)} \<and>
     purged batch rs b gone d b' \<and> tally (empty_report before) gone (length batch) report"

lemma run_hoare:
  "hoareM (\<lambda>w. rows (db w) = rs \<and> blobs w = b)
     (thenM ctx_Err (bindM (wrapM msg (list_deleted before retentionCleanupBatchSize)) (\<lambda>batch.
        loop batch (empty_report before))))
     (\<lambda>report w. \<exists>batch gone. run_spec before rs b batch gone report (db w) (blobs w))
     (\<lambda>_ w. rows (db w) = rs \<and> blobs w = b)"
proof -
  have ctx: "hoareM (\<lambda>w. rows (db w) = rs \<and> blobs w = b) ctx_Err
      (\<lambda>_ w. rows (db w) = rs \<and> blobs w = b) (\<lambda>_ w. rows (db w) = rs \<and> blobs w = b)"
    by (auto simp: hoareM_def wpM_def ctx_Err_def)
  have page: "hoareM (\<lambda>w. rows (db w) = rs \<and> blobs w = b) (wrapM msg (list_deleted before retentionCleanupBatchSize))
      (\<lambda>batch w. (rows (db w) = rs \<and> blobs w = b) \<and>
         (length batch \<le> 100 \<and> set batch \<subseteq> {r \<in> set rs. deleted_before before (deleted_at r)}))
      (\<lambda>_ w. rows (db w) = rs \<and> blobs w = b)"
    by (rule hoare_wrap, rule hoare_post [OF list_spec]) (auto simp: retentionCleanupBatchSize_def)
  have rest: "hoareM (\<lambda>w. (rows (db w) = rs \<and> blobs w = b) \<and>
         (length batch \<le> 100 \<and> set batch \<subseteq> {r \<in> set rs. deleted_before before (deleted_at r)}))
      (loop batch (empty_report before))
      (\<lambda>report w. \<exists>batch gone. run_spec before rs b batch gone report (db w) (blobs w))
      (\<lambda>_ w. rows (db w) = rs \<and> blobs w = b)" for batch
  proof (rule hoareI)
    fix w :: world
    assume pre: "(rows (db w) = rs \<and> blobs w = b) \<and>
         (length batch \<le> 100 \<and> set batch \<subseteq> {r \<in> set rs. deleted_before before (deleted_at r)})"
    show "wpM (loop batch (empty_report before))
        (\<lambda>report w. \<exists>batch gone. run_spec before rs b batch gone report (db w) (blobs w))
        (\<lambda>_ w. rows (db w) = rs \<and> blobs w = b) w"
      by (rule wpM_mono [OF hoareD [OF loop_spec [of rs b]]]) (use pre in \<open>auto simp: run_spec_def\<close>)
  qed
  show ?thesis
    by (rule hoare_then [OF ctx], rule hoare_bind [OF page rest])
qed

text \<open>
  Rows and objects stay together: if every object at a row's key has its row, it still
  has it after a run, whether the run succeeds or not.
\<close>

definition no_orphan :: "'k set \<Rightarrow> ('k \<Rightarrow> string) \<Rightarrow> 'r list \<Rightarrow> (string \<rightharpoonup> bytes) \<Rightarrow> bool" where
  "no_orphan K kstr rs b \<longleftrightarrow> (\<forall>k \<in> K. b (kstr k) \<noteq> None \<longrightarrow> k \<in> key ` set rs)"

lemma purged_no_orphan:
  assumes "no_orphan K kstr rs b" and "purged batch rs b gone d b'" and "\<And>r. blob_key r = kstr (key r)"
  shows "no_orphan K kstr (rows d) b'"
  unfolding no_orphan_def
proof (intro ballI impI)
  fix k
  assume k: "k \<in> K" "b' (kstr k) \<noteq> None"
  then have "b (kstr k) \<noteq> None"
    using assms(2) unfolding purged_def by metis
  with assms(1) k obtain r where r: "r \<in> set rs" "key r = k"
    by (auto simp: no_orphan_def)
  have "k \<notin> key ` set gone"
    using assms(2,3) k(2) unfolding purged_def by (metis imageE)
  with r assms(2) show "k \<in> key ` set (rows d)"
    by (auto simp: purged_def)
qed

end

section \<open>The two stores\<close>

lemma take_sorted_subset: "set (take n (sort_key f (filter P xs))) \<subseteq> {x \<in> set xs. P x}"
  using set_take_subset [of n "sort_key f (filter P xs)"] by auto

interpretation bundle_purge: purge_store
  Bundles_ListDeletedBefore "\<lambda>b. Bundles_HardDelete (b_user_id b) (b_bundle_id b)"
  "\<lambda>b. BundleKey (b_user_id b) (b_bundle_id b)" bundles bundle_key b_deleted_at b_size_bytes
proof unfold_locales
  fix rs b before n
  show "hoareM (\<lambda>w. bundles (db w) = rs \<and> blobs w = b) (Bundles_ListDeletedBefore before n)
     (\<lambda>batch w. bundles (db w) = rs \<and> blobs w = b \<and> (1 \<le> n \<and> n \<le> 1000 \<longrightarrow> length batch \<le> nat n) \<and>
        set batch \<subseteq> {r \<in> set rs. deleted_before before (b_deleted_at r)})
     (\<lambda>_ w. bundles (db w) = rs \<and> blobs w = b)"
    using take_sorted_subset [of _ "\<lambda>b. deleted_time (b_deleted_at b)" "\<lambda>b. deleted_before before (b_deleted_at b)"]
    by (auto simp: hoareM_def Bundles_ListDeletedBefore_def queryM_def wp Let_def normalizeRetentionBatchLimit_def)
next
  fix rs b r
  show "hoareM (\<lambda>w. bundles (db w) = rs \<and> blobs w = b) (Bundles_HardDelete (b_user_id r) (b_bundle_id r))
     (\<lambda>_ w. bundles (db w) = filter (\<lambda>x. bundle_key x \<noteq> bundle_key r) rs \<and> blobs w = b)
     (\<lambda>_ w. bundles (db w) = rs \<and> blobs w = b)"
    by (auto simp: hoareM_def Bundles_HardDelete_def wp Let_def delete_where_def bundle_key_def)
qed

interpretation snapshot_purge: purge_store
  Snapshots_ListDeletedBefore "\<lambda>s. Snapshots_HardDelete (s_user_id s) (s_snapshot_id s)"
  "\<lambda>s. SnapshotKey (s_user_id s) (s_snapshot_id s)" snapshots snapshot_key s_deleted_at s_size_bytes
proof unfold_locales
  fix rs b before n
  show "hoareM (\<lambda>w. snapshots (db w) = rs \<and> blobs w = b) (Snapshots_ListDeletedBefore before n)
     (\<lambda>batch w. snapshots (db w) = rs \<and> blobs w = b \<and> (1 \<le> n \<and> n \<le> 1000 \<longrightarrow> length batch \<le> nat n) \<and>
        set batch \<subseteq> {r \<in> set rs. deleted_before before (s_deleted_at r)})
     (\<lambda>_ w. snapshots (db w) = rs \<and> blobs w = b)"
    using take_sorted_subset [of _ "\<lambda>b. deleted_time (s_deleted_at b)" "\<lambda>b. deleted_before before (s_deleted_at b)"]
    by (auto simp: hoareM_def Snapshots_ListDeletedBefore_def queryM_def wp Let_def normalizeRetentionBatchLimit_def)
next
  fix rs b r
  show "hoareM (\<lambda>w. snapshots (db w) = rs \<and> blobs w = b) (Snapshots_HardDelete (s_user_id r) (s_snapshot_id r))
     (\<lambda>_ w. snapshots (db w) = filter (\<lambda>x. snapshot_key x \<noteq> snapshot_key r) rs \<and> blobs w = b)
     (\<lambda>_ w. snapshots (db w) = rs \<and> blobs w = b)"
    by (auto simp: hoareM_def Snapshots_HardDelete_def wp Let_def delete_where_def snapshot_key_def)
qed

lemma bundle_loop: "purgeExpiredBundles Bundles_ListDeletedBefore Bundles_HardDelete Blob_Delete before =
   thenM ctx_Err (bindM (wrapM ''list expired bundles'' (Bundles_ListDeletedBefore before retentionCleanupBatchSize))
     (\<lambda>batch. bundle_purge.loop batch (bundle_purge.empty_report before)))"
  by (simp add: purgeExpiredBundles_def bundle_purge.loop_def bundle_purge.empty_report_def)

lemma snapshot_loop: "purgeExpiredSnapshots Snapshots_ListDeletedBefore Snapshots_HardDelete Blob_Delete before =
   thenM ctx_Err (bindM (wrapM ''list expired snapshots'' (Snapshots_ListDeletedBefore before retentionCleanupBatchSize))
     (\<lambda>batch. snapshot_purge.loop batch (snapshot_purge.empty_report before)))"
  by (simp add: purgeExpiredSnapshots_def snapshot_purge.loop_def snapshot_purge.empty_report_def)

lemma PurgeExpiredBundles_run:
  "hoareM (\<lambda>w. bundles (db w) = rs \<and> blobs w = b \<and> now w \<ge> t0) (PurgeExpiredBundles grace)
     (\<lambda>report w. \<exists>t batch gone. t0 \<le> t \<and> bundle_purge.run_spec (t - grace) rs b batch gone report (db w) (blobs w))
     (\<lambda>_ w. bundles (db w) = rs \<and> blobs w = b)"
proof -
  have clock: "hoareM (\<lambda>w. bundles (db w) = rs \<and> blobs w = b \<and> now w \<ge> t0) time_Now
      (\<lambda>t w. t0 \<le> t \<and> bundles (db w) = rs \<and> blobs w = b) (\<lambda>_ w. bundles (db w) = rs \<and> blobs w = b)"
    using tick_mono order.trans by (fastforce simp: hoareM_def wp)
  have rest: "hoareM (\<lambda>w. t0 \<le> t \<and> bundles (db w) = rs \<and> blobs w = b)
      (purgeExpiredBundles Bundles_ListDeletedBefore Bundles_HardDelete Blob_Delete (t - grace))
      (\<lambda>report w. \<exists>t batch gone. t0 \<le> t \<and> bundle_purge.run_spec (t - grace) rs b batch gone report (db w) (blobs w))
      (\<lambda>_ w. bundles (db w) = rs \<and> blobs w = b)" for t
  proof (cases "t0 \<le> t")
    case True
    then show ?thesis
      unfolding bundle_loop
      by (intro hoare_conseq [OF bundle_purge.run_hoare [of rs b]]) auto
  qed (simp add: hoareM_def)
  show ?thesis
    unfolding PurgeExpiredBundles_def by (rule hoare_bind [OF clock rest])
qed

section \<open>Properties\<close>

text \<open>Every object under a bundle key has a row, live or soft-deleted.\<close>

definition no_orphan_bundles :: "db \<Rightarrow> (string \<rightharpoonup> bytes) \<Rightarrow> bool" where
  "no_orphan_bundles d b \<longleftrightarrow>
     (\<forall>uid bid. segment uid \<longrightarrow> b (BundleKey uid bid) \<noteq> None \<longrightarrow> (uid, bid) \<in> bundle_key ` set (bundles d))"

lemma no_orphan_bundles_alt:
  "no_orphan_bundles d b = bundle_purge.no_orphan {k. segment (fst k)} (\<lambda>(u, i). BundleKey u i) (bundles d) b"
  by (auto simp: no_orphan_bundles_def bundle_purge.no_orphan_def)


definition expired_world :: world where
  "expired_world = (world_of (sample_db\<lparr>bundles :=
     [\<lparr>b_bundle_id = ''b0'', b_user_id = ''u1'', b_uploader_device_uuid = ''d1'', b_lamport_lo = 1, b_lamport_hi = 2,
       b_event_count = 1, b_size_bytes = 4, b_cipher_id = 1, b_key_generation = 0, b_uploaded_at = 1,
       b_deleted_at = Some 10\<rparr>]\<rparr>) [])\<lparr>blobs := [BundleKey ''u1'' ''b0'' \<mapsto> ''data'']\<rparr>"

lemma expired_world_wf: "artifacts_wf (db expired_world)"
  by (simp add: expired_world_def world_of_def sample_db_def empty_db_def artifacts_wf_def)


text \<open>
  C14. A purge never orphans an object, even if it fails or is cut short: if every object
  under a bundle key had its row, it still has it afterwards.
\<close>

theorem purge_leaves_no_orphan:
  assumes "no_orphan_bundles (db w) (blobs w)" and "PurgeExpiredBundles grace w = (r, w')"
  shows "no_orphan_bundles (db w') (blobs w')"
proof (cases r)
  case (Inl e)
  with assms(2) hoare_error [OF PurgeExpiredBundles_run [where ?t0.0 = "now w" and rs = "bundles (db w)" and b = "blobs w"]]
  have "bundles (db w') = bundles (db w)" and "blobs w' = blobs w"
    by blast+
  with assms(1) show ?thesis
    by (simp add: no_orphan_bundles_def)
next
  case (Inr report)
  with assms(2) hoare_ok [OF PurgeExpiredBundles_run [where ?t0.0 = "now w" and rs = "bundles (db w)" and b = "blobs w"]]
  obtain t batch gone where "bundle_purge.run_spec (t - grace) (bundles (db w)) (blobs w) batch gone report (db w') (blobs w')"
    by blast
  then have "bundle_purge.purged batch (bundles (db w)) (blobs w) gone (db w') (blobs w')"
    by (simp add: bundle_purge.run_spec_def)
  with assms(1) show ?thesis
    unfolding no_orphan_bundles_alt
    by (rule bundle_purge.purged_no_orphan) (simp add: bundle_key_def)
qed

theorem purge_leaves_no_orphan_witness:
  "no_orphan_bundles (db (snd (PurgeExpiredBundles 50 expired_world))) (blobs (snd (PurgeExpiredBundles 50 expired_world)))"
proof (rule purge_leaves_no_orphan [where w = expired_world and r = "fst (PurgeExpiredBundles 50 expired_world)"])
  show "no_orphan_bundles (db expired_world) (blobs expired_world)"
    unfolding no_orphan_bundles_def
  proof (intro allI impI)
    fix uid bid
    assume "segment uid" and "blobs expired_world (BundleKey uid bid) \<noteq> None"
    then have "BundleKey uid bid = BundleKey ''u1'' ''b0''"
      by (auto simp: expired_world_def split: if_splits)
    moreover have "segment ''u1''"
      by (simp add: segment_def)
    ultimately have "(uid, bid) = (''u1'', ''b0'')"
      using \<open>segment uid\<close> BundleKey_inj by blast
    then show "(uid, bid) \<in> bundle_key ` set (bundles (db expired_world))"
      by (simp add: expired_world_def world_of_def bundle_key_def)
  qed
qed simp

end
