(* ===== verification/AuditLog.thy ===== *)
theory AuditLog
  imports Sample "HOL-Library.Sublist"
begin

text \<open>
  AuditService (pkg/service/audit.go) and AuditRepo (pkg/repository/audit.go): the
  redaction of metadata before it is stored, the insertion of an event and the two
  listings. A metadata value of type \<open>any\<close> is one of the shapes the redaction looks
  into, or a value of another Go type (a number, a string, a struct, a typed slice),
  \<open>Opaque\<close>, which it stores as \<open>json.Marshal\<close> renders it. A Go map is the list of its
  entries.
\<close>

section \<open>Metadata\<close>

datatype go_any =
    AnyMap "(string \<times> go_any) list"
  | StrMap "(string \<times> string) list"
  | AnySlice "go_any list"
  | Opaque json

definition sensitive_text :: "string \<Rightarrow> bool" where
  "sensitive_text normalized =
     (if normalized = '''' then False
      else if normalized = ''code'' \<or> normalized = ''totp'' \<or> normalized = ''cookie'' then True
      else (\<exists>marker \<in> set [''password'', ''secret'', ''token'', ''turnstile'', ''authorization'', ''backup_code''].
              sublist marker normalized))"

definition isSensitiveAuditMetadataKey :: "string \<Rightarrow> bool" where
  "isSensitiveAuditMetadataKey key = sensitive_text (ToLower (TrimSpace key))"

fun sanitizeAuditMetadata :: "(string \<times> go_any) list \<Rightarrow> (string \<times> go_any) list"
  and sanitizeAuditMetadataValue :: "go_any \<Rightarrow> go_any"
  and sanitize_items :: "go_any list \<Rightarrow> go_any list" where
  "sanitizeAuditMetadata [] = []"
| "sanitizeAuditMetadata ((key, v) # rest) =
     (if isSensitiveAuditMetadataKey key then sanitizeAuditMetadata rest
      else (key, sanitizeAuditMetadataValue v) # sanitizeAuditMetadata rest)"
| "sanitizeAuditMetadataValue (AnyMap typed) = AnyMap (sanitizeAuditMetadata typed)"
| "sanitizeAuditMetadataValue (StrMap typed) =
     AnyMap (map (\<lambda>(key, s). (key, Opaque (JStr s)))
       (filter (\<lambda>(key, s). \<not> isSensitiveAuditMetadataKey key) typed))"
| "sanitizeAuditMetadataValue (AnySlice typed) = AnySlice (sanitize_items typed)"
| "sanitizeAuditMetadataValue (Opaque j) = Opaque j"
| "sanitize_items [] = []"
| "sanitize_items (item # rest) = sanitizeAuditMetadataValue item # sanitize_items rest"

text \<open>\<open>json.Marshal\<close>\<close>

fun encodeAuditMetadata :: "(string \<times> go_any) list \<Rightarrow> (string \<times> json) list"
  and json_of :: "go_any \<Rightarrow> json"
  and json_items :: "go_any list \<Rightarrow> json list" where
  "encodeAuditMetadata [] = []"
| "encodeAuditMetadata ((key, v) # rest) = (key, json_of v) # encodeAuditMetadata rest"
| "json_of (AnyMap kvs) = JObj (encodeAuditMetadata kvs)"
| "json_of (StrMap kvs) = JObj (map (\<lambda>(k, s). (k, JStr s)) kvs)"
| "json_of (AnySlice xs) = JArr (json_items xs)"
| "json_of (Opaque j) = j"
| "json_items [] = []"
| "json_items (x # xs) = json_of x # json_items xs"

section \<open>AuditRepo\<close>

definition maxAuditListLimit :: int where "maxAuditListLimit = 200"
definition defaultAuditListLimit :: int where "defaultAuditListLimit = 50"

record audit_filter =
  af_ActorUserID :: "uuid option"
  af_EventType :: string
  af_TargetType :: string
  af_TargetID :: string
  af_Limit :: int
  af_Offset :: int

text \<open>
  The event of \<open>Create\<close> has the Go values of its metadata; the row has their JSON. The
  actor must be a user (a foreign key).
\<close>

record audit_event =
  ae_ActorUserID :: "uuid option"
  ae_EventType :: string
  ae_TargetType :: string
  ae_TargetID :: string
  ae_IP :: string
  ae_UserAgent :: string
  ae_Metadata :: "(string \<times> go_any) list"

definition audit_row :: "audit_event \<Rightarrow> uuid \<Rightarrow> time \<Rightarrow> audit_log" where
  "audit_row e i t =
     \<lparr>al_id = i, al_actor_user_id = ae_ActorUserID e, al_event_type = ae_EventType e,
      al_target_type = ae_TargetType e, al_target_id = ae_TargetID e, al_ip = ae_IP e,
      al_user_agent = ae_UserAgent e, al_metadata = encodeAuditMetadata (ae_Metadata e), al_created_at = t\<rparr>"

definition Audit_Create :: "audit_event \<Rightarrow> unit app" where
  "Audit_Create e = execM (\<lambda>t d.
     let (i, d') = gen_random_uuid d in
     if \<exists>r \<in> set (audit_logs d). al_id r = i then Inl unique_violation
     else if \<exists>a \<in> set_option (ae_ActorUserID e). \<not> user_exists d a then Inl fk_violation
     else Inr ((), d'\<lparr>audit_logs := audit_logs d @ [audit_row e i t]\<rparr>))"

definition normalizeAuditListFilter :: "audit_filter \<Rightarrow> audit_filter" where
  "normalizeAuditListFilter f0 =
     (let f = (if af_Limit f0 \<le> 0 \<or> af_Limit f0 > maxAuditListLimit
               then f0\<lparr>af_Limit := defaultAuditListLimit\<rparr> else f0) in
      if af_Offset f < 0 then f\<lparr>af_Offset := 0\<rparr> else f)"

text \<open>\<open>ORDER BY created_at DESC, id DESC\<close>\<close>

definition newest_audit :: "audit_log list \<Rightarrow> audit_log list" where
  "newest_audit rows = sort_key (\<lambda>r. - al_created_at r) (rev (sort_key al_id rows))"

definition audit_matches :: "audit_filter \<Rightarrow> audit_log \<Rightarrow> bool" where
  "audit_matches f r \<longleftrightarrow>
     (af_ActorUserID f \<noteq> None \<longrightarrow> al_actor_user_id r = af_ActorUserID f) \<and>
     (af_EventType f \<noteq> '''' \<longrightarrow> al_event_type r = af_EventType f) \<and>
     (af_TargetType f \<noteq> '''' \<longrightarrow> al_target_type r = af_TargetType f) \<and>
     (af_TargetID f \<noteq> '''' \<longrightarrow> al_target_id r = af_TargetID f)"

definition Audit_List :: "audit_filter \<Rightarrow> audit_log list app" where
  "Audit_List f0 = (let f = normalizeAuditListFilter f0 in
     wrapM ''list audit logs'' (queryM (\<lambda>t d.
       take (nat (af_Limit f)) (drop (nat (af_Offset f))
         (newest_audit (filter (audit_matches f) (audit_logs d)))))))"

definition visible_to :: "uuid \<Rightarrow> audit_log \<Rightarrow> bool" where
  "visible_to uid r \<longleftrightarrow> al_actor_user_id r = Some uid \<or> al_target_type r = ''user'' \<and> al_target_id r = uid"

definition Audit_ListVisibleByUser :: "uuid \<Rightarrow> int \<Rightarrow> audit_log list app" where
  "Audit_ListVisibleByUser uid limit0 =
     (let limit = (if limit0 \<le> 0 \<or> limit0 > maxAuditListLimit then defaultAuditListLimit else limit0) in
      wrapM ''list visible audit logs'' (queryM (\<lambda>t d.
        take (nat limit) (newest_audit (filter (visible_to uid) (audit_logs d))))))"

section \<open>AuditService\<close>

text \<open>\<open>AuditEventInput\<close> has the fields of the event.\<close>

definition audit_of_input :: "audit_event \<Rightarrow> audit_event" where
  "audit_of_input i =
     \<lparr>ae_ActorUserID = ae_ActorUserID i, ae_EventType = ae_EventType i,
      ae_TargetType = TrimSpace (ae_TargetType i), ae_TargetID = TrimSpace (ae_TargetID i),
      ae_IP = TrimSpace (ae_IP i), ae_UserAgent = TrimSpace (ae_UserAgent i),
      ae_Metadata = sanitizeAuditMetadata (ae_Metadata i)\<rparr>"

definition Audit_Record :: "audit_event \<Rightarrow> unit app" where
  "Audit_Record i =
     (if ae_EventType i = '''' then errM (ErrMsg ''audit event type is required'')
      else Audit_Create (audit_of_input i))"

definition AuditService_List :: "audit_filter \<Rightarrow> audit_log list app" where
  "AuditService_List f = Audit_List f"

section \<open>Redaction\<close>

text \<open>
  \<open>clean\<close>: no object inside the value, at any depth, has a sensitive key. \<open>opaque_clean\<close>
  asks it of the values the redaction does not look into.
\<close>

fun json_clean :: "json \<Rightarrow> bool"
  and entries_clean :: "(string \<times> json) list \<Rightarrow> bool"
  and items_clean :: "json list \<Rightarrow> bool" where
  "json_clean (JObj kvs) = entries_clean kvs"
| "json_clean (JArr xs) = items_clean xs"
| "json_clean _ = True"
| "entries_clean [] = True"
| "entries_clean ((k, v) # rest) = (\<not> isSensitiveAuditMetadataKey k \<and> json_clean v \<and> entries_clean rest)"
| "items_clean [] = True"
| "items_clean (x # xs) = (json_clean x \<and> items_clean xs)"

fun opaque_clean :: "(string \<times> go_any) list \<Rightarrow> bool"
  and opaque_clean_value :: "go_any \<Rightarrow> bool"
  and opaque_clean_items :: "go_any list \<Rightarrow> bool" where
  "opaque_clean [] = True"
| "opaque_clean ((k, v) # rest) = (opaque_clean_value v \<and> opaque_clean rest)"
| "opaque_clean_value (AnyMap kvs) = opaque_clean kvs"
| "opaque_clean_value (StrMap kvs) = True"
| "opaque_clean_value (AnySlice xs) = opaque_clean_items xs"
| "opaque_clean_value (Opaque j) = json_clean j"
| "opaque_clean_items [] = True"
| "opaque_clean_items (x # xs) = (opaque_clean_value x \<and> opaque_clean_items xs)"

lemma entries_clean_strings:
  "entries_clean (encodeAuditMetadata (map (\<lambda>(key, s). (key, Opaque (JStr s)))
     (filter (\<lambda>(key, s). \<not> isSensitiveAuditMetadataKey key) kvs)))"
  by (induction kvs) auto

lemma sanitized_clean:
  "opaque_clean kvs \<Longrightarrow> entries_clean (encodeAuditMetadata (sanitizeAuditMetadata kvs))"
  "opaque_clean_value v \<Longrightarrow> json_clean (json_of (sanitizeAuditMetadataValue v))"
  "opaque_clean_items xs \<Longrightarrow> items_clean (json_items (sanitize_items xs))"
  by (induction kvs and v and xs
      rule: sanitizeAuditMetadata_sanitizeAuditMetadataValue_sanitize_items.induct)
    (simp_all add: entries_clean_strings)

text \<open>What the redaction keeps: metadata without sensitive keys is stored as it is.\<close>

lemma strings_untouched:
  "entries_clean (map (\<lambda>(k, s). (k, JStr s)) kvs) \<Longrightarrow>
   encodeAuditMetadata (map (\<lambda>(key, s). (key, Opaque (JStr s)))
     (filter (\<lambda>(key, s). \<not> isSensitiveAuditMetadataKey key) kvs)) = map (\<lambda>(k, s). (k, JStr s)) kvs"
  by (induction kvs) auto

lemma clean_untouched:
  "entries_clean (encodeAuditMetadata kvs) \<Longrightarrow>
     encodeAuditMetadata (sanitizeAuditMetadata kvs) = encodeAuditMetadata kvs"
  "json_clean (json_of v) \<Longrightarrow> json_of (sanitizeAuditMetadataValue v) = json_of v"
  "items_clean (json_items xs) \<Longrightarrow> json_items (sanitize_items xs) = json_items xs"
  by (induction kvs and v and xs
      rule: sanitizeAuditMetadata_sanitizeAuditMetadataValue_sanitize_items.induct)
    (simp_all add: strings_untouched)

section \<open>What recording an event changes\<close>

definition audit_inv :: "(db \<Rightarrow> bool) \<Rightarrow> bool" where
  "audit_inv J \<longleftrightarrow> (\<forall>d ls c. J d \<longrightarrow> J (d\<lparr>uuid_ctr := c, audit_logs := ls\<rparr>))"

lemma Audit_Create_ok:
  "Audit_Create e w = (Inr u, w') \<Longrightarrow> \<exists>i t. db w' =
     (db w)\<lparr>uuid_ctr := Suc (uuid_ctr (db w)), audit_logs := audit_logs (db w) @ [audit_row e i t]\<rparr>"
  by (auto simp: Audit_Create_def execM_ok gen_random_uuid_def Let_def split: if_splits)

lemma keeps_Audit_Record:
  assumes "audit_inv J"
  shows "keepsM (\<lambda>w. J (db w)) (Audit_Record i)"
  unfolding Audit_Record_def Audit_Create_def
  by (intro keeps keeps_exec_db)
    (use assms in \<open>auto simp: audit_inv_def gen_random_uuid_def Let_def split: if_splits\<close>)

lemma audit_record_frame: "\<exists>ls c. db (snd (Audit_Record i w)) = (db w)\<lparr>uuid_ctr := c, audit_logs := ls\<rparr>"
proof (cases "fst (Audit_Record i w)")
  case (Inl e)
  then have "db (snd (Audit_Record i w)) = db w"
    by (auto simp: Audit_Record_def Audit_Create_def execM_def Let_def split: if_splits sum.splits)
  then have "db (snd (Audit_Record i w)) = (db w)\<lparr>uuid_ctr := uuid_ctr (db w), audit_logs := audit_logs (db w)\<rparr>"
    by simp
  then show ?thesis
    by blast
next
  case (Inr u)
  then have "Audit_Create (audit_of_input i) w = (Inr u, snd (Audit_Record i w))"
    by (auto simp: Audit_Record_def prod_eq_iff split: if_splits)
  from Audit_Create_ok [OF this] show ?thesis
    by blast
qed

section \<open>Properties\<close>


definition sample_audit_event :: audit_event where
  "sample_audit_event =
     \<lparr>ae_ActorUserID = Some ''u1'', ae_EventType = ''auth.login.failure'', ae_TargetType = ''user'',
      ae_TargetID = ''u1'', ae_IP = '' ::1 '', ae_UserAgent = '''',
      ae_Metadata = [(''email'', Opaque (JStr ''a@x.io'')), ('' Access_Token'', Opaque (JStr ''t'')),
        (''list'', AnySlice [AnyMap [(''Code'', Opaque (JNum 7)), (''n'', Opaque (JNum 1))]])]\<rparr>"


end
