(* ===== verification/SecurityRepos.thy ===== *)
theory SecurityRepos
  imports Store
begin

text \<open>
  TwoFactorRepo (pkg/repository/two_factor.go), PasskeyRepo (passkey.go),
  NotificationPreferenceRepo (notification_preferences.go) and AccountErasureJobRepo
  (account_erasure.go), one definition per method over the tables of migrations 005,
  007, 014 and 019. A transaction is one statement here: it happens as a whole or not
  at all. The \<open>updated_at\<close> triggers are part of the updates.
\<close>

section \<open>TwoFactorRepo\<close>

definition tf_row :: "db \<Rightarrow> uuid \<Rightarrow> two_factor option" where
  "tf_row d uid = find (\<lambda>r. tf_user_id r = uid) (user_two_factor d)"

definition TwoFactor_Get :: "uuid \<Rightarrow> two_factor option app" where
  "TwoFactor_Get uid = wrapM ''get two factor'' (queryM (\<lambda>t d. tf_row d uid))"

definition update_two_factor :: "uuid \<Rightarrow> (two_factor \<Rightarrow> two_factor) \<Rightarrow> time \<Rightarrow> db \<Rightarrow> db" where
  "update_two_factor uid f t d = d\<lparr>user_two_factor :=
     update_where (\<lambda>r. tf_user_id r = uid) (\<lambda>r. (f r)\<lparr>tf_updated_at := t\<rparr>) (user_two_factor d)\<rparr>"

definition TwoFactor_UpsertSetup :: "uuid \<Rightarrow> bytes \<Rightarrow> unit app" where
  "TwoFactor_UpsertSetup uid secret = wrapM ''upsert two factor setup'' (execM (\<lambda>t d.
     if tf_row d uid = None then
       if \<not> user_exists d uid then Inl fk_violation
       else Inr ((), d\<lparr>user_two_factor := user_two_factor d @
         [\<lparr>tf_user_id = uid, tf_secret_encrypted = secret, tf_enabled = False, tf_failed_attempts = 0,
           tf_locked_until = None, tf_last_used_at = None, tf_enabled_at = None,
           tf_created_at = t, tf_updated_at = t\<rparr>]\<rparr>)
     else Inr ((), update_two_factor uid (\<lambda>r. r\<lparr>tf_secret_encrypted := secret, tf_enabled := False,
            tf_failed_attempts := 0, tf_locked_until := None, tf_last_used_at := None,
            tf_enabled_at := None\<rparr>) t d)))"

definition TwoFactor_Enable :: "uuid \<Rightarrow> time \<Rightarrow> unit app" where
  "TwoFactor_Enable uid at = wrapM ''enable two factor'' (execM (\<lambda>t d.
     Inr ((), update_two_factor uid (\<lambda>r. r\<lparr>tf_enabled := True, tf_failed_attempts := 0,
        tf_locked_until := None, tf_last_used_at := Some at, tf_enabled_at := Some at\<rparr>) t d)))"

definition TwoFactor_DeleteByUser :: "uuid \<Rightarrow> unit app" where
  "TwoFactor_DeleteByUser uid = wrapM ''delete two factor'' (execM (\<lambda>t d.
     Inr ((), d\<lparr>backup_codes := delete_where (\<lambda>r. bc_user_id r = uid) (backup_codes d),
                user_two_factor := delete_where (\<lambda>r. tf_user_id r = uid) (user_two_factor d)\<rparr>)))"

definition TwoFactor_RecordSuccess :: "uuid \<Rightarrow> time \<Rightarrow> unit app" where
  "TwoFactor_RecordSuccess uid at = wrapM ''record two factor success'' (execM (\<lambda>t d.
     Inr ((), update_two_factor uid (\<lambda>r. r\<lparr>tf_failed_attempts := 0, tf_locked_until := None,
        tf_last_used_at := Some at\<rparr>) t d)))"

definition count_failure :: "int \<Rightarrow> time \<Rightarrow> two_factor \<Rightarrow> two_factor" where
  "count_failure threshold lockUntil r =
     r\<lparr>tf_failed_attempts := tf_failed_attempts r + 1,
       tf_locked_until := (if tf_failed_attempts r + 1 \<ge> threshold then Some lockUntil else tf_locked_until r)\<rparr>"

definition TwoFactor_RecordFailure :: "uuid \<Rightarrow> int \<Rightarrow> time \<Rightarrow> (int \<times> time option) app" where
  "TwoFactor_RecordFailure uid threshold lockUntil = wrapM ''record two factor failure'' (execM (\<lambda>t d.
     case tf_row d uid of
       None \<Rightarrow> Inl (DriverErr ''no rows in result set'')
     | Some r \<Rightarrow>
         if tf_failed_attempts r + 1 \<ge> 2 ^ 31 then Inl out_of_range
         else let r' = count_failure threshold lockUntil r in
           Inr ((tf_failed_attempts r', tf_locked_until r'),
                update_two_factor uid (count_failure threshold lockUntil) t d)))"

text \<open>The inserts of \<open>ReplaceBackupCodes\<close>, one code after the other.\<close>

fun insert_backup_codes :: "uuid \<Rightarrow> time \<Rightarrow> string list \<Rightarrow> db \<Rightarrow> goerr + db" where
  "insert_backup_codes uid t [] d = Inr d"
| "insert_backup_codes uid t (h # hs) d =
     (let (i, d') = gen_random_uuid d in
      if \<exists>r \<in> set (backup_codes d). bc_id r = i then Inl unique_violation
      else if \<not> user_exists d uid then Inl fk_violation
      else insert_backup_codes uid t hs (d'\<lparr>backup_codes := backup_codes d @
        [\<lparr>bc_id = i, bc_user_id = uid, bc_code_hash = h, bc_used_at = None, bc_created_at = t\<rparr>]\<rparr>))"

definition TwoFactor_ReplaceBackupCodes :: "uuid \<Rightarrow> string list \<Rightarrow> unit app" where
  "TwoFactor_ReplaceBackupCodes uid hashes = wrapM ''replace backup codes'' (execM (\<lambda>t d.
     case insert_backup_codes uid t hashes
            (d\<lparr>backup_codes := delete_where (\<lambda>r. bc_user_id r = uid) (backup_codes d)\<rparr>) of
       Inl e \<Rightarrow> Inl e
     | Inr d' \<Rightarrow> Inr ((), d')))"

definition unused_code :: "uuid \<Rightarrow> backup_code \<Rightarrow> bool" where
  "unused_code uid r \<longleftrightarrow> bc_user_id r = uid \<and> bc_used_at r = None"

definition TwoFactor_ListUnusedBackupCodes :: "uuid \<Rightarrow> backup_code list app" where
  "TwoFactor_ListUnusedBackupCodes uid = wrapM ''list backup codes'' (queryM (\<lambda>t d.
     sort_key bc_created_at (filter (unused_code uid) (backup_codes d))))"

definition TwoFactor_CountUnusedBackupCodes :: "uuid \<Rightarrow> int app" where
  "TwoFactor_CountUnusedBackupCodes uid = wrapM ''count backup codes'' (queryM (\<lambda>t d.
     int (length (filter (unused_code uid) (backup_codes d)))))"

definition TwoFactor_MarkBackupCodeUsed :: "uuid \<Rightarrow> time \<Rightarrow> bool app" where
  "TwoFactor_MarkBackupCodeUsed i at = wrapM ''mark backup code used'' (execM (\<lambda>t d.
     let hit = (\<lambda>r. bc_id r = i \<and> bc_used_at r = None) in
     Inr (length (filter hit (backup_codes d)) = 1,
          d\<lparr>backup_codes := update_where hit (\<lambda>r. r\<lparr>bc_used_at := Some at\<rparr>) (backup_codes d)\<rparr>)))"

section \<open>PasskeyRepo\<close>

text \<open>\<open>COALESCE(NULLIF($n, '')::jsonb, '[]'::jsonb)\<close>; the text is taken to be JSON.\<close>

definition transports_json :: "bytes \<Rightarrow> bytes" where
  "transports_json s = (if s = '''' then ''[]'' else s)"

definition Passkeys_CreateCredential :: "passkey_credential \<Rightarrow> passkey_credential app" where
  "Passkeys_CreateCredential c = execM (\<lambda>t d.
     let (i, d') = gen_random_uuid d;
         row = c\<lparr>pk_id := i, pk_transports := transports_json (pk_transports c),
                 pk_last_used_at := None, pk_created_at := t, pk_updated_at := t\<rparr> in
     if pk_sign_count c < 0 then Inl check_violation
     else if \<exists>r \<in> set (passkey_credentials d). pk_id r = i \<or> pk_credential_id r = pk_credential_id c
     then Inl unique_violation
     else if \<not> user_exists d (pk_user_id c) then Inl fk_violation
     else Inr (c\<lparr>pk_id := i, pk_created_at := t, pk_updated_at := t\<rparr>,
               d'\<lparr>passkey_credentials := passkey_credentials d @ [row]\<rparr>))"

definition Passkeys_ListCredentialsByUser :: "uuid \<Rightarrow> passkey_credential list app" where
  "Passkeys_ListCredentialsByUser uid = wrapM ''list passkey credentials'' (queryM (\<lambda>t d.
     sort_key (\<lambda>r. - pk_created_at r) (filter (\<lambda>r. pk_user_id r = uid) (passkey_credentials d))))"

definition Passkeys_GetCredentialByIDForUser :: "uuid \<Rightarrow> uuid \<Rightarrow> passkey_credential option app" where
  "Passkeys_GetCredentialByIDForUser uid i = wrapM ''get passkey credential'' (queryM (\<lambda>t d.
     find (\<lambda>r. pk_user_id r = uid \<and> pk_id r = i) (passkey_credentials d)))"

definition Passkeys_GetCredentialByCredentialID :: "bytes \<Rightarrow> passkey_credential option app" where
  "Passkeys_GetCredentialByCredentialID cid = wrapM ''get passkey credential by credential id'' (queryM (\<lambda>t d.
     find (\<lambda>r. pk_credential_id r = cid) (passkey_credentials d)))"

definition Passkeys_UpdateCredentialAfterUse :: "passkey_credential \<Rightarrow> time \<Rightarrow> passkey_credential app" where
  "Passkeys_UpdateCredentialAfterUse c at =
     thenM (wrapM ''update passkey credential'' (execM (\<lambda>t d.
       let hit = (\<lambda>r. pk_user_id r = pk_user_id c \<and> pk_id r = pk_id c) in
       if (\<exists>r \<in> set (passkey_credentials d). hit r) \<and> pk_sign_count c < 0 then Inl check_violation
       else Inr ((), d\<lparr>passkey_credentials := update_where hit (\<lambda>r. r\<lparr>pk_public_key := pk_public_key c,
         pk_attestation_type := pk_attestation_type c, pk_aaguid := pk_aaguid c,
         pk_sign_count := pk_sign_count c, pk_clone_warning := pk_clone_warning c,
         pk_user_present := pk_user_present c, pk_user_verified := pk_user_verified c,
         pk_backup_eligible := pk_backup_eligible c, pk_backup_state := pk_backup_state c,
         pk_transports := transports_json (pk_transports c), pk_attachment := pk_attachment c,
         pk_last_used_at := Some at, pk_updated_at := t\<rparr>) (passkey_credentials d)\<rparr>))))
       (retM (c\<lparr>pk_last_used_at := Some at\<rparr>))"

definition Passkeys_DeleteCredentialByUser :: "uuid \<Rightarrow> uuid \<Rightarrow> bool app" where
  "Passkeys_DeleteCredentialByUser uid i = wrapM ''delete passkey credential'' (execM (\<lambda>t d.
     let hit = (\<lambda>r. pk_user_id r = uid \<and> pk_id r = i) in
     Inr (length (filter hit (passkey_credentials d)) = 1,
          d\<lparr>passkey_credentials := delete_where hit (passkey_credentials d)\<rparr>)))"

definition Passkeys_DeleteCredentialsByUser :: "uuid \<Rightarrow> unit app" where
  "Passkeys_DeleteCredentialsByUser uid = wrapM ''delete passkey credentials'' (execM (\<lambda>t d.
     Inr ((), d\<lparr>passkey_credentials := delete_where (\<lambda>r. pk_user_id r = uid) (passkey_credentials d)\<rparr>)))"

definition Passkeys_SaveChallenge :: "passkey_challenge \<Rightarrow> passkey_challenge app" where
  "Passkeys_SaveChallenge c = execM (\<lambda>t d.
     let (i, d') = gen_random_uuid d;
         row = c\<lparr>pc_id := i, pc_consumed_at := None, pc_created_at := t\<rparr> in
     if pc_type c \<notin> set [''registration'', ''login'', ''step_up''] then Inl check_violation
     else if \<exists>r \<in> set (passkey_challenges d). pc_id r = i \<or> pc_type r = pc_type c \<and> pc_challenge r = pc_challenge c
     then Inl unique_violation
     else if \<exists>u \<in> set_option (pc_user_id c). \<not> user_exists d u then Inl fk_violation
     else Inr (c\<lparr>pc_id := i, pc_created_at := t\<rparr>,
               d'\<lparr>passkey_challenges := passkey_challenges d @ [row]\<rparr>))"

definition challenge_open :: "uuid \<Rightarrow> string \<Rightarrow> uuid option \<Rightarrow> time \<Rightarrow> passkey_challenge \<Rightarrow> bool" where
  "challenge_open i typ uid at r \<longleftrightarrow> pc_id r = i \<and> pc_type r = typ \<and> pc_consumed_at r = None \<and>
     at < pc_expires_at r \<and> (if uid = None then pc_user_id r = None else pc_user_id r = uid)"

definition Passkeys_ConsumeChallenge :: "uuid \<Rightarrow> string \<Rightarrow> uuid option \<Rightarrow> time \<Rightarrow> passkey_challenge option app" where
  "Passkeys_ConsumeChallenge i typ uid at = wrapM ''consume passkey challenge'' (execM (\<lambda>t d.
     let hit = challenge_open i typ uid at; f = (\<lambda>r. r\<lparr>pc_consumed_at := Some at\<rparr>) in
     Inr (map_option f (find hit (passkey_challenges d)),
          d\<lparr>passkey_challenges := update_where hit f (passkey_challenges d)\<rparr>)))"

definition Passkeys_ExpireChallengesByUser :: "uuid \<Rightarrow> time \<Rightarrow> unit app" where
  "Passkeys_ExpireChallengesByUser uid at = wrapM ''expire passkey challenges'' (execM (\<lambda>t d.
     Inr ((), d\<lparr>passkey_challenges := update_where (\<lambda>r. pc_user_id r = Some uid \<and> pc_consumed_at r = None)
       (\<lambda>r. r\<lparr>pc_consumed_at := Some at, pc_expires_at := min (pc_expires_at r) at\<rparr>)
       (passkey_challenges d)\<rparr>)))"

section \<open>NotificationPreferenceRepo\<close>

definition NotificationPrefs_GetByUserID :: "uuid \<Rightarrow> notification_preferences app" where
  "NotificationPrefs_GetByUserID uid = wrapM ''get notification preferences'' (queryM (\<lambda>t d.
     case find (\<lambda>r. np_user_id r = uid) (notification_prefs d) of
       None \<Rightarrow> DefaultNotificationPreferences uid
     | Some p \<Rightarrow> p))"

definition NotificationPrefs_Upsert :: "notification_preferences \<Rightarrow> notification_preferences app" where
  "NotificationPrefs_Upsert p = wrapM ''upsert notification preferences'' (execM (\<lambda>t d.
     case find (\<lambda>r. np_user_id r = np_user_id p) (notification_prefs d) of
       None \<Rightarrow>
         if \<not> user_exists d (np_user_id p) then Inl fk_violation
         else let row = p\<lparr>np_created_at := t, np_updated_at := t\<rparr> in
           Inr (row, d\<lparr>notification_prefs := notification_prefs d @ [row]\<rparr>)
     | Some old \<Rightarrow>
         let row = p\<lparr>np_created_at := np_created_at old, np_updated_at := t\<rparr> in
         Inr (row, d\<lparr>notification_prefs := update_where (\<lambda>r. np_user_id r = np_user_id p) (\<lambda>r. row)
                       (notification_prefs d)\<rparr>)))"

definition NotificationPrefs_DeleteByUser :: "uuid \<Rightarrow> int app" where
  "NotificationPrefs_DeleteByUser uid = wrapM ''delete notification preferences'' (execM (\<lambda>t d.
     let hit = (\<lambda>r. np_user_id r = uid) in
     Inr (int (length (filter hit (notification_prefs d))),
          d\<lparr>notification_prefs := delete_where hit (notification_prefs d)\<rparr>)))"

section \<open>AccountErasureJobRepo\<close>

text \<open>Go's zero \<open>time.Time\<close>, and an empty \<open>json.RawMessage\<close>, which is \<open>JNull\<close> here.\<close>

definition zero_time :: time where
  "zero_time = - 62135596800 * Second"

definition or_empty_object :: "json \<Rightarrow> json" where
  "or_empty_object j = (if j = JNull then JObj [] else j)"

definition accountErasureJobPageSize :: int where
  "accountErasureJobPageSize = 50"

definition open_job :: "erasure_job \<Rightarrow> bool" where
  "open_job j \<longleftrightarrow> ej_status j \<noteq> ErasureCompleted"

definition ErasureJobs_Create :: "erasure_job \<Rightarrow> erasure_job app" where
  "ErasureJobs_Create j0 =
     bindM (if ej_requested_at j0 = zero_time
            then bindM time_Now (\<lambda>n. retM (j0\<lparr>ej_requested_at := n\<rparr>)) else retM j0) (\<lambda>j1.
     let j2 = (if ej_eligible_at j1 = zero_time then j1\<lparr>ej_eligible_at := ej_requested_at j1\<rparr> else j1);
         j3 = j2\<lparr>ej_summary := or_empty_object (ej_summary j2)\<rparr> in
     execM (\<lambda>t d.
       let (i, d') = gen_random_uuid d;
           row = j3\<lparr>ej_id := i, ej_created_at := t, ej_updated_at := t\<rparr> in
       if \<exists>r \<in> set (account_erasure_jobs d). ej_id r = i \<or>
            open_job r \<and> open_job j3 \<and> ej_user_id r = ej_user_id j3
       then Inl unique_violation
       else if \<not> user_exists d (ej_user_id j3) then Inl fk_violation
       else Inr (row, d'\<lparr>account_erasure_jobs := account_erasure_jobs d @
              [row\<lparr>ej_started_at := None, ej_finished_at := None\<rparr>]\<rparr>)))"

definition page_limit :: "int \<Rightarrow> int" where
  "page_limit limit =
     (if limit \<le> 0 \<or> limit > accountErasureJobPageSize then accountErasureJobPageSize else limit)"

definition job_eligible :: "time \<Rightarrow> erasure_job \<Rightarrow> bool" where
  "job_eligible at j \<longleftrightarrow> (ej_status j = ErasurePending \<or> ej_status j = ErasureFailed) \<and> ej_eligible_at j \<le> at"

text \<open>\<open>ORDER BY eligible_at, requested_at\<close>: a stable sort by the second key, then by the first.\<close>

definition ErasureJobs_ListEligible :: "time \<Rightarrow> int \<Rightarrow> erasure_job list app" where
  "ErasureJobs_ListEligible at limit = wrapM ''list eligible erasure jobs'' (queryM (\<lambda>t d.
     take (nat (page_limit limit)) (sort_key ej_eligible_at (sort_key ej_requested_at
       (filter (job_eligible at) (account_erasure_jobs d))))))"

definition ErasureJobs_ListByUser :: "uuid \<Rightarrow> int \<Rightarrow> erasure_job list app" where
  "ErasureJobs_ListByUser uid limit = wrapM ''list erasure jobs by user'' (queryM (\<lambda>t d.
     take (nat (page_limit limit)) (sort_key (\<lambda>j. - ej_requested_at j) (rev (sort_key ej_id
       (filter (\<lambda>j. ej_user_id j = uid) (account_erasure_jobs d)))))))"

definition update_jobs :: "(erasure_job \<Rightarrow> bool) \<Rightarrow> (erasure_job \<Rightarrow> erasure_job) \<Rightarrow> time \<Rightarrow> db \<Rightarrow> db" where
  "update_jobs P f t d = d\<lparr>account_erasure_jobs :=
     update_where P (\<lambda>j. (f j)\<lparr>ej_updated_at := t\<rparr>) (account_erasure_jobs d)\<rparr>"

definition ErasureJobs_MarkRunning :: "uuid \<Rightarrow> time \<Rightarrow> bool app" where
  "ErasureJobs_MarkRunning i at = wrapM ''mark erasure job running'' (execM (\<lambda>t d.
     let hit = (\<lambda>j. ej_id j = i \<and> job_eligible at j) in
     Inr (\<exists>j \<in> set (account_erasure_jobs d). hit j,
          update_jobs hit (\<lambda>j. j\<lparr>ej_status := ErasureRunning, ej_started_at := Some at,
            ej_finished_at := None, ej_last_error := ''''\<rparr>) t d)))"

definition ErasureJobs_MarkCompleted :: "uuid \<Rightarrow> json \<Rightarrow> time \<Rightarrow> unit app" where
  "ErasureJobs_MarkCompleted i summary at = wrapM ''mark erasure job completed'' (execM (\<lambda>t d.
     Inr ((), update_jobs (\<lambda>j. ej_id j = i) (\<lambda>j. j\<lparr>ej_status := ErasureCompleted,
        ej_summary := or_empty_object summary, ej_last_error := '''', ej_finished_at := Some at\<rparr>) t d)))"

definition ErasureJobs_UpdateSummary :: "uuid \<Rightarrow> json \<Rightarrow> unit app" where
  "ErasureJobs_UpdateSummary i summary = wrapM ''update erasure job summary'' (execM (\<lambda>t d.
     Inr ((), update_jobs (\<lambda>j. ej_id j = i) (\<lambda>j. j\<lparr>ej_summary := or_empty_object summary\<rparr>) t d)))"

definition ErasureJobs_MarkFailed :: "uuid \<Rightarrow> string \<Rightarrow> time \<Rightarrow> unit app" where
  "ErasureJobs_MarkFailed i lastError at = wrapM ''mark erasure job failed'' (execM (\<lambda>t d.
     if \<exists>j \<in> set (account_erasure_jobs d). ej_id j = i \<and> \<not> open_job j \<and>
          (\<exists>r \<in> set (account_erasure_jobs d). ej_id r \<noteq> i \<and> open_job r \<and> ej_user_id r = ej_user_id j)
     then Inl unique_violation
     else Inr ((), update_jobs (\<lambda>j. ej_id j = i) (\<lambda>j. j\<lparr>ej_status := ErasureFailed,
        ej_last_error := lastError, ej_finished_at := Some at\<rparr>) t d)))"

end
