(* ===== verification/Erasure.thy ===== *)
theory Erasure
  imports AuditLog SecurityRepos UserRepo TokenRepo QuotaRepo "HOL-Library.AList"
begin

text \<open>
  The retention-gated erasure of deleted accounts (pkg/service/account_erasure.go): the
  runner that claims the due jobs, the erasure of one account and its certificate. The
  edition's erasure reporter is a parameter: the list of retained items it answers for a
  user, or its error.
\<close>

section \<open>Data\<close>

record run_report =
  er_Checked :: int
  er_Completed :: int
  er_Failed :: int
  er_Skipped :: int

record certificate_item =
  ci_Category :: string
  ci_Count :: int
  ci_Bytes :: int
  ci_Reason :: string
  ci_RetainedFor :: string
  ci_CompletedAt :: time
  ci_Metadata :: "(string \<times> json) list"

record erasure_certificate =
  ec_Version :: int
  ec_JobID :: uuid
  ec_UserID :: uuid
  ec_RequestedAt :: time
  ec_EligibleAt :: time
  ec_CompletedAt :: time
  ec_Status :: string
  ec_Deleted :: "certificate_item list"
  ec_Retained :: "certificate_item list"

record initial_summary =
  is_SoftDeletedBundles :: int
  is_SoftDeletedBundleBytes :: int
  is_SoftDeletedSnapshots :: int
  is_SoftDeletedSnapshotBytes :: int

record retention_item =
  ri_Category :: string
  ri_Count :: int
  ri_Reason :: string
  ri_RetainedFor :: string
  ri_Metadata :: "(string \<times> json) list"

type_synonym erasure_reporter = "(uuid \<Rightarrow> goerr + retention_item list) option"

section \<open>JSON\<close>

text \<open>A field with \<open>omitempty\<close> is left out when it is zero.\<close>

definition omitempty :: "bool \<Rightarrow> string \<Rightarrow> json \<Rightarrow> (string \<times> json) list" where
  "omitempty is_zero k v = (if is_zero then [] else [(k, v)])"

definition item_json :: "certificate_item \<Rightarrow> json" where
  "item_json i = JObj (
     [(''category'', JStr (ci_Category i)), (''count'', JNum (ci_Count i))]
     @ omitempty (ci_Bytes i = 0) ''bytes'' (JNum (ci_Bytes i))
     @ omitempty (ci_Reason i = '''') ''reason'' (JStr (ci_Reason i))
     @ omitempty (ci_RetainedFor i = '''') ''retained_for'' (JStr (ci_RetainedFor i))
     @ [(''completed_at'', JTime (ci_CompletedAt i))]
     @ omitempty (ci_Metadata i = []) ''metadata'' (JObj (ci_Metadata i)))"

definition boundary_statement :: string where
  "boundary_statement = ''HistorySync server erasure verifies metadata rows and opaque blob object deletion by key only; it does not parse or decrypt bundle or snapshot contents.''"

definition certificate_json :: "erasure_certificate \<Rightarrow> json" where
  "certificate_json c = JObj
     [(''version'', JNum (ec_Version c)), (''job_id'', JStr (ec_JobID c)), (''user_id'', JStr (ec_UserID c)),
      (''requested_at'', JTime (ec_RequestedAt c)), (''eligible_at'', JTime (ec_EligibleAt c)),
      (''completed_at'', JTime (ec_CompletedAt c)), (''status'', JStr (ec_Status c)),
      (''zero_knowledge_boundary'', JObj [(''blob_contents_parsed'', JBool False),
         (''blob_contents_decrypted'', JBool False), (''statement'', JStr boundary_statement)]),
      (''deleted'', JArr (map item_json (ec_Deleted c))), (''retained'', JArr (map item_json (ec_Retained c)))]"

text \<open>
  \<open>json.Unmarshal\<close> into the four counters, its error ignored: a member that is missing or
  is not a 64-bit number leaves its field zero.
\<close>

definition int_member :: "string \<Rightarrow> json \<Rightarrow> int" where
  "int_member k j =
     (case j of
        JObj kvs \<Rightarrow> (case map_of kvs k of Some (JNum n) \<Rightarrow> if in_i64 n then n else 0 | _ \<Rightarrow> 0)
      | _ \<Rightarrow> 0)"

definition decode_initial :: "json \<Rightarrow> initial_summary" where
  "decode_initial j =
     \<lparr>is_SoftDeletedBundles = int_member ''soft_deleted_bundles'' j,
      is_SoftDeletedBundleBytes = int_member ''soft_deleted_bundle_bytes'' j,
      is_SoftDeletedSnapshots = int_member ''soft_deleted_snapshots'' j,
      is_SoftDeletedSnapshotBytes = int_member ''soft_deleted_snapshot_bytes'' j\<rparr>"

section \<open>The erasure of one account\<close>

definition recordErasureAudit :: "erasure_job \<Rightarrow> string \<Rightarrow> (string \<times> go_any) list \<Rightarrow> unit app" where
  "recordErasureAudit job eventType metadata =
     ignoreM (Audit_Record
       \<lparr>ae_ActorUserID = Some (ej_user_id job), ae_EventType = eventType,
        ae_TargetType = ''account_erasure_job'', ae_TargetID = ej_id job, ae_IP = '''', ae_UserAgent = '''',
        ae_Metadata = AList.update ''eligible_at'' (Opaque (JTime (ej_eligible_at job)))
          (AList.update ''job_id'' (Opaque (JStr (ej_id job))) metadata)\<rparr>)"

definition erasure_gate :: "erasure_job \<Rightarrow> unit app" where
  "erasure_gate job =
     bindM (wrapM ''get erasure user'' (Users_GetAnyByID (ej_user_id job))) (\<lambda>r.
     case r of
       None \<Rightarrow> errM (ErrMsg ''user tombstone is missing'')
     | Some user \<Rightarrow>
         (case u_deleted_at user of
            None \<Rightarrow> errM (ErrMsg ''user is not soft-deleted'')
          | Some at \<Rightarrow>
              if u_status user \<noteq> StatusDeleted then errM (ErrMsg ''user is not soft-deleted'')
              else if ej_eligible_at job < at
              then errM (ErrMsg ''user deletion timestamp is after erasure eligibility'')
              else retM ()))"

definition deleted_item :: "time \<Rightarrow> string \<Rightarrow> int \<Rightarrow> int \<Rightarrow> (string \<times> json) list \<Rightarrow> certificate_item" where
  "deleted_item at category cnt bytes meta =
     \<lparr>ci_Category = category, ci_Count = cnt, ci_Bytes = bytes, ci_Reason = '''', ci_RetainedFor = '''',
      ci_CompletedAt = at, ci_Metadata = meta\<rparr>"

definition erase_rows :: "uuid \<Rightarrow> time \<Rightarrow> certificate_item list app" where
  "erase_rows uid at =
     bindM (RefreshTokens_DeleteByUser uid) (\<lambda>tokens.
     bindM (Devices_DeleteByUser uid) (\<lambda>devs.
     thenM (TwoFactor_DeleteByUser uid)
    (thenM (Passkeys_DeleteCredentialsByUser uid)
    (thenM (Passkeys_ExpireChallengesByUser uid at)
    (bindM (NotificationPrefs_DeleteByUser uid) (\<lambda>prefs.
     bindM (Quota_DeleteUsageByUser uid) (\<lambda>usageRows.
     bindM (Quota_DeleteLimitsByUser uid) (\<lambda>limitRows.
     retM
       [deleted_item at ''refresh_tokens'' tokens 0 [],
        deleted_item at ''devices'' devs 0 [],
        deleted_item at ''two_factor_state_and_backup_codes'' 1 0 [(''idempotent'', JBool True)],
        deleted_item at ''passkey_credentials_and_challenges'' 1 0 [(''idempotent'', JBool True)],
        deleted_item at ''notification_preferences'' prefs 0 [],
        deleted_item at ''quota_usage_and_overrides'' (i64 (usageRows + limitRows)) 0
          [(''storage_usage_rows'', JNum usageRows), (''quota_limit_rows'', JNum limitRows)]]))))))))"

text \<open>The artifacts must be purged already: rows, soft-deleted or not, stop the erasure.\<close>

definition check_artifacts_purged :: "uuid \<Rightarrow> unit app" where
  "check_artifacts_purged uid =
     bindM (Bundles_CountByUserIncludingDeleted uid) (\<lambda>(bundleRows, bundleBytes).
     bindM (Snapshots_CountByUserIncludingDeleted uid) (\<lambda>(snapshotRows, snapshotBytes).
     if bundleRows > 0 \<or> snapshotRows > 0
     then errM (ErrMsg ''erasure has retained CE sync artifacts pending blob/metadata purge'')
     else retM ()))"

definition artifact_items :: "time \<Rightarrow> initial_summary \<Rightarrow> certificate_item list" where
  "artifact_items at initial =
     [deleted_item at ''bundle_metadata_and_blob_objects'' (is_SoftDeletedBundles initial)
        (is_SoftDeletedBundleBytes initial) [(''object_key_pattern'', JStr ''bundles/{user_id}/{bundle_id}'')],
      deleted_item at ''snapshot_metadata_and_blob_objects'' (is_SoftDeletedSnapshots initial)
        (is_SoftDeletedSnapshotBytes initial) [(''object_key_pattern'', JStr ''snapshots/{user_id}/{snapshot_id}'')]]"

definition identifier_item :: "time \<Rightarrow> int \<Rightarrow> certificate_item" where
  "identifier_item at rows =
     deleted_item at ''user_personal_identifiers'' rows 0 [(''retained_tombstone_fields'',
       JArr (map JStr [''id'', ''status'', ''created_at'', ''updated_at'', ''deleted_at'']))]"

definition retained_items :: "erasure_reporter \<Rightarrow> uuid \<Rightarrow> certificate_item list app" where
  "retained_items reporter uid =
     (case reporter of
        None \<Rightarrow> retM []
      | Some describe \<Rightarrow>
          (case describe uid of
             Inl e \<Rightarrow> errM (Wrap ''describe edition erasure retention'' e)
           | Inr items \<Rightarrow> retM (map (\<lambda>i.
               \<lparr>ci_Category = ri_Category i, ci_Count = ri_Count i, ci_Bytes = 0, ci_Reason = ri_Reason i,
                ci_RetainedFor = ri_RetainedFor i, ci_CompletedAt = zero_time,
                ci_Metadata = ri_Metadata i\<rparr>) items)))"

definition certificate_of :: "erasure_job \<Rightarrow> time \<Rightarrow> certificate_item list \<Rightarrow> certificate_item list \<Rightarrow> erasure_certificate" where
  "certificate_of job at deleted retained =
     \<lparr>ec_Version = 1, ec_JobID = ej_id job, ec_UserID = ej_user_id job, ec_RequestedAt = ej_requested_at job,
      ec_EligibleAt = ej_eligible_at job, ec_CompletedAt = at, ec_Status = ''completed'',
      ec_Deleted = deleted, ec_Retained = retained\<rparr>"

definition completeErasureJob :: "erasure_reporter \<Rightarrow> erasure_job \<Rightarrow> time \<Rightarrow> unit app" where
  "completeErasureJob reporter job at =
     thenM (erasure_gate job)
    (bindM (erase_rows (ej_user_id job) at) (\<lambda>rowItems.
     thenM (check_artifacts_purged (ej_user_id job))
    (bindM (Users_AnonymizeDeletedUser (ej_user_id job)) (\<lambda>rows.
     bindM (retained_items reporter (ej_user_id job)) (\<lambda>retained.
     let deleted = rowItems @ artifact_items at (decode_initial (ej_summary job)) @ [identifier_item at rows];
         certificate = certificate_of job at deleted retained in
     thenM (ErasureJobs_MarkCompleted (ej_id job) (certificate_json certificate) at)
           (recordErasureAudit job ''account.erasure.job_finished''
              [(''status'', Opaque (JStr ''completed'')),
               (''deleted_items'', Opaque (JNum (int (length deleted)))),
               (''retained_items'', Opaque (JNum (int (length retained)))),
               (''certificate_ver'', Opaque (JNum (ec_Version certificate)))]))))))"

section \<open>The runner\<close>

definition erasureJobBatchSize :: int where
  "erasureJobBatchSize = 50"

definition fail_job :: "erasure_job \<Rightarrow> goerr \<Rightarrow> unit app" where
  "fail_job job e =
     bindM time_Now (\<lambda>n.
     thenM (ignoreM (ErasureJobs_MarkFailed (ej_id job) (Error e) n))
           (recordErasureAudit job ''account.erasure.job_failed''
              [(''status'', Opaque (JStr ''failed'')), (''last_error'', Opaque (JStr (Error e)))]))"

definition run_job :: "erasure_reporter \<Rightarrow> time \<Rightarrow> erasure_job \<Rightarrow> run_report \<Rightarrow> run_report app" where
  "run_job reporter at job report0 =
     thenM ctx_Err
     (let report = report0\<lparr>er_Checked := er_Checked report0 + 1\<rparr> in
      bindM (ErasureJobs_MarkRunning (ej_id job) at) (\<lambda>claimed.
      if \<not> claimed then retM (report\<lparr>er_Skipped := er_Skipped report + 1\<rparr>)
      else
        thenM (recordErasureAudit job ''account.erasure.job_started'' [(''status'', Opaque (JStr ''running''))])
       (bindM (tryM (completeErasureJob reporter job at)) (\<lambda>r.
        case r of
          Inl e \<Rightarrow> thenM (fail_job job e) (retM (report\<lparr>er_Failed := er_Failed report + 1\<rparr>))
        | Inr u \<Rightarrow> retM (report\<lparr>er_Completed := er_Completed report + 1\<rparr>)))))"

definition RunErasureJobs :: "erasure_reporter \<Rightarrow> run_report app" where
  "RunErasureJobs reporter =
     bindM time_Now (\<lambda>at.
     bindM (ErasureJobs_ListEligible at erasureJobBatchSize) (\<lambda>jobs.
     forM jobs \<lparr>er_Checked = 0, er_Completed = 0, er_Failed = 0, er_Skipped = 0\<rparr> (run_job reporter at)))"

section \<open>What an erasure does to the database\<close>

text \<open>
  The specification of an erasure that goes through: the rows of the user that it deletes,
  the sessions it expires, in one step.
\<close>

definition erased :: "uuid \<Rightarrow> time \<Rightarrow> db \<Rightarrow> db" where
  "erased uid at d = d\<lparr>
     refresh_tokens := delete_where (\<lambda>r. rt_user_id r = uid) (refresh_tokens d),
     devices := delete_where (\<lambda>r. d_user_id r = uid) (devices d),
     backup_codes := delete_where (\<lambda>r. bc_user_id r = uid) (backup_codes d),
     user_two_factor := delete_where (\<lambda>r. tf_user_id r = uid) (user_two_factor d),
     passkey_credentials := delete_where (\<lambda>r. pk_user_id r = uid) (passkey_credentials d),
     passkey_challenges := update_where (\<lambda>r. pc_user_id r = Some uid \<and> pc_consumed_at r = None)
       (\<lambda>r. r\<lparr>pc_consumed_at := Some at, pc_expires_at := min (pc_expires_at r) at\<rparr>) (passkey_challenges d),
     notification_prefs := delete_where (\<lambda>r. np_user_id r = uid) (notification_prefs d),
     storage_usage := delete_where (\<lambda>r. q_user_id r = uid) (storage_usage d),
     quota_limits_tbl := delete_where (\<lambda>r. l_user_id r = uid) (quota_limits_tbl d)\<rparr>"

lemmas erase_calls = RefreshTokens_DeleteByUser_def Devices_DeleteByUser_def TwoFactor_DeleteByUser_def
  Passkeys_DeleteCredentialsByUser_def Passkeys_ExpireChallengesByUser_def NotificationPrefs_DeleteByUser_def
  Quota_DeleteUsageByUser_def Quota_DeleteLimitsByUser_def

lemma invalidate_db: "Quota_invalidateUsageCache uid w = (Inr u, w') \<Longrightarrow> db w' = db w"
  by (auto simp: Quota_invalidateUsageCache_def split: option.splits if_splits)

lemma erase_rows_ok:
  assumes "erase_rows uid at w = (Inr items, w')"
  shows "db w' = erased uid at (db w)"
proof -
  have "\<exists>d. db w' = d \<and> d = erased uid at (db w)"
    using assms unfolding erase_rows_def erase_calls
    by (auto simp: run_ok execM_ok Let_def erased_def dest!: invalidate_db)
  then show ?thesis
    by simp
qed

lemma purged_ok:
  assumes "check_artifacts_purged uid w = (Inr u, w')"
  shows "db w' = db w" and "\<forall>r \<in> set (bundles (db w)). b_user_id r \<noteq> uid"
    and "\<forall>r \<in> set (snapshots (db w)). s_user_id r \<noteq> uid"
  using assms unfolding check_artifacts_purged_def Bundles_CountByUserIncludingDeleted_def
    Snapshots_CountByUserIncludingDeleted_def
  by (auto simp: run_ok queryM_ok Let_def filter_empty_conv split: if_splits)

lemma gate_ok:
  assumes "erasure_gate job w = (Inr u, w')"
  shows "db w' = db w" and "\<exists>u at. find (\<lambda>u. u_id u = ej_user_id job) (users (db w)) = Some u \<and>
     u_deleted_at u = Some at \<and> at \<le> ej_eligible_at job \<and> u_status u = StatusDeleted"
  using assms unfolding erasure_gate_def Users_GetAnyByID_def
  by (auto simp: run_ok queryM_ok split: option.splits if_splits)

lemma retained_ok: "retained_items rep uid w = (Inr items, w') \<Longrightarrow> w' = w"
  by (auto simp: retained_items_def split: option.splits sum.splits)

lemma anonymize_ok:
  "Users_AnonymizeDeletedUser i w = (Inr n, w') \<Longrightarrow>
   \<exists>t. db w' = update_users (\<lambda>u. u_id u = i \<and> \<not> live_user u) anonymize_user t (db w)"
  by (auto simp: Users_AnonymizeDeletedUser_def execM_ok Let_def split: if_splits)

lemma completed_ok:
  "ErasureJobs_MarkCompleted i s at w = (Inr u, w') \<Longrightarrow>
   \<exists>t. db w' = update_jobs (\<lambda>j. ej_id j = i) (\<lambda>j. j\<lparr>ej_status := ErasureCompleted,
        ej_summary := or_empty_object s, ej_last_error := '''', ej_finished_at := Some at\<rparr>) t (db w)"
  by (auto simp: ErasureJobs_MarkCompleted_def execM_ok)

lemma audit_ok:
  "recordErasureAudit job e m w = (Inr u, w') \<Longrightarrow> \<exists>ls c. db w' = (db w)\<lparr>uuid_ctr := c, audit_logs := ls\<rparr>"
  using audit_record_frame by (auto simp: recordErasureAudit_def)

lemma complete_ok:
  assumes "completeErasureJob rep job at w = (Inr u, w')"
  obtains t1 t2 ls c cert where
    "\<exists>u at'. find (\<lambda>u. u_id u = ej_user_id job) (users (db w)) = Some u \<and> u_deleted_at u = Some at' \<and>
       at' \<le> ej_eligible_at job \<and> u_status u = StatusDeleted"
    and "\<forall>r \<in> set (bundles (db w)). b_user_id r \<noteq> ej_user_id job"
    and "\<forall>r \<in> set (snapshots (db w)). s_user_id r \<noteq> ej_user_id job"
    and "ec_JobID cert = ej_id job \<and> ec_UserID cert = ej_user_id job \<and> ec_Status cert = ''completed''"
    and "db w' = (update_jobs (\<lambda>j. ej_id j = ej_id job) (\<lambda>j. j\<lparr>ej_status := ErasureCompleted,
        ej_summary := certificate_json cert, ej_last_error := '''', ej_finished_at := Some at\<rparr>) t2
      (update_users (\<lambda>u. u_id u = ej_user_id job \<and> \<not> live_user u) anonymize_user t1
        (erased (ej_user_id job) at (db w))))\<lparr>uuid_ctr := c, audit_logs := ls\<rparr>"
proof -
  obtain u1 w1 items w2 u2 w3 n w4 retained w5 u3 w6 meta cert where run:
    "erasure_gate job w = (Inr u1, w1)" "erase_rows (ej_user_id job) at w1 = (Inr items, w2)"
    "check_artifacts_purged (ej_user_id job) w2 = (Inr u2, w3)"
    "Users_AnonymizeDeletedUser (ej_user_id job) w3 = (Inr n, w4)"
    "retained_items rep (ej_user_id job) w4 = (Inr retained, w5)"
    "ErasureJobs_MarkCompleted (ej_id job) (certificate_json cert) at w5 = (Inr u3, w6)"
    "recordErasureAudit job ''account.erasure.job_finished'' meta w6 = (Inr u, w')"
    and cert: "ec_JobID cert = ej_id job \<and> ec_UserID cert = ej_user_id job \<and> ec_Status cert = ''completed''"
    using assms unfolding completeErasureJob_def Let_def
    by (auto simp: run_ok certificate_of_def)
  have gate: "db w1 = db w" "\<exists>u at'. find (\<lambda>u. u_id u = ej_user_id job) (users (db w)) = Some u \<and>
      u_deleted_at u = Some at' \<and> at' \<le> ej_eligible_at job \<and> u_status u = StatusDeleted"
    using gate_ok [OF run(1)] by simp_all
  have 2: "db w2 = erased (ej_user_id job) at (db w)"
    using erase_rows_ok [OF run(2)] gate(1) by simp
  note purged = purged_ok [OF run(3)]
  have rows: "\<forall>r \<in> set (bundles (db w)). b_user_id r \<noteq> ej_user_id job"
      "\<forall>r \<in> set (snapshots (db w)). s_user_id r \<noteq> ej_user_id job"
    using purged(2,3) 2 by (simp_all add: erased_def)
  obtain t1 where 4: "db w4 = update_users (\<lambda>u. u_id u = ej_user_id job \<and> \<not> live_user u) anonymize_user t1 (db w3)"
    using anonymize_ok [OF run(4)] by blast
  obtain t2 where 6: "db w6 = update_jobs (\<lambda>j. ej_id j = ej_id job) (\<lambda>j. j\<lparr>ej_status := ErasureCompleted,
        ej_summary := or_empty_object (certificate_json cert), ej_last_error := '''', ej_finished_at := Some at\<rparr>) t2 (db w5)"
    using completed_ok [OF run(6)] by blast
  have "or_empty_object (certificate_json cert) = certificate_json cert"
    by (simp add: or_empty_object_def certificate_json_def)
  moreover obtain ls c where "db w' = (db w6)\<lparr>uuid_ctr := c, audit_logs := ls\<rparr>"
    using audit_ok [OF run(7)] by blast
  ultimately show ?thesis
    using that [OF gate(2) rows cert] 2 4 6 purged(1) retained_ok [OF run(5)] by simp
qed

section \<open>Other accounts\<close>

text \<open>What the tables hold about the user \<open>v\<close>, audit rows and erasure jobs apart.\<close>

definition account_data :: "uuid \<Rightarrow> db \<Rightarrow> _" where
  "account_data v d =
     (filter (\<lambda>r. u_id r = v) (users d), filter (\<lambda>r. d_user_id r = v) (devices d),
      filter (\<lambda>r. b_user_id r = v) (bundles d), filter (\<lambda>r. s_user_id r = v) (snapshots d),
      filter (\<lambda>r. q_user_id r = v) (storage_usage d), filter (\<lambda>r. l_user_id r = v) (quota_limits_tbl d),
      filter (\<lambda>r. rt_user_id r = v) (refresh_tokens d), filter (\<lambda>r. ev_user_id r = v) (email_verifications d),
      filter (\<lambda>r. pr_user_id r = v) (password_resets d), filter (\<lambda>r. dr_user_id r = v) (device_revocations d),
      filter (\<lambda>r. tf_user_id r = v) (user_two_factor d), filter (\<lambda>r. bc_user_id r = v) (backup_codes d),
      filter (\<lambda>r. pk_user_id r = v) (passkey_credentials d),
      filter (\<lambda>r. pc_user_id r = Some v) (passkey_challenges d),
      filter (\<lambda>r. np_user_id r = v) (notification_prefs d))"

abbreviation account_is :: "uuid \<Rightarrow> _ \<Rightarrow> world \<Rightarrow> bool" where
  "account_is v X \<equiv> \<lambda>w. account_data v (db w) = X"

lemma keeps_account_audit [keeps]: "keepsM (account_is v X) (recordErasureAudit job e m)"
  unfolding recordErasureAudit_def
  by (intro keeps keeps_Audit_Record) (simp add: audit_inv_def account_data_def)

lemma keeps_account_jobs [keeps]:
  "keepsM (account_is v X) (ErasureJobs_MarkRunning i at)"
  "keepsM (account_is v X) (ErasureJobs_MarkFailed i m at)"
  "keepsM (account_is v X) (ErasureJobs_MarkCompleted i s at)"
  "keepsM (account_is v X) (ErasureJobs_ListEligible at n)"
  unfolding ErasureJobs_MarkRunning_def ErasureJobs_MarkFailed_def ErasureJobs_MarkCompleted_def
    ErasureJobs_ListEligible_def
  by (intro keeps keeps_exec_db; auto simp: account_data_def update_jobs_def Let_def split: if_splits)+

lemma keeps_account_reads [keeps]:
  "keepsM (account_is v X) (erasure_gate job)"
  "keepsM (account_is v X) (check_artifacts_purged uid)"
  "keepsM (account_is v X) (retained_items rep uid)"
  unfolding erasure_gate_def check_artifacts_purged_def retained_items_def Users_GetAnyByID_def
    Bundles_CountByUserIncludingDeleted_def Snapshots_CountByUserIncludingDeleted_def
  by (intro keeps)+

lemma keeps_invalidate_db [keeps]: "keepsM (\<lambda>w. J (db w)) (Quota_invalidateUsageCache uid)"
  unfolding Quota_invalidateUsageCache_def
  by (rule keepsM_I) (simp split: option.split)

lemma other_challenges:
  "uid \<noteq> v \<Longrightarrow> filter (\<lambda>r. pc_user_id r = Some v)
     (update_where (\<lambda>r. pc_user_id r = Some uid \<and> pc_consumed_at r = None)
       (\<lambda>r. r\<lparr>pc_consumed_at := Some at, pc_expires_at := min (pc_expires_at r) at\<rparr>) rows) =
   filter (\<lambda>r. pc_user_id r = Some v) rows"
  by (rule filter_update_where_other) simp_all

lemma other_users:
  "uid \<noteq> v \<Longrightarrow> (\<And>u. u_id (f u) = u_id u) \<Longrightarrow> filter (\<lambda>r. u_id r = v)
     (update_where (\<lambda>u. u_id u = uid \<and> P u) f rows) = filter (\<lambda>r. u_id r = v) rows"
  by (rule filter_update_where_other) simp_all

lemma keeps_account_deletes:
  assumes "uid \<noteq> v"
  shows "keepsM (account_is v X) (RefreshTokens_DeleteByUser uid)"
    and "keepsM (account_is v X) (Devices_DeleteByUser uid)"
    and "keepsM (account_is v X) (TwoFactor_DeleteByUser uid)"
    and "keepsM (account_is v X) (Passkeys_DeleteCredentialsByUser uid)"
    and "keepsM (account_is v X) (Passkeys_ExpireChallengesByUser uid at)"
    and "keepsM (account_is v X) (NotificationPrefs_DeleteByUser uid)"
    and "keepsM (account_is v X) (Quota_DeleteUsageByUser uid)"
    and "keepsM (account_is v X) (Quota_DeleteLimitsByUser uid)"
    and "keepsM (account_is v X) (Users_AnonymizeDeletedUser uid)"
  unfolding erase_calls Users_AnonymizeDeletedUser_def Let_def
  by (intro keeps keeps_exec_db;
      use assms in \<open>auto simp: account_data_def update_users_def anonymize_user_def filter_delete_other
        other_challenges other_users split: if_splits\<close>)+

lemma keeps_account_complete:
  "ej_user_id job \<noteq> v \<Longrightarrow> keepsM (account_is v X) (completeErasureJob rep job at)"
  unfolding completeErasureJob_def erase_rows_def Let_def
  by (intro keeps keeps_account_deletes) simp_all

lemma keeps_run_job:
  assumes "keepsM (account_is v X) (completeErasureJob rep job at)"
  shows "keepsM (account_is v X) (run_job rep at job report)"
  unfolding run_job_def fail_job_def Let_def
  by (intro keeps assms)

text \<open>A job whose user is not soft-deleted stops at the gate.\<close>

lemma gate_stops_live:
  assumes "find (\<lambda>u. u_id u = v) (fst X) = Some u" and "live_user u"
  shows "keepsM (account_is v X) (completeErasureJob rep job at)"
proof (cases "ej_user_id job = v")
  case True
  show ?thesis
  proof (rule keepsM_I)
    fix w :: world
    assume I: "account_data v (db w) = X"
    then have "find (\<lambda>u. u_id u = v) (users (db w)) = find (\<lambda>u. u_id u = v) (fst X)"
      by (auto simp: account_data_def find_filter_same)
    then have "fst (erasure_gate job w) \<noteq> Inr x" for x
      using gate_ok(2) [of job w x "snd (erasure_gate job w)"] assms True
      by (auto simp: live_user_def prod_eq_iff)
    then obtain e w1 where gate: "erasure_gate job w = (Inl e, w1)"
      by (metis prod.collapse obj_sumE)
    then have "snd (completeErasureJob rep job at w) = w1"
      by (simp add: completeErasureJob_def thenM_def bindM_def)
    then show "account_data v (db (snd (completeErasureJob rep job at w))) = X"
      using keepsM_D [OF keeps_account_reads(1) I gate] by simp
  qed
qed (rule keeps_account_complete)

section \<open>The clock of a run\<close>

lemma keeps_invalidate_later [keeps]: "keepsM (\<lambda>w. t \<le> now w) (Quota_invalidateUsageCache uid)"
  unfolding Quota_invalidateUsageCache_def
  by (rule keepsM_I) (simp split: option.split)

lemma keeps_run_later: "keepsM (\<lambda>w. t \<le> now w) (forM jobs report (run_job rep at))"
  unfolding run_job_def fail_job_def completeErasureJob_def erase_rows_def erase_calls erasure_gate_def
    check_artifacts_purged_def retained_items_def Users_AnonymizeDeletedUser_def recordErasureAudit_def
    Audit_Record_def Audit_Create_def Users_GetAnyByID_def Bundles_CountByUserIncludingDeleted_def
    Snapshots_CountByUserIncludingDeleted_def ErasureJobs_MarkRunning_def ErasureJobs_MarkFailed_def
    ErasureJobs_MarkCompleted_def Let_def
  by (intro keeps)

text \<open>How a run starts: the clock is read, the due jobs are listed; or the listing fails.\<close>

lemma run_cases:
  assumes "RunErasureJobs rep w = (r, w')"
  obtains (failed) e where "r = Inl e" and "db w' = db w"
  | (ran) at jobs w1 where "db w1 = db w" and "at \<le> now w'"
      and "forM jobs \<lparr>er_Checked = 0, er_Completed = 0, er_Failed = 0, er_Skipped = 0\<rparr> (run_job rep at) w1 = (r, w')"
      and "\<forall>j \<in> set jobs. j \<in> set (account_erasure_jobs (db w)) \<and> job_eligible at j"
      and "length jobs \<le> 50"
proof -
  let ?at = "now (tick w)" and ?w1 = "drop_fault (tick (tick w))"
  let ?jobs = "take 50 (sort_key ej_eligible_at (sort_key ej_requested_at
      (filter (job_eligible ?at) (account_erasure_jobs (db w)))))"
  let ?run = "forM ?jobs \<lparr>er_Checked = 0, er_Completed = 0, er_Failed = 0, er_Skipped = 0\<rparr> (run_job rep ?at) ?w1"
  have eq: "RunErasureJobs rep w = (if fault_next w
      then (Inl (Wrap ''list eligible erasure jobs'' (DriverErr ''database'')), ?w1) else ?run)"
    by (simp add: RunErasureJobs_def ErasureJobs_ListEligible_def bindM_def wrapM_def queryM_def execM_def
        time_Now_def Let_def page_limit_def erasureJobBatchSize_def accountErasureJobPageSize_def
        fault_next_def db_update_same)
  show ?thesis
  proof (cases "fault_next w")
    case True
    with eq assms failed show ?thesis
      by auto
  next
    case False
    with eq assms have run: "?run = (r, w')"
      by simp
    have "?at \<le> now ?w1"
      using tick_mono [of "tick w"] by simp
    then have "?at \<le> now w'"
      using keepsM_D [OF keeps_run_later _ run] by simp
    moreover have "\<forall>j \<in> set ?jobs. j \<in> set (account_erasure_jobs (db w)) \<and> job_eligible ?at j"
      by (auto dest: in_set_takeD)
    moreover have "length ?jobs \<le> 50" and "db ?w1 = db w"
      by simp_all
    ultimately show ?thesis
      using run by (intro ran)
  qed
qed

section \<open>Completed jobs\<close>

abbreviation job_kept :: "erasure_job \<Rightarrow> world \<Rightarrow> bool" where
  "job_kept c \<equiv> \<lambda>w. distinct (map ej_id (account_erasure_jobs (db w))) \<and> c \<in> set (account_erasure_jobs (db w))"

lemma update_jobs_kept:
  assumes "distinct (map ej_id (account_erasure_jobs d))" and "c \<in> set (account_erasure_jobs d)"
    and "\<not> P c" and "\<And>j. P j \<Longrightarrow> ej_id (f j) = ej_id j"
  shows "distinct (map ej_id (account_erasure_jobs (update_jobs P f t d)))"
    and "c \<in> set (account_erasure_jobs (update_jobs P f t d))"
proof -
  have "map ej_id (account_erasure_jobs (update_jobs P f t d)) = map ej_id (account_erasure_jobs d)"
    by (simp add: update_jobs_def map_update_where assms(4))
  with assms(1) show "distinct (map ej_id (account_erasure_jobs (update_jobs P f t d)))"
    by simp
  show "c \<in> set (account_erasure_jobs (update_jobs P f t d))"
    using assms(2,3) by (auto simp: update_jobs_def update_where_def image_iff intro!: bexI [of _ c])
qed

lemma claim_spares_completed:
  assumes "ej_status c = ErasureCompleted"
  shows "hoareM (job_kept c) (ErasureJobs_MarkRunning i at)
    (\<lambda>claimed w. job_kept c w \<and> (claimed \<longrightarrow> i \<noteq> ej_id c)) (\<lambda>_. job_kept c)"
proof -
  have c: "\<not> job_eligible at c"
    using assms by (simp add: job_eligible_def)
  have "j = c" if "distinct (map ej_id js)" "c \<in> set js" "j \<in> set js" "ej_id j = ej_id c" for j js
    using that inj_onD [of ej_id "set js" j c] by (simp add: distinct_map)
  with c show ?thesis
    unfolding ErasureJobs_MarkRunning_def
    by (auto simp: hoareM_def wp Let_def intro: update_jobs_kept)
qed

lemma keeps_kept_mark:
  assumes "i \<noteq> ej_id c"
  shows "keepsM (job_kept c) (ErasureJobs_MarkFailed i m at)"
    and "keepsM (job_kept c) (ErasureJobs_MarkCompleted i s at)"
  unfolding ErasureJobs_MarkFailed_def ErasureJobs_MarkCompleted_def
  by (intro keeps keeps_exec_db [where J = "\<lambda>d. distinct (map ej_id (account_erasure_jobs d)) \<and> c \<in> set (account_erasure_jobs d)"];
      use assms in \<open>auto intro: update_jobs_kept split: if_splits\<close>)+

lemma keeps_jobs_audit: "keepsM (\<lambda>w. J (account_erasure_jobs (db w))) (recordErasureAudit job e m)"
  unfolding recordErasureAudit_def
  by (intro keeps keeps_Audit_Record) (simp add: audit_inv_def)

lemma keeps_jobs_erase: "keepsM (\<lambda>w. J (account_erasure_jobs (db w))) (erase_rows uid at)"
  unfolding erase_rows_def erase_calls Let_def
  by (intro keeps keeps_exec_db) auto

lemma keeps_jobs_anonymize: "keepsM (\<lambda>w. J (account_erasure_jobs (db w))) (Users_AnonymizeDeletedUser uid)"
  unfolding Users_AnonymizeDeletedUser_def Let_def
  by (intro keeps keeps_exec_db) (auto simp: update_users_def split: if_splits)

lemma keeps_jobs_reads:
  "keepsM (\<lambda>w. J (account_erasure_jobs (db w))) (erasure_gate job)"
  "keepsM (\<lambda>w. J (account_erasure_jobs (db w))) (check_artifacts_purged uid)"
  "keepsM (\<lambda>w. J (account_erasure_jobs (db w))) (retained_items rep uid)"
  unfolding erasure_gate_def check_artifacts_purged_def retained_items_def Users_GetAnyByID_def
    Bundles_CountByUserIncludingDeleted_def Snapshots_CountByUserIncludingDeleted_def
  by (intro keeps keeps_query_db [where J = "\<lambda>d. J (account_erasure_jobs d)"])+

lemma keeps_kept_run_job:
  assumes "ej_status c = ErasureCompleted"
  shows "keepsM (job_kept c) (run_job rep at job report)"
proof -
  note frame = keeps_jobs_audit keeps_jobs_erase keeps_jobs_anonymize keeps_jobs_reads
  note kept = frame [where J = "\<lambda>js. distinct (map ej_id js) \<and> c \<in> set js"]
  have "keepsM (job_kept c) (completeErasureJob rep job at)" if "ej_id job \<noteq> ej_id c"
    unfolding completeErasureJob_def Let_def
    by (intro keeps kept keeps_kept_mark that)
  moreover have "keepsM (job_kept c) (fail_job job e)" if "ej_id job \<noteq> ej_id c" for e
    unfolding fail_job_def
    by (intro keeps kept keeps_kept_mark that keeps_now_db [where J = "\<lambda>d. distinct (map ej_id (account_erasure_jobs d)) \<and> c \<in> set (account_erasure_jobs d)"])
  moreover have "keepsM (job_kept c) ctx_Err"
    by (rule keeps_ctx_db [where J = "\<lambda>d. distinct (map ej_id (account_erasure_jobs d)) \<and> c \<in> set (account_erasure_jobs d)"])
  ultimately show ?thesis
    unfolding run_job_def Let_def
    by (intro keeps keeps_bind_post [OF claim_spares_completed [OF assms]] kept) auto
qed

section \<open>Progress\<close>

text \<open>
  Nothing but a failing call can hold up a due erasure: with a soft-deleted user, no
  artifacts left and an edition that answers, the job completes.
\<close>

definition erasable :: "erasure_job \<Rightarrow> db \<Rightarrow> bool" where
  "erasable job d \<longleftrightarrow>
     (case find (\<lambda>u. u_id u = ej_user_id job) (users d) of
        None \<Rightarrow> False
      | Some u \<Rightarrow> u_status u = StatusDeleted \<and>
          (case u_deleted_at u of None \<Rightarrow> False | Some at \<Rightarrow> at \<le> ej_eligible_at job)) \<and>
     (\<forall>r \<in> set (bundles d). b_user_id r \<noteq> ej_user_id job) \<and>
     (\<forall>r \<in> set (snapshots d). s_user_id r \<noteq> ej_user_id job) \<and>
     (\<forall>r \<in> set (users d). email_key r = ToLower (sql_trim (erased_email (ej_user_id job))) \<longrightarrow>
        u_id r = ej_user_id job \<and> \<not> live_user r)"

lemma smooth_invalidate [smooth]: "smooth (Quota_invalidateUsageCache uid)"
  by (simp add: smooth_def Quota_invalidateUsageCache_def split: option.split)

lemma gate_passes:
  assumes "erasable job (db w)" and "faults w = []"
  shows "erasure_gate job w = (Inr (), drop_fault (tick w))"
proof -
  obtain u at where "find (\<lambda>u. u_id u = ej_user_id job) (users (db w)) = Some u" "u_deleted_at u = Some at"
    "at \<le> ej_eligible_at job" "u_status u = StatusDeleted"
    using assms(1) by (auto simp: erasable_def split: option.splits)
  then show ?thesis
    using assms(2) by (simp add: erasure_gate_def Users_GetAnyByID_def bindM_def wrapM_def queryM_nofault)
qed

lemma smooth_erase_rows: "smooth (erase_rows uid at)"
  unfolding erase_rows_def erase_calls Let_def
  by (intro smooth) blast+

lemma purged_passes:
  assumes "faults w = []" and "\<forall>r \<in> set (bundles (db w)). b_user_id r \<noteq> uid"
    and "\<forall>r \<in> set (snapshots (db w)). s_user_id r \<noteq> uid"
  shows "\<exists>w'. check_artifacts_purged uid w = (Inr (), w') \<and> faults w' = [] \<and> db w' = db w"
proof -
  have "filter (\<lambda>r. b_user_id r = uid) (bundles (db w)) = []" "filter (\<lambda>r. s_user_id r = uid) (snapshots (db w)) = []"
    using assms(2,3) by (simp_all add: filter_empty_conv)
  then show ?thesis
    using assms(1)
    by (simp add: check_artifacts_purged_def Bundles_CountByUserIncludingDeleted_def
        Snapshots_CountByUserIncludingDeleted_def bindM_def wrapM_def queryM_nofault Let_def)
qed

lemma anonymize_succeeds:
  assumes "faults w = []" and "\<forall>r \<in> set (users (db w)). email_key r = ToLower (sql_trim (erased_email uid)) \<longrightarrow>
      u_id r = uid \<and> \<not> live_user r"
  shows "\<exists>n w'. Users_AnonymizeDeletedUser uid w = (Inr n, w') \<and> faults w' = []"
  using assms by (auto simp: Users_AnonymizeDeletedUser_def wrapM_def execM_nofault Let_def)

lemma complete_succeeds:
  assumes "erasable job (db w)" and "faults w = []"
    and "\<forall>describe \<in> set_option rep. \<exists>items. describe (ej_user_id job) = Inr items"
  shows "\<exists>w'. completeErasureJob rep job at w = (Inr (), w')"
proof -
  let ?uid = "ej_user_id job"
  note gate = gate_passes [OF assms(1,2)]
  obtain items w2 where 2: "erase_rows ?uid at (drop_fault (tick w)) = (Inr items, w2)" "faults w2 = []"
    using smooth_D [OF smooth_erase_rows, of "drop_fault (tick w)"] assms(2) by fastforce
  have d2: "db w2 = erased ?uid at (db w)"
    using erase_rows_ok [OF 2(1)] by simp
  obtain w3 where 3: "check_artifacts_purged ?uid w2 = (Inr (), w3)" "faults w3 = []" "db w3 = db w2"
    using purged_passes [OF 2(2), of ?uid] assms(1) d2 by (auto simp: erasable_def erased_def)
  have "users (db w3) = users (db w)"
    using 3(3) d2 by (simp add: erased_def)
  then obtain n w4 where 4: "Users_AnonymizeDeletedUser ?uid w3 = (Inr n, w4)" "faults w4 = []"
    using anonymize_succeeds [OF 3(2), of ?uid] assms(1) by (auto simp: erasable_def)
  obtain kept where 5: "retained_items rep ?uid w4 = (Inr kept, w4)"
    using assms(3) by (cases rep) (auto simp: retained_items_def)
  have 6: "\<exists>w6. ErasureJobs_MarkCompleted (ej_id job) s at w4 = (Inr (), w6)" for s
    using 4(2) by (simp add: ErasureJobs_MarkCompleted_def wrapM_def execM_nofault)
  have "\<exists>w'. recordErasureAudit job e m v = (Inr (), w')" for e m v
    by (simp add: recordErasureAudit_def ignoreM_def case_prod_beta)
  with gate 2(1) 3(1) 4(1) 5 6 show ?thesis
    by (simp add: completeErasureJob_def run_ok Let_def) blast
qed

section \<open>Properties\<close>

text \<open>The users the erased tables have rows of.\<close>

definition owners :: "db \<Rightarrow> uuid list" where
  "owners d = map rt_user_id (refresh_tokens d) @ map d_user_id (devices d) @ map tf_user_id (user_two_factor d)
     @ map bc_user_id (backup_codes d) @ map pk_user_id (passkey_credentials d) @ map np_user_id (notification_prefs d)
     @ map q_user_id (storage_usage d) @ map l_user_id (quota_limits_tbl d)
     @ map b_user_id (bundles d) @ map s_user_id (snapshots d)"

definition tombstone :: "user \<Rightarrow> bool" where
  "tombstone u \<longleftrightarrow> u_email u = erased_email (u_id u) \<and> u_password_hash u = '''' \<and> u_display_name u = '''' \<and>
     \<not> u_email_verified u \<and> u_tier u = TierFree \<and> u_status u = StatusDeleted \<and> u_deleted_at u \<noteq> None"

lemma anonymize_tombstone: "\<not> live_user u \<Longrightarrow> tombstone ((anonymize_user u)\<lparr>u_updated_at := t\<rparr>)"
  by (simp add: tombstone_def anonymize_user_def live_user_def)

definition certified :: "erasure_job \<Rightarrow> erasure_job \<Rightarrow> bool" where
  "certified job j \<longleftrightarrow> ej_status j = ErasureCompleted \<and>
     (\<exists>cert. ej_summary j = certificate_json cert \<and> ec_JobID cert = ej_id job \<and>
        ec_UserID cert = ej_user_id job \<and> ec_Status cert = ''completed'')"

text \<open>
  C16. An erasure that goes through leaves no row of the user in the token, device,
  two-factor, passkey, preference, quota and artifact tables, no open passkey challenge,
  and of the account only a tombstone without personal data; the user had been
  soft-deleted by the time the job became eligible, and the job holds its certificate.
\<close>

theorem erasure_leaves_no_trace:
  assumes "completeErasureJob rep job at w = (Inr u, w')" and "distinct (map u_id (users (db w)))"
  shows "ej_user_id job \<notin> set (owners (db w')) \<and>
    (\<forall>c \<in> set (passkey_challenges (db w')). pc_user_id c = Some (ej_user_id job) \<longrightarrow> pc_consumed_at c \<noteq> None) \<and>
    (\<forall>x \<in> set (users (db w')). u_id x = ej_user_id job \<longrightarrow> tombstone x) \<and>
    (\<exists>x \<in> set (users (db w)). \<exists>deleted. u_id x = ej_user_id job \<and> u_deleted_at x = Some deleted \<and>
       deleted \<le> ej_eligible_at job) \<and>
    (\<forall>j \<in> set (account_erasure_jobs (db w')). ej_id j = ej_id job \<longrightarrow> certified job j)"
proof -
  let ?uid = "ej_user_id job"
  obtain t1 t2 ls c cert where gate: "\<exists>u at'. find (\<lambda>u. u_id u = ?uid) (users (db w)) = Some u \<and>
      u_deleted_at u = Some at' \<and> at' \<le> ej_eligible_at job \<and> u_status u = StatusDeleted"
    and bs: "\<forall>r \<in> set (bundles (db w)). b_user_id r \<noteq> ?uid" and ss: "\<forall>r \<in> set (snapshots (db w)). s_user_id r \<noteq> ?uid"
    and cert: "ec_JobID cert = ej_id job \<and> ec_UserID cert = ?uid \<and> ec_Status cert = ''completed''"
    and d: "db w' = (update_jobs (\<lambda>j. ej_id j = ej_id job) (\<lambda>j. j\<lparr>ej_status := ErasureCompleted,
        ej_summary := certificate_json cert, ej_last_error := '''', ej_finished_at := Some at\<rparr>) t2
      (update_users (\<lambda>u. u_id u = ?uid \<and> \<not> live_user u) anonymize_user t1
        (erased ?uid at (db w))))\<lparr>uuid_ctr := c, audit_logs := ls\<rparr>"
    using assms(1) by (rule complete_ok)
  obtain u0 deleted where u0: "u0 \<in> set (users (db w))" "u_id u0 = ?uid" "u_deleted_at u0 = Some deleted"
      "deleted \<le> ej_eligible_at job"
    using gate find_Some_in by fastforce
  have "\<not> live_user x" if "x \<in> set (users (db w))" "u_id x = ?uid" for x
  proof -
    have "x = u0"
      using that u0(1,2) assms(2) inj_onD [of u_id "set (users (db w))" x u0] by (simp add: distinct_map)
    with u0(3) show ?thesis
      by (simp add: live_user_def)
  qed
  then have "tombstone x" if "x \<in> set (users (db w'))" "u_id x = ?uid" for x
    using that unfolding d
    by (auto simp: update_users_def update_jobs_def erased_def anonymize_tombstone elim!: in_update_whereE split: if_splits)
  moreover have "?uid \<notin> set (owners (db w'))"
    using bs ss unfolding d by (auto simp: owners_def update_users_def update_jobs_def erased_def)
  moreover have "pc_consumed_at x \<noteq> None" if "x \<in> set (passkey_challenges (db w'))" "pc_user_id x = Some ?uid" for x
    using that unfolding d
    by (auto simp: update_users_def update_jobs_def erased_def elim!: in_update_whereE split: if_splits)
  moreover have "certified job j" if "j \<in> set (account_erasure_jobs (db w'))" "ej_id j = ej_id job" for j
    using that cert unfolding d
    by (auto simp: update_users_def update_jobs_def erased_def certified_def elim!: in_update_whereE split: if_splits)
  ultimately show ?thesis
    using u0 by blast
qed

text \<open>User u1 deleted at instant 50, with a device and a token left and a job due at 60.\<close>

definition sample_job :: erasure_job where
  "sample_job =
     \<lparr>ej_id = ''j1'', ej_user_id = ''u1'', ej_requested_at = 50, ej_eligible_at = 60, ej_status = ErasurePending,
      ej_summary = JObj [(''soft_deleted_bundles'', JNum 2)], ej_last_error = '''', ej_created_at = 50,
      ej_updated_at = 50, ej_started_at = None, ej_finished_at = None\<rparr>"

definition erasure_world :: world where
  "erasure_world = world_of (sample_db\<lparr>
     users := [(sample_user ''u1'' ''a@x.io'')\<lparr>u_status := StatusDeleted, u_deleted_at := Some 50\<rparr>, sample_user ''u2'' ''b@x.io''],
     account_erasure_jobs := [sample_job],
     refresh_tokens := [\<lparr>rt_id = ''t1'', rt_user_id = ''u1'', rt_token_hash = ''h'', rt_device_info = '''',
        rt_expires_at = 900, rt_revoked_at = Some 50, rt_created_at = 1\<rparr>]\<rparr>) []"

lemma erasable_sample: "erasable sample_job (db erasure_world)"
  by code_simp

theorem erasure_leaves_no_trace_witness:
  "\<exists>w'. completeErasureJob None sample_job 100 erasure_world = (Inr (), w') \<and> ''u1'' \<notin> set (owners (db w')) \<and>
     ''u1'' \<in> set (owners (db erasure_world))"
proof -
  have f: "faults erasure_world = []"
    by (simp add: erasure_world_def world_of_def)
  obtain w' where run: "completeErasureJob None sample_job 100 erasure_world = (Inr (), w')"
    using complete_succeeds [OF erasable_sample f, of None 100] by auto
  have "distinct (map u_id (users (db erasure_world)))"
    by (simp add: erasure_world_def world_of_def sample_user_def)
  from erasure_leaves_no_trace [OF run this] have "''u1'' \<notin> set (owners (db w'))"
    by (simp add: sample_job_def)
  moreover have "''u1'' \<in> set (owners (db erasure_world))"
    by code_simp
  ultimately show ?thesis
    using run by blast
qed

text \<open>
  C17. A run of the erasure jobs, whatever fails, leaves every table row of a user alone who is
  not soft-deleted, and of every user without a job that is due.
\<close>

theorem erasure_spares_others:
  assumes "RunErasureJobs rep w = (r, w')"
    and "(\<exists>u. find (\<lambda>u. u_id u = v) (users (db w)) = Some u \<and> live_user u) \<or>
         (\<forall>j \<in> set (account_erasure_jobs (db w)). ej_user_id j = v \<longrightarrow> \<not> job_eligible (now w') j)"
  shows "account_data v (db w') = account_data v (db w)"
  using assms(1)
proof (cases rule: run_cases)
  case (ran at jobs w1)
  let ?X = "account_data v (db w)"
  have "keepsM (account_is v ?X) (completeErasureJob rep job at)" if "job \<in> set jobs" for job
    using assms(2)
  proof
    assume "\<exists>u. find (\<lambda>u. u_id u = v) (users (db w)) = Some u \<and> live_user u"
    then show ?thesis
      using gate_stops_live [of v ?X] by (auto simp: account_data_def find_filter_same)
  next
    assume "\<forall>j \<in> set (account_erasure_jobs (db w)). ej_user_id j = v \<longrightarrow> \<not> job_eligible (now w') j"
    moreover have "job \<in> set (account_erasure_jobs (db w))" and "job_eligible (now w') job"
      using ran(2,4) that by (auto simp: job_eligible_def)
    ultimately have "ej_user_id job \<noteq> v"
      by blast
    then show ?thesis
      by (rule keeps_account_complete)
  qed
  then have "keepsM (account_is v ?X) (forM jobs report (run_job rep at))" for report
    by (intro keeps_for_in keeps_run_job)
  from keepsM_D [OF this _ ran(3)] show ?thesis
    using ran(1) by simp
qed simp

theorem erasure_spares_others_witness:
  "account_data ''u2'' (db (snd (RunErasureJobs None erasure_world))) = account_data ''u2'' (db erasure_world)"
proof -
  have "\<exists>u. find (\<lambda>u. u_id u = ''u2'') (users (db erasure_world)) = Some u \<and> live_user u"
    by (simp add: erasure_world_def world_of_def sample_user_def live_user_def)
  then show ?thesis
    using erasure_spares_others [of None erasure_world _ _ "''u2''"] by (metis prod.collapse)
qed

section \<open>Runs\<close>

definition balanced :: "run_report \<Rightarrow> int" where
  "balanced r = er_Checked r - er_Completed r - er_Failed r - er_Skipped r"

lemma run_job_counts:
  assumes "run_job rep at job r0 w = (Inr r1, w')"
  shows "er_Checked r1 = er_Checked r0 + 1 \<and> balanced r1 = balanced r0"
proof -
  let ?r = "r0\<lparr>er_Checked := er_Checked r0 + 1\<rparr>"
  obtain claimed w1 w2 where "ctx_Err w = (Inr (), w1)" and "ErasureJobs_MarkRunning (ej_id job) at w1 = (Inr claimed, w2)"
    and rest: "(if \<not> claimed then retM (?r\<lparr>er_Skipped := er_Skipped ?r + 1\<rparr>)
      else thenM (recordErasureAudit job ''account.erasure.job_started'' [(''status'', Opaque (JStr ''running''))])
       (bindM (tryM (completeErasureJob rep job at)) (\<lambda>r.
        case r of
          Inl e \<Rightarrow> thenM (fail_job job e) (retM (?r\<lparr>er_Failed := er_Failed ?r + 1\<rparr>))
        | Inr u \<Rightarrow> retM (?r\<lparr>er_Completed := er_Completed ?r + 1\<rparr>)))) w2 = (Inr r1, w')"
    using assms unfolding run_job_def Let_def thenM_Inr_iff bindM_Inr_iff by auto
  show ?thesis
  proof (cases claimed)
    case True
    then obtain w3 x w4 where "completeErasureJob rep job at w3 = (x, w4)"
      and "(case x of Inl e \<Rightarrow> thenM (fail_job job e) (retM (?r\<lparr>er_Failed := er_Failed r0 + 1\<rparr>))
        | Inr u \<Rightarrow> retM (?r\<lparr>er_Completed := er_Completed r0 + 1\<rparr>)) w4 = (Inr r1, w')"
      using rest by (auto simp: run_ok)
    then show ?thesis
      by (cases x) (auto simp: balanced_def run_ok)
  qed (use rest in \<open>auto simp: balanced_def\<close>)
qed

lemma run_counts:
  "forM jobs r0 (run_job rep at) w = (Inr r1, w') \<Longrightarrow>
   er_Checked r1 = er_Checked r0 + int (length jobs) \<and> balanced r1 = balanced r0"
proof (induction jobs arbitrary: r0 w)
  case (Cons job jobs)
  then obtain r w1 where "run_job rep at job r0 w = (Inr r, w1)" and "forM jobs r (run_job rep at) w1 = (Inr r1, w')"
    by (auto simp: run_ok)
  with Cons.IH run_job_counts show ?case
    by fastforce
qed simp

text \<open>
  C18. A completed job is final: a run never changes it again, its certificate included. And
  the report of a run that ends without an error accounts for every job it checked, at most 50.
\<close>

theorem completed_jobs_are_final:
  assumes "RunErasureJobs rep w = (r, w')" and "distinct (map ej_id (account_erasure_jobs (db w)))"
  shows "(\<forall>c \<in> set (account_erasure_jobs (db w)). ej_status c = ErasureCompleted \<longrightarrow> c \<in> set (account_erasure_jobs (db w'))) \<and>
    (\<forall>report. r = Inr report \<longrightarrow> er_Checked report = er_Completed report + er_Failed report + er_Skipped report \<and>
       er_Checked report \<le> 50)"
  using assms(1)
proof (cases rule: run_cases)
  case (ran at jobs w1)
  have "c \<in> set (account_erasure_jobs (db w'))"
    if "c \<in> set (account_erasure_jobs (db w))" "ej_status c = ErasureCompleted" for c
    using keepsM_D [OF keeps_for [OF keeps_kept_run_job [OF that(2)]] _ ran(3)] that(1) assms(2) ran(1) by simp
  moreover have "er_Checked report = int (length jobs) \<and> balanced report = 0" if "r = Inr report" for report
    using run_counts ran(3) that by (fastforce simp: balanced_def)
  ultimately show ?thesis
    using ran(5) by (auto simp: balanced_def)
qed simp

theorem completed_jobs_are_final_witness:
  "sample_job\<lparr>ej_status := ErasureCompleted\<rparr> \<in> set (account_erasure_jobs (db (snd (RunErasureJobs None
     (erasure_world\<lparr>db := (db erasure_world)\<lparr>account_erasure_jobs := [sample_job\<lparr>ej_status := ErasureCompleted\<rparr>]\<rparr>\<rparr>)))))"
proof -
  let ?w = "erasure_world\<lparr>db := (db erasure_world)\<lparr>account_erasure_jobs := [sample_job\<lparr>ej_status := ErasureCompleted\<rparr>]\<rparr>\<rparr>"
  have "distinct (map ej_id (account_erasure_jobs (db ?w)))"
    by simp
  from completed_jobs_are_final [OF surjective_pairing this] show ?thesis
    by simp
qed

lemma claim_due:
  assumes "faults w = []" and "\<exists>j \<in> set (account_erasure_jobs (db w)). ej_id j = i \<and> job_eligible at j"
  shows "\<exists>w'. ErasureJobs_MarkRunning i at w = (Inr True, w') \<and> faults w' = [] \<and>
    (\<exists>js. db w' = (db w)\<lparr>account_erasure_jobs := js\<rparr>)"
  using assms by (auto simp: ErasureJobs_MarkRunning_def wrapM_def execM_nofault Let_def update_jobs_def)

lemma smooth_audit: "faults w = [] \<Longrightarrow> \<exists>w'. recordErasureAudit job e m w = (Inr (), w') \<and> faults w' = [] \<and>
   (\<exists>ls c. db w' = (db w)\<lparr>uuid_ctr := c, audit_logs := ls\<rparr>)"
proof -
  assume f: "faults w = []"
  have "faults (snd (Audit_Record i w)) = []" for i
    using f by (auto simp: Audit_Record_def Audit_Create_def execM_nofault Let_def case_prod_beta split: sum.split)
  then show ?thesis
    using audit_record_frame [of _ w] by (auto simp: recordErasureAudit_def ignoreM_def case_prod_beta)
qed

lemma run_job_completes:
  assumes "faults w = []" and "erasable job (db w)" and "job \<in> set (account_erasure_jobs (db w))"
    and "job_eligible at job" and "\<forall>describe \<in> set_option rep. \<exists>items. describe (ej_user_id job) = Inr items"
  shows "\<exists>r w'. run_job rep at job r0 w = (Inr r, w') \<and> er_Completed r = er_Completed r0 + 1 \<and> er_Failed r = er_Failed r0"
proof -
  have ctx: "ctx_Err w = (Inr (), drop_fault w)"
    using assms(1) by (simp add: ctx_Err_def)
  obtain w2 js where 2: "ErasureJobs_MarkRunning (ej_id job) at (drop_fault w) = (Inr True, w2)" "faults w2 = []"
    "db w2 = (db w)\<lparr>account_erasure_jobs := js\<rparr>"
    using claim_due [of "drop_fault w" "ej_id job" at] assms(1,3,4) by auto
  obtain w3 ls c where 3: "recordErasureAudit job ''account.erasure.job_started'' [(''status'', Opaque (JStr ''running''))] w2 = (Inr (), w3)"
    "faults w3 = []" "db w3 = (db w2)\<lparr>uuid_ctr := c, audit_logs := ls\<rparr>"
    using smooth_audit [OF 2(2)] by blast
  have "erasable job (db w3)"
    using assms(2) 2(3) 3(3) by (simp add: erasable_def)
  then obtain w4 where 4: "completeErasureJob rep job at w3 = (Inr (), w4)"
    using complete_succeeds [OF _ 3(2) assms(5)] by blast
  with ctx 2(1) 3(1) show ?thesis
    by (simp add: run_job_def run_ok Let_def tryM_def bindM_def thenM_def)
qed



end
