(* ===== verification/Account.thy ===== *)
theory Account
  imports Erasure
begin

text \<open>
  AccountService (pkg/service/account.go): the self-service deletion of an account, which
  revokes every credential, soft-deletes the artifacts and the user and leaves an erasure
  job for the retention runner, and the privacy export. The edition's deletion policy is a
  parameter, its answer for a user; \<open>net/url\<close>'s parser, of which the export uses scheme and
  host, is one too, as what is proved holds whatever it answers. A Go result returned
  together with an error is the result paired with the sentinel.
\<close>

section \<open>Data\<close>

record deletion_input =
  di_UserID :: uuid
  di_RequestID :: string
  di_IP :: string
  di_UserAgent :: string

record policy_reason =
  pr_Code :: string
  pr_Message :: string
  pr_Review :: bool

record deletion_decision =
  dd_Allowed :: bool
  dd_RequiresReview :: bool
  dd_Reasons :: "policy_reason list"

record deletion_policy_result =
  dp_Allowed :: bool
  dp_RequiresReview :: bool
  dp_Reasons :: "policy_reason list"

record deletion_result =
  dl_Status :: string
  dl_DeletedAt :: "time option"
  dl_RetentionGraceSeconds :: int
  dl_Policy :: deletion_policy_result
  dl_RevokedRefreshTokens :: bool
  dl_RevokedDeviceTokens :: bool
  dl_RemovedTwoFactor :: bool
  dl_RemovedPasskeys :: bool
  dl_ExpiredSessionChallenges :: bool
  dl_SoftDeletedBundles :: int
  dl_SoftDeletedBundleBytes :: int
  dl_SoftDeletedSnapshots :: int
  dl_SoftDeletedSnapshotBytes :: int
  dl_ErasureJobID :: uuid
  dl_ErasureEligibleAt :: "time option"

text \<open>\<open>EvaluateAccountDeletion\<close>; a nil decision is \<open>None\<close>.\<close>

type_synonym deletion_policy = "user \<Rightarrow> goerr + deletion_decision option"

section \<open>Audit\<close>

definition recordDeletionAudit :: "deletion_input \<Rightarrow> string \<Rightarrow> (string \<times> go_any) list \<Rightarrow> unit app" where
  "recordDeletionAudit i eventType metadata =
     (if di_UserID i = uuid_Nil then retM ()
      else ignoreM (Audit_Record
        \<lparr>ae_ActorUserID = Some (di_UserID i), ae_EventType = eventType, ae_TargetType = ''user'',
         ae_TargetID = di_UserID i, ae_IP = di_IP i, ae_UserAgent = di_UserAgent i,
         ae_Metadata = AList.update ''step_up_required'' (Opaque (JBool True)) metadata\<rparr>))"

definition reasons_json :: "policy_reason list \<Rightarrow> json" where
  "reasons_json rs = (if rs = [] then JNull else JArr (map (\<lambda>r. JObj (
     [(''code'', JStr (pr_Code r)), (''message'', JStr (pr_Message r))]
     @ omitempty (\<not> pr_Review r) ''review'' (JBool True))) rs))"

definition result_metadata :: "deletion_result \<Rightarrow> (string \<times> go_any) list" where
  "result_metadata r =
     [(''policy_allowed'', Opaque (JBool (dp_Allowed (dl_Policy r)))),
      (''policy_requires_review'', Opaque (JBool (dp_RequiresReview (dl_Policy r)))),
      (''policy_reasons'', Opaque (reasons_json (dp_Reasons (dl_Policy r)))),
      (''revoked_refresh_tokens'', Opaque (JBool (dl_RevokedRefreshTokens r))),
      (''revoked_device_tokens'', Opaque (JBool (dl_RevokedDeviceTokens r))),
      (''removed_two_factor'', Opaque (JBool (dl_RemovedTwoFactor r))),
      (''removed_passkeys'', Opaque (JBool (dl_RemovedPasskeys r))),
      (''expired_session_challenges'', Opaque (JBool (dl_ExpiredSessionChallenges r))),
      (''soft_deleted_bundles'', Opaque (JNum (dl_SoftDeletedBundles r))),
      (''soft_deleted_bundle_bytes'', Opaque (JNum (dl_SoftDeletedBundleBytes r))),
      (''soft_deleted_snapshots'', Opaque (JNum (dl_SoftDeletedSnapshots r))),
      (''soft_deleted_snapshot_bytes'', Opaque (JNum (dl_SoftDeletedSnapshotBytes r)))]
     @ (if dl_ErasureJobID r = uuid_Nil then [] else [(''erasure_job_id'', Opaque (JStr (dl_ErasureJobID r)))])
     @ (case dl_ErasureEligibleAt r of None \<Rightarrow> [] | Some t \<Rightarrow> [(''erasure_eligible_at'', Opaque (JTime t))])"

definition recordDeletionResult :: "deletion_input \<Rightarrow> deletion_result option \<Rightarrow> string \<Rightarrow> string \<Rightarrow> unit app" where
  "recordDeletionResult i result status failure =
     recordDeletionAudit i ''account.deletion.result''
       ([(''request_id'', Opaque (JStr (di_RequestID i))), (''status'', Opaque (JStr status))]
        @ (if failure = '''' then [] else [(''failure'', Opaque (JStr failure))])
        @ (case result of None \<Rightarrow> [] | Some r \<Rightarrow> result_metadata r))"

text \<open>
  The shape of every step of the deletion: when the call fails, the failure is recorded
  with its step, and the deletion ends with the wrapped error.
\<close>

definition audited :: "deletion_input \<Rightarrow> deletion_result option \<Rightarrow> string \<Rightarrow> string \<Rightarrow> 'a app \<Rightarrow> 'a app" where
  "audited i result step msg m =
     bindM (tryM m) (\<lambda>r.
     case r of
       Inl e \<Rightarrow> thenM (recordDeletionResult i result ''failed'' step) (errM (Wrap msg e))
     | Inr x \<Rightarrow> retM x)"

section \<open>Deletion\<close>

definition accountDeletionPolicyResult :: "deletion_decision option \<Rightarrow> deletion_policy_result" where
  "accountDeletionPolicyResult decision =
     (case decision of
        None \<Rightarrow> \<lparr>dp_Allowed = True, dp_RequiresReview = False, dp_Reasons = []\<rparr>
      | Some d \<Rightarrow> \<lparr>dp_Allowed = (dd_Allowed d \<and> \<not> dd_RequiresReview d),
                   dp_RequiresReview = dd_RequiresReview d, dp_Reasons = dd_Reasons d\<rparr>)"

definition pending_result :: "duration \<Rightarrow> deletion_policy_result \<Rightarrow> deletion_result" where
  "pending_result grace policy =
     \<lparr>dl_Status = ''pending'', dl_DeletedAt = None, dl_RetentionGraceSeconds = quot_go grace Second,
      dl_Policy = policy, dl_RevokedRefreshTokens = False, dl_RevokedDeviceTokens = False,
      dl_RemovedTwoFactor = False, dl_RemovedPasskeys = False, dl_ExpiredSessionChallenges = False,
      dl_SoftDeletedBundles = 0, dl_SoftDeletedBundleBytes = 0, dl_SoftDeletedSnapshots = 0,
      dl_SoftDeletedSnapshotBytes = 0, dl_ErasureJobID = uuid_Nil, dl_ErasureEligibleAt = None\<rparr>"

definition new_erasure_job :: "uuid \<Rightarrow> time \<Rightarrow> time \<Rightarrow> erasure_job" where
  "new_erasure_job uid at eligible =
     \<lparr>ej_id = uuid_Nil, ej_user_id = uid, ej_requested_at = at, ej_eligible_at = eligible,
      ej_status = ErasurePending, ej_summary = JNull, ej_last_error = '''', ej_created_at = zero_time,
      ej_updated_at = zero_time, ej_started_at = None, ej_finished_at = None\<rparr>"

definition create_erasure_job :: "deletion_input \<Rightarrow> deletion_result \<Rightarrow> time \<Rightarrow> time \<Rightarrow> (erasure_job \<times> deletion_result) app" where
  "create_erasure_job i result at eligible =
     bindM (audited i (Some result) ''create_erasure_job'' ''create erasure job''
              (ErasureJobs_Create (new_erasure_job (di_UserID i) at eligible))) (\<lambda>job.
     thenM (recordDeletionAudit i ''account.erasure.job_created''
              [(''request_id'', Opaque (JStr (di_RequestID i))), (''job_id'', Opaque (JStr (ej_id job))),
               (''eligible_at'', Opaque (JTime (ej_eligible_at job))), (''status'', Opaque (JStr ''pending''))])
     (retM (job, result\<lparr>dl_ErasureJobID := ej_id job, dl_ErasureEligibleAt := Some (ej_eligible_at job)\<rparr>)))"

definition revoke_credentials :: "deletion_input \<Rightarrow> time \<Rightarrow> deletion_result \<Rightarrow> deletion_result app" where
  "revoke_credentials i at r0 =
     (let uid = di_UserID i;
          r1 = r0\<lparr>dl_RevokedRefreshTokens := True\<rparr>;
          r2 = r1\<lparr>dl_RevokedDeviceTokens := True\<rparr>;
          r3 = r2\<lparr>dl_RemovedTwoFactor := True\<rparr>;
          r4 = r3\<lparr>dl_ExpiredSessionChallenges := True\<rparr> in
      thenM (audited i (Some r0) ''revoke_refresh_tokens'' ''revoke refresh tokens''
               (RefreshTokens_RevokeAllUserTokens uid))
     (thenM (audited i (Some r1) ''revoke_device_tokens'' ''revoke device tokens''
               (Devices_RevokeAllByUser uid))
     (thenM (audited i (Some r2) ''delete_two_factor'' ''delete two factor state''
               (TwoFactor_DeleteByUser uid))
     (thenM (audited i (Some r3) ''expire_passkey_challenges'' ''expire passkey challenges''
               (Passkeys_ExpireChallengesByUser uid at))
     (thenM (audited i (Some r4) ''delete_passkeys'' ''delete passkeys''
               (Passkeys_DeleteCredentialsByUser uid))
            (retM (r4\<lparr>dl_RemovedPasskeys := True\<rparr>)))))))"

definition soft_delete_artifacts :: "deletion_input \<Rightarrow> time \<Rightarrow> deletion_result \<Rightarrow> deletion_result app" where
  "soft_delete_artifacts i at r0 =
     (let uid = di_UserID i in
      bindM (audited i (Some r0) ''soft_delete_bundles'' ''soft delete bundles''
               (Bundles_SoftDeleteAllByUser uid at)) (\<lambda>(n, bytes).
      let r1 = r0\<lparr>dl_SoftDeletedBundles := n, dl_SoftDeletedBundleBytes := bytes\<rparr> in
      thenM (if bytes > 0 then audited i (Some r1) ''remove_bundle_usage'' ''remove bundle usage''
                                 (Quota_RemoveBundleUsage uid bytes) else retM ())
     (bindM (audited i (Some r1) ''soft_delete_snapshots'' ''soft delete snapshots''
               (Snapshots_SoftDeleteAllByUser uid at)) (\<lambda>(m, sbytes).
      let r2 = r1\<lparr>dl_SoftDeletedSnapshots := m, dl_SoftDeletedSnapshotBytes := sbytes\<rparr> in
      thenM (if sbytes > 0 then audited i (Some r2) ''remove_snapshot_usage'' ''remove snapshot usage''
                                  (Quota_RemoveSnapshotUsage uid sbytes) else retM ())
            (retM r2)))))"

definition job_summary :: "time \<Rightarrow> time \<Rightarrow> deletion_result \<Rightarrow> json" where
  "job_summary at eligible r = JObj
     [(''status'', JStr ''pending_retention''), (''requested_at'', JTime at), (''eligible_at'', JTime eligible),
      (''soft_deleted_bundles'', JNum (dl_SoftDeletedBundles r)),
      (''soft_deleted_bundle_bytes'', JNum (dl_SoftDeletedBundleBytes r)),
      (''soft_deleted_snapshots'', JNum (dl_SoftDeletedSnapshots r)),
      (''soft_deleted_snapshot_bytes'', JNum (dl_SoftDeletedSnapshotBytes r)),
      (''zero_knowledge_boundary_note'', JStr ''sync blobs remain opaque encrypted objects and are not parsed or decrypted'')]"

definition delete_allowed :: "duration \<Rightarrow> deletion_input \<Rightarrow> deletion_result \<Rightarrow> deletion_result app" where
  "delete_allowed grace i result0 =
     bindM time_Now (\<lambda>at.
     let eligible = at + grace in
     bindM (create_erasure_job i result0 at eligible) (\<lambda>(job, result1).
     bindM (revoke_credentials i at result1) (\<lambda>result2.
     bindM (soft_delete_artifacts i at result2) (\<lambda>result3.
     thenM (if ej_id job \<noteq> uuid_Nil
            then audited i (Some result3) ''update_erasure_job_summary'' ''update erasure job summary''
                   (ErasureJobs_UpdateSummary (ej_id job) (job_summary at eligible result3))
            else retM ())
    (thenM (audited i (Some result3) ''soft_delete_user'' ''soft delete user'' (Users_SoftDelete (di_UserID i)))
     (let result4 = result3\<lparr>dl_Status := ''deleted'', dl_DeletedAt := Some at\<rparr> in
      thenM (recordDeletionResult i (Some result4) (dl_Status result4) '''') (retM result4)))))))"

definition decide_deletion :: "duration \<Rightarrow> deletion_input \<Rightarrow> deletion_decision option \<Rightarrow> (deletion_result \<times> sentinel option) app" where
  "decide_deletion grace i decision =
     (let policyResult = accountDeletionPolicyResult decision;
          result = pending_result grace policyResult in
      if dp_RequiresReview policyResult then
        let r = result\<lparr>dl_Status := ''review_required''\<rparr> in
        thenM (recordDeletionResult i (Some r) (dl_Status r) ''policy_review_required'')
              (retM (r, Some ErrAccountDeletionRequiresReview))
      else if \<not> dp_Allowed policyResult then
        let r = result\<lparr>dl_Status := ''blocked''\<rparr> in
        thenM (recordDeletionResult i (Some r) (dl_Status r) ''policy_blocked'')
              (retM (r, Some ErrAccountDeletionBlocked))
      else bindM (delete_allowed grace i result) (\<lambda>r. retM (r, None)))"

definition DeleteAccount :: "deletion_policy \<Rightarrow> duration \<Rightarrow> deletion_input \<Rightarrow> (deletion_result \<times> sentinel option) app" where
  "DeleteAccount policy grace i =
     thenM (recordDeletionAudit i ''account.deletion.request''
              [(''request_id'', Opaque (JStr (di_RequestID i))), (''status'', Opaque (JStr ''requested''))])
    (bindM (audited i None ''get_user'' ''get user'' (Users_GetByID (di_UserID i))) (\<lambda>u.
     case u of
       None \<Rightarrow> thenM (recordDeletionResult i None ''failed'' ''user_not_found'') (errM (Sentinel ErrUserNotFound))
     | Some user \<Rightarrow>
         bindM (audited i None ''policy_error'' ''evaluate account deletion policy''
                  (case policy user of Inl e \<Rightarrow> errM e | Inr d \<Rightarrow> retM d)) (decide_deletion grace i)))"

section \<open>What a deletion does to the database\<close>

lemma audited_Inr_iff [simp]: "audited i r s msg m w = (Inr x, w') \<longleftrightarrow> m w = (Inr x, w')"
proof -
  have "audited i r s msg m w = (Inr x, w') \<longleftrightarrow>
      (\<exists>e u. m w = (Inl e, u) \<and> thenM (recordDeletionResult i r ''failed'' s) (errM (Wrap msg e)) u = (Inr x, w')) \<or>
      (\<exists>y u. m w = (Inr y, u) \<and> retM y u = (Inr x, w'))"
    unfolding audited_def catch_Inr_iff ..
  then show ?thesis
    by (auto simp: run_ok)
qed

lemma deletion_audit_ok:
  "recordDeletionAudit i e m w = (Inr u, w') \<Longrightarrow> \<exists>ls c. db w' = (db w)\<lparr>uuid_ctr := c, audit_logs := ls\<rparr>"
proof -
  have "db w = (db w)\<lparr>uuid_ctr := uuid_ctr (db w), audit_logs := audit_logs (db w)\<rparr>"
    by simp
  then have "\<exists>ls c. db w = (db w)\<lparr>uuid_ctr := c, audit_logs := ls\<rparr>"
    by blast
  then show "recordDeletionAudit i e m w = (Inr u, w') \<Longrightarrow> ?thesis"
    using audit_record_frame by (auto simp: recordDeletionAudit_def split: if_splits)
qed

definition credentials_revoked :: "uuid \<Rightarrow> time \<Rightarrow> time \<Rightarrow> time \<Rightarrow> db \<Rightarrow> db" where
  "credentials_revoked uid at t1 t2 d = d\<lparr>
     refresh_tokens := update_where (\<lambda>r. rt_user_id r = uid \<and> rt_revoked_at r = None)
       (\<lambda>r. r\<lparr>rt_revoked_at := Some t1\<rparr>) (refresh_tokens d),
     devices := update_where (\<lambda>r. d_user_id r = uid \<and> d_revoked_at r = None)
       (\<lambda>r. r\<lparr>d_revoked_at := Some t2\<rparr>) (devices d),
     backup_codes := delete_where (\<lambda>r. bc_user_id r = uid) (backup_codes d),
     user_two_factor := delete_where (\<lambda>r. tf_user_id r = uid) (user_two_factor d),
     passkey_challenges := update_where (\<lambda>r. pc_user_id r = Some uid \<and> pc_consumed_at r = None)
       (\<lambda>r. r\<lparr>pc_consumed_at := Some at, pc_expires_at := min (pc_expires_at r) at\<rparr>) (passkey_challenges d),
     passkey_credentials := delete_where (\<lambda>r. pk_user_id r = uid) (passkey_credentials d)\<rparr>"

lemma revoke_ok:
  assumes "revoke_credentials i at r w = (Inr r', w')"
  shows "\<exists>t1 t2. db w' = credentials_revoked (di_UserID i) at t1 t2 (db w)"
  using assms unfolding revoke_credentials_def RefreshTokens_RevokeAllUserTokens_def Devices_RevokeAllByUser_def
    TwoFactor_DeleteByUser_def Passkeys_ExpireChallengesByUser_def Passkeys_DeleteCredentialsByUser_def
    credentials_revoked_def
  by (clarsimp simp: run_ok execM_ok time_Now_ok Let_def) (intro exI, rule refl)

definition artifacts_deleted :: "uuid \<Rightarrow> time \<Rightarrow> quota_usage list \<Rightarrow> db \<Rightarrow> db" where
  "artifacts_deleted uid at us d = d\<lparr>
     bundles := update_where (live_bundle uid) (\<lambda>r. r\<lparr>b_deleted_at := Some at\<rparr>) (bundles d),
     snapshots := update_where (live_snapshot uid) (\<lambda>r. r\<lparr>s_deleted_at := Some at\<rparr>) (snapshots d),
     storage_usage := us\<rparr>"

lemma usage_removed_ok:
  "Quota_RemoveBundleUsage uid n w = (Inr u, w') \<Longrightarrow> \<exists>us. db w' = (db w)\<lparr>storage_usage := us\<rparr>"
  "Quota_RemoveSnapshotUsage uid n w = (Inr u, w') \<Longrightarrow> \<exists>us. db w' = (db w)\<lparr>storage_usage := us\<rparr>"
  unfolding Quota_RemoveBundleUsage_def Quota_RemoveSnapshotUsage_def
  by (auto simp: run_ok execM_ok stmt_remove_usage_def dest!: invalidate_db split: if_splits)

lemma usage_step_ok:
  assumes "(if b then m else retM ()) w = (Inr x, w')"
    and "\<And>u. m w = (Inr u, w') \<Longrightarrow> \<exists>us. db w' = (db w)\<lparr>storage_usage := us\<rparr>"
  shows "\<exists>us. db w' = (db w)\<lparr>storage_usage := us\<rparr>"
proof (cases b)
  case False
  with assms(1) have "db w' = (db w)\<lparr>storage_usage := storage_usage (db w)\<rparr>"
    by simp
  then show ?thesis
    by blast
qed (use assms in auto)

lemma soft_delete_ok:
  assumes "soft_delete_artifacts i at r w = (Inr r', w')"
  shows "\<exists>us. db w' = artifacts_deleted (di_UserID i) at us (db w)"
proof -
  let ?uid = "di_UserID i"
  obtain n bytes m sbytes w1 w2 w3 r1 r2 x1 x2 where
    1: "Bundles_SoftDeleteAllByUser ?uid at w = (Inr (n, bytes), w1)"
    and 2: "(if bytes > 0 then audited i (Some r1) ''remove_bundle_usage'' ''remove bundle usage''
          (Quota_RemoveBundleUsage ?uid bytes) else retM ()) w1 = (Inr x1, w2)"
    and 3: "Snapshots_SoftDeleteAllByUser ?uid at w2 = (Inr (m, sbytes), w3)"
    and 4: "(if sbytes > 0 then audited i (Some r2) ''remove_snapshot_usage'' ''remove snapshot usage''
          (Quota_RemoveSnapshotUsage ?uid sbytes) else retM ()) w3 = (Inr x2, w')"
    using assms unfolding soft_delete_artifacts_def Let_def
    by (auto simp only: run_ok audited_Inr_iff retM_app prod.case prod.inject sum.inject split_paired_Ex)
  obtain us1 where d2: "db w2 = (db w1)\<lparr>storage_usage := us1\<rparr>"
    using usage_step_ok [OF 2] usage_removed_ok by auto
  obtain us2 where d4: "db w' = (db w3)\<lparr>storage_usage := us2\<rparr>"
    using usage_step_ok [OF 4] usage_removed_ok by auto
  have "db w1 = (db w)\<lparr>bundles := update_where (live_bundle ?uid) (\<lambda>r. r\<lparr>b_deleted_at := Some at\<rparr>) (bundles (db w))\<rparr>"
    using 1 by (auto simp: Bundles_SoftDeleteAllByUser_def execM_ok Let_def)
  moreover have "db w3 = (db w2)\<lparr>snapshots := update_where (live_snapshot ?uid) (\<lambda>r. r\<lparr>s_deleted_at := Some at\<rparr>) (snapshots (db w2))\<rparr>"
    using 3 by (auto simp: Snapshots_SoftDeleteAllByUser_def execM_ok Let_def)
  ultimately have "db w' = artifacts_deleted ?uid at us2 (db w)"
    using d2 d4 by (simp add: artifacts_deleted_def)
  then show ?thesis
    by blast
qed

text \<open>
  The specification of a deletion that goes through, table by table: \<open>at\<close> is the instant
  of the request, \<open>t1\<close> to \<open>t3\<close> the instants the repositories stamp, \<open>job\<close> the erasure job.
\<close>

definition account_closed :: "uuid \<Rightarrow> time \<Rightarrow> time \<Rightarrow> time \<Rightarrow> time \<Rightarrow> erasure_job \<Rightarrow> db \<Rightarrow> db \<Rightarrow> bool" where
  "account_closed uid at t1 t2 t3 job d d' \<longleftrightarrow>
     refresh_tokens d' = refresh_tokens (credentials_revoked uid at t1 t2 d) \<and>
     devices d' = devices (credentials_revoked uid at t1 t2 d) \<and>
     backup_codes d' = backup_codes (credentials_revoked uid at t1 t2 d) \<and>
     user_two_factor d' = user_two_factor (credentials_revoked uid at t1 t2 d) \<and>
     passkey_challenges d' = passkey_challenges (credentials_revoked uid at t1 t2 d) \<and>
     passkey_credentials d' = passkey_credentials (credentials_revoked uid at t1 t2 d) \<and>
     bundles d' = bundles (artifacts_deleted uid at [] d) \<and>
     snapshots d' = snapshots (artifacts_deleted uid at [] d) \<and>
     (\<exists>t. users d' = users (update_users (\<lambda>u. u_id u = uid \<and> live_user u)
        (\<lambda>u. u\<lparr>u_status := StatusDeleted, u_deleted_at := Some t3\<rparr>) t d)) \<and>
     account_erasure_jobs d' = account_erasure_jobs d @ [job] \<and>
     (\<forall>j \<in> set (account_erasure_jobs d). ej_user_id j = uid \<longrightarrow> ej_status j = ErasureCompleted) \<and>
     ej_user_id job = uid \<and> ej_status job = ErasurePending"

lemma create_job_ok:
  assumes "create_erasure_job i r at eligible w = (Inr (job, r'), w')" and "at \<noteq> zero_time" and "eligible \<noteq> zero_time"
  shows "\<exists>ls c. db w' = (db w)\<lparr>account_erasure_jobs := account_erasure_jobs (db w) @ [job], uuid_ctr := c, audit_logs := ls\<rparr>"
    and "\<forall>j \<in> set (account_erasure_jobs (db w)). ej_id j \<noteq> ej_id job \<and> (ej_user_id j = di_UserID i \<longrightarrow> ej_status j = ErasureCompleted)"
    and "ej_user_id job = di_UserID i \<and> ej_status job = ErasurePending \<and> ej_requested_at job = at \<and> ej_eligible_at job = eligible"
proof -
  obtain w1 u m where 1: "ErasureJobs_Create (new_erasure_job (di_UserID i) at eligible) w = (Inr job, w1)"
    and 2: "recordDeletionAudit i ''account.erasure.job_created'' m w1 = (Inr u, w')"
    using assms(1) by (auto simp: create_erasure_job_def run_ok)
  obtain ls c where 3: "db w' = (db w1)\<lparr>uuid_ctr := c, audit_logs := ls\<rparr>"
    using deletion_audit_ok [OF 2] by blast
  have 4: "db w1 = (db w)\<lparr>uuid_ctr := Suc (uuid_ctr (db w)), account_erasure_jobs := account_erasure_jobs (db w) @ [job]\<rparr>"
    using 1 assms(2,3)
    by (auto simp: ErasureJobs_Create_def new_erasure_job_def run_ok execM_ok Let_def gen_random_uuid_def
        or_empty_object_def split: if_splits)
  have "db w' = (db w)\<lparr>account_erasure_jobs := account_erasure_jobs (db w) @ [job], uuid_ctr := c, audit_logs := ls\<rparr>"
    unfolding 3 4 by simp
  then show "\<exists>ls c. db w' = (db w)\<lparr>account_erasure_jobs := account_erasure_jobs (db w) @ [job], uuid_ctr := c, audit_logs := ls\<rparr>"
    by blast
  show "\<forall>j \<in> set (account_erasure_jobs (db w)). ej_id j \<noteq> ej_id job \<and> (ej_user_id j = di_UserID i \<longrightarrow> ej_status j = ErasureCompleted)"
    and "ej_user_id job = di_UserID i \<and> ej_status job = ErasurePending \<and> ej_requested_at job = at \<and> ej_eligible_at job = eligible"
    using 1 assms(2,3)
    by (auto simp: ErasureJobs_Create_def new_erasure_job_def run_ok execM_ok Let_def gen_random_uuid_def
        open_job_def split: if_splits)
qed

lemma delete_allowed_ok:
  assumes "delete_allowed grace i r0 w = (Inr r, w')" and "now (tick w) \<noteq> zero_time" and "now (tick w) + grace \<noteq> zero_time"
  obtains t1 t2 t3 job where "account_closed (di_UserID i) (now (tick w)) t1 t2 t3 job (db w) (db w')"
    and "ej_requested_at job = now (tick w)" and "ej_eligible_at job = now (tick w) + grace"
    and "t3 \<le> now w'" and "dl_Status r = ''deleted''"
proof -
  let ?at = "now (tick w)" and ?uid = "di_UserID i"
  obtain job r1 w2 r2 w3 r3 w4 x5 w5 x6 w6 x7 where
    2: "create_erasure_job i r0 ?at (?at + grace) (tick w) = (Inr (job, r1), w2)"
    and 3: "revoke_credentials i ?at r1 w2 = (Inr r2, w3)"
    and 4: "soft_delete_artifacts i ?at r2 w3 = (Inr r3, w4)"
    and 5: "(if ej_id job \<noteq> uuid_Nil
            then audited i (Some r3) ''update_erasure_job_summary'' ''update erasure job summary''
                   (ErasureJobs_UpdateSummary (ej_id job) (job_summary ?at (?at + grace) r3))
            else retM ()) w4 = (Inr x5, w5)"
    and 6: "Users_SoftDelete ?uid w5 = (Inr x6, w6)"
    and 7: "recordDeletionResult i (Some (r3\<lparr>dl_Status := ''deleted'', dl_DeletedAt := Some ?at\<rparr>)) ''deleted'' '''' w6 = (Inr x7, w')"
    and r: "dl_Status r = ''deleted''"
    using assms(1) unfolding delete_allowed_def Let_def
    by (auto simp: run_ok time_Now_ok split: prod.splits simp del: if_split)
  obtain ls c where d2: "db w2 = (db w)\<lparr>account_erasure_jobs := account_erasure_jobs (db w) @ [job], uuid_ctr := c, audit_logs := ls\<rparr>"
    using create_job_ok(1) [OF 2 assms(2,3)] by auto
  have fresh: "\<forall>j \<in> set (account_erasure_jobs (db w)). ej_id j \<noteq> ej_id job \<and> (ej_user_id j = ?uid \<longrightarrow> ej_status j = ErasureCompleted)"
    and job: "ej_user_id job = ?uid" "ej_status job = ErasurePending" "ej_requested_at job = ?at" "ej_eligible_at job = ?at + grace"
    using create_job_ok(2,3) [OF 2 assms(2,3)] by auto
  obtain t1 t2 where d3: "db w3 = credentials_revoked ?uid ?at t1 t2 (db w2)"
    using revoke_ok [OF 3] by blast
  obtain us where d4: "db w4 = artifacts_deleted ?uid ?at us (db w3)"
    using soft_delete_ok [OF 4] by blast
  obtain s t where d5: "db w5 = db w4 \<or> db w5 = update_jobs (\<lambda>j. ej_id j = ej_id job) (\<lambda>j. j\<lparr>ej_summary := s\<rparr>) t (db w4)"
    using 5 by (auto simp: ErasureJobs_UpdateSummary_def execM_ok split: if_splits)
  obtain t3 t4 where d6: "db w6 = update_users (\<lambda>u. u_id u = ?uid \<and> live_user u)
        (\<lambda>u. u\<lparr>u_status := StatusDeleted, u_deleted_at := Some t3\<rparr>) t4 (db w5)" and "t3 \<le> now w6"
    using 6 tick_mono by (fastforce simp: Users_SoftDelete_def run_ok time_Now_ok execM_ok)
  moreover have "now w6 \<le> now w'"
  proof -
    have "keepsM (\<lambda>w. now w6 \<le> now w) (recordDeletionResult i r s f)" for r s f
      unfolding recordDeletionResult_def recordDeletionAudit_def Audit_Record_def Audit_Create_def
      by (intro keeps)
    from keepsM_D [OF this _ 7] show ?thesis
      by simp
  qed
  moreover obtain ls' c' where d7: "db w' = (db w6)\<lparr>uuid_ctr := c', audit_logs := ls'\<rparr>"
    using deletion_audit_ok 7 unfolding recordDeletionResult_def by blast
  have others: "update_where (\<lambda>j. ej_id j = ej_id job) f (account_erasure_jobs (db w)) = account_erasure_jobs (db w)" for f
    using fresh by (simp add: update_where_none)
  obtain job' where job': "account_erasure_jobs (db w5) = account_erasure_jobs (db w) @ [job']"
    "ej_user_id job' = ?uid" "ej_status job' = ErasurePending" "ej_requested_at job' = ?at" "ej_eligible_at job' = ?at + grace"
  proof (cases "db w5 = db w4")
    case True
    then show ?thesis
      using that [of job] job d2 d3 d4 by (simp add: artifacts_deleted_def credentials_revoked_def)
  next
    case False
    then have "account_erasure_jobs (db w5) = account_erasure_jobs (db w) @ [job\<lparr>ej_summary := s, ej_updated_at := t\<rparr>]"
      using d5 d2 d3 d4 others
      by (simp add: artifacts_deleted_def credentials_revoked_def update_jobs_def)
        (simp add: update_where_def)
    then show ?thesis
      using that job by simp
  qed
  have frame: "refresh_tokens (db w5) = refresh_tokens (db w4) \<and> devices (db w5) = devices (db w4) \<and>
      backup_codes (db w5) = backup_codes (db w4) \<and> user_two_factor (db w5) = user_two_factor (db w4) \<and>
      passkey_challenges (db w5) = passkey_challenges (db w4) \<and> passkey_credentials (db w5) = passkey_credentials (db w4) \<and>
      bundles (db w5) = bundles (db w4) \<and> snapshots (db w5) = snapshots (db w4) \<and> users (db w5) = users (db w4)"
    using d5 by (auto simp: update_jobs_def)
  have "account_closed ?uid ?at t1 t2 t3 job' (db w) (db w')"
    unfolding account_closed_def using frame fresh job' d7 d6
    by (auto simp: update_users_def d4 d3 d2 artifacts_deleted_def credentials_revoked_def)
  ultimately show ?thesis
    using that job'(4,5) r by fastforce
qed

lemma zero_time_neg: "0 \<le> t \<Longrightarrow> t \<noteq> zero_time"
  by (simp add: zero_time_def Second_def)

lemma now_nonneg: "0 \<le> now w \<Longrightarrow> 0 \<le> now (tick w)"
  using tick_mono [of w] by simp

lemma getbyid_ok:
  "Users_GetByID uid w = (Inr r, w') \<Longrightarrow> db w' = db w \<and> r = find (\<lambda>u. u_id u = uid \<and> live_user u) (users (db w)) \<and> now w \<le> now w'"
  using tick_mono [of w] by (auto simp: Users_GetByID_def queryM_ok)

lemma keeps_deletion_audit_later [keeps]: "keepsM (\<lambda>w. t \<le> now w) (recordDeletionAudit i e m)"
  unfolding recordDeletionAudit_def Audit_Record_def Audit_Create_def
  by (intro keeps)

text \<open>How a deletion request that is answered without an error ran.\<close>

lemma DeleteAccount_Inr:
  assumes "DeleteAccount policy grace i w = (Inr (res, e), w')"
  obtains (deleted) user w1 ls c where "db w1 = (db w)\<lparr>uuid_ctr := c, audit_logs := ls\<rparr>" and "now w \<le> now w1"
      and "find (\<lambda>u. u_id u = di_UserID i \<and> live_user u) (users (db w)) = Some user"
      and "e = None" and "\<exists>r0. delete_allowed grace i r0 w1 = (Inr res, w')"
  | (refused) ls c where "db w' = (db w)\<lparr>uuid_ctr := c, audit_logs := ls\<rparr>" and "e \<noteq> None"
proof -
  obtain u1 w1 r w2 m where
    1: "recordDeletionAudit i ''account.deletion.request'' m w = (Inr u1, w1)"
    and 2: "Users_GetByID (di_UserID i) w1 = (Inr r, w2)"
    and rest: "(case r of
       None \<Rightarrow> thenM (recordDeletionResult i None ''failed'' ''user_not_found'') (errM (Sentinel ErrUserNotFound))
     | Some user \<Rightarrow>
         bindM (audited i None ''policy_error'' ''evaluate account deletion policy''
                  (case policy user of Inl e \<Rightarrow> errM e | Inr d \<Rightarrow> retM d)) (decide_deletion grace i)) w2 = (Inr (res, e), w')"
    using assms unfolding DeleteAccount_def bindM_Inr_iff thenM_Inr_iff audited_Inr_iff by blast
  obtain user where user: "r = Some user"
    using rest by (cases r) (auto simp: run_ok)
  obtain decision where 3: "decide_deletion grace i decision w2 = (Inr (res, e), w')"
    using rest user by (cases "policy user") (auto simp: run_ok)
  obtain ls c where d1: "db w1 = (db w)\<lparr>uuid_ctr := c, audit_logs := ls\<rparr>"
    using deletion_audit_ok [OF 1] by blast
  have 4: "db w2 = db w1" "find (\<lambda>u. u_id u = di_UserID i \<and> live_user u) (users (db w)) = Some user" "now w1 \<le> now w2"
    using getbyid_ok [OF 2] d1 user by simp_all
  have 5: "now w \<le> now w1"
    using keepsM_D [OF keeps_deletion_audit_later _ 1] by simp
  consider (review) "dp_RequiresReview (accountDeletionPolicyResult decision)"
    | (blocked) "\<not> dp_RequiresReview (accountDeletionPolicyResult decision)" "\<not> dp_Allowed (accountDeletionPolicyResult decision)"
    | (allowed) "\<not> dp_RequiresReview (accountDeletionPolicyResult decision)" "dp_Allowed (accountDeletionPolicyResult decision)"
    by blast
  then show ?thesis
  proof cases
    case allowed
    then show ?thesis
      using 3 d1 4 5 deleted [of w2 ls c user] by (auto simp: decide_deletion_def Let_def run_ok)
  next
    case review
    then obtain r s f u where "recordDeletionResult i r s f w2 = (Inr u, w')" "e \<noteq> None"
      using 3 by (auto simp: decide_deletion_def Let_def run_ok)
    then show ?thesis
      using deletion_audit_ok d1 4(1) refused unfolding recordDeletionResult_def by fastforce
  next
    case blocked
    then obtain r s f u where "recordDeletionResult i r s f w2 = (Inr u, w')" "e \<noteq> None"
      using 3 by (auto simp: decide_deletion_def Let_def run_ok)
    then show ?thesis
      using deletion_audit_ok d1 4(1) refused unfolding recordDeletionResult_def by fastforce
  qed
qed

lemma account_closed_cong:
  assumes "account_closed uid at t1 t2 t3 job (d\<lparr>uuid_ctr := c, audit_logs := ls\<rparr>) d'"
  shows "account_closed uid at t1 t2 t3 job d d'"
  using assms by (simp add: account_closed_def credentials_revoked_def artifacts_deleted_def update_users_def)

lemma DeleteAccount_closed:
  assumes "DeleteAccount policy grace i w = (Inr (res, None), w')" and "0 \<le> now w" and "0 \<le> grace"
  obtains at t1 t2 t3 job where "account_closed (di_UserID i) at t1 t2 t3 job (db w) (db w')"
    and "ej_requested_at job = at" and "ej_eligible_at job = at + grace" and "now w \<le> at" and "t3 \<le> now w'"
    and "dl_Status res = ''deleted''"
    and "\<exists>user. find (\<lambda>u. u_id u = di_UserID i \<and> live_user u) (users (db w)) = Some user"
  using assms(1)
proof (cases rule: DeleteAccount_Inr)
  case (deleted user w1 ls c)
  then obtain r0 where run: "delete_allowed grace i r0 w1 = (Inr res, w')"
    by blast
  have at: "now w \<le> now (tick w1)"
    using deleted(2) tick_mono [of w1] by simp
  then have "now (tick w1) \<noteq> zero_time" "now (tick w1) + grace \<noteq> zero_time"
    using assms(2,3) by (simp_all add: zero_time_neg)
  from delete_allowed_ok [OF run this] obtain t1 t2 t3 job where
    closed: "account_closed (di_UserID i) (now (tick w1)) t1 t2 t3 job (db w1) (db w')"
    and job: "ej_requested_at job = now (tick w1)" "ej_eligible_at job = now (tick w1) + grace"
    and t3: "t3 \<le> now w'" and res: "dl_Status res = ''deleted''"
    by blast
  have "account_closed (di_UserID i) (now (tick w1)) t1 t2 t3 job (db w) (db w')"
    using closed unfolding deleted(1) by (rule account_closed_cong)
  from that [OF this job at t3 res] deleted(3) show ?thesis
    by blast
qed simp

section \<open>Other accounts, refused deletions\<close>

text \<open>What the tables hold about \<open>v\<close>, and its erasure jobs.\<close>

abbreviation account_and_jobs :: "uuid \<Rightarrow> _ \<Rightarrow> erasure_job list \<Rightarrow> world \<Rightarrow> bool" where
  "account_and_jobs v X js \<equiv> \<lambda>w. account_data v (db w) = X \<and>
     filter (\<lambda>j. ej_user_id j = v) (account_erasure_jobs (db w)) = js"

abbreviation same_account :: "uuid \<Rightarrow> _ \<Rightarrow> erasure_job list \<Rightarrow> db \<Rightarrow> bool" where
  "same_account v X js \<equiv> \<lambda>d. account_data v d = X \<and> filter (\<lambda>j. ej_user_id j = v) (account_erasure_jobs d) = js"

lemma keeps_same_audit [keeps]: "keepsM (account_and_jobs v X js) (recordDeletionAudit i e m)"
  unfolding recordDeletionAudit_def
  by (intro keeps keeps_Audit_Record [where J = "same_account v X js"]) (simp add: audit_inv_def account_data_def)

lemma keeps_same_result [keeps]: "keepsM (account_and_jobs v X js) (recordDeletionResult i r s f)"
  unfolding recordDeletionResult_def by (intro keeps)

lemma keeps_same_audited [keeps]:
  "keepsM (account_and_jobs v X js) m \<Longrightarrow> keepsM (account_and_jobs v X js) (audited i r s f m)"
  unfolding audited_def by (intro keeps)

lemma keeps_same_prims [keeps]:
  "keepsM (account_and_jobs v X js) time_Now" "keepsM (account_and_jobs v X js) (Users_GetByID uid)"
  unfolding Users_GetByID_def
  by (intro keeps keeps_now_db [where J = "same_account v X js"] keeps_query_db [where J = "same_account v X js"])+

lemma filter_update_marked:
  assumes "uid \<noteq> v" and "\<And>r. k (f r) = k r"
  shows "filter (\<lambda>r. k r = v) (update_where (\<lambda>r. k r = uid \<and> P r) f rows) = filter (\<lambda>r. k r = v) rows"
  by (rule filter_update_where_other) (use assms in auto)

lemma keeps_same_usage:
  assumes "uid \<noteq> v"
  shows "keepsM (account_and_jobs v X js) (Quota_RemoveBundleUsage uid n)"
    and "keepsM (account_and_jobs v X js) (Quota_RemoveSnapshotUsage uid n)"
proof -
  have sub: "q_user_id (sub_count c r) = q_user_id r" for c r
    by (cases c) simp_all
  have other: "filter (\<lambda>r. q_user_id r = v) (update_where (\<lambda>x. q_user_id x = uid)
      (\<lambda>x. (sub_count c x)\<lparr>q_total_bytes := max (q_total_bytes x - n) 0, q_updated_at := t\<rparr>) rows) =
      filter (\<lambda>r. q_user_id r = v) rows" for c t rows
    by (rule filter_update_where_other) (use assms in \<open>auto simp: sub\<close>)
  have "keepsM (account_and_jobs v X js) (execM (stmt_remove_usage c uid n))" for c
    by (intro keeps_exec_db [where J = "same_account v X js"])
      (auto simp: remove_usage_iff account_data_def other)
  moreover have "keepsM (account_and_jobs v X js) (Quota_invalidateUsageCache uid)"
    by (rule keeps_invalidate_db [where J = "same_account v X js"])
  ultimately show "keepsM (account_and_jobs v X js) (Quota_RemoveBundleUsage uid n)"
    and "keepsM (account_and_jobs v X js) (Quota_RemoveSnapshotUsage uid n)"
    unfolding Quota_RemoveBundleUsage_def Quota_RemoveSnapshotUsage_def
    by (intro keeps; simp)+
qed

lemma keeps_same_writes:
  assumes "uid \<noteq> v"
  shows "keepsM (account_and_jobs v X js) (RefreshTokens_RevokeAllUserTokens uid)"
    and "keepsM (account_and_jobs v X js) (Devices_RevokeAllByUser uid)"
    and "keepsM (account_and_jobs v X js) (TwoFactor_DeleteByUser uid)"
    and "keepsM (account_and_jobs v X js) (Passkeys_ExpireChallengesByUser uid at)"
    and "keepsM (account_and_jobs v X js) (Passkeys_DeleteCredentialsByUser uid)"
    and "keepsM (account_and_jobs v X js) (Bundles_SoftDeleteAllByUser uid at)"
    and "keepsM (account_and_jobs v X js) (Snapshots_SoftDeleteAllByUser uid at)"
    and "keepsM (account_and_jobs v X js) (Users_SoftDelete uid)"
  unfolding RefreshTokens_RevokeAllUserTokens_def Devices_RevokeAllByUser_def TwoFactor_DeleteByUser_def
    Passkeys_ExpireChallengesByUser_def Passkeys_DeleteCredentialsByUser_def Bundles_SoftDeleteAllByUser_def
    Snapshots_SoftDeleteAllByUser_def Users_SoftDelete_def live_bundle_def [abs_def] live_snapshot_def [abs_def] Let_def
  by (intro keeps keeps_exec_db [where J = "same_account v X js"];
      use assms in \<open>auto simp: account_data_def filter_delete_other other_challenges other_users
        filter_update_marked update_users_def\<close>)+

lemma keeps_same_create:
  assumes "uid \<noteq> v"
  shows "keepsM (account_and_jobs v X js) (ErasureJobs_Create (new_erasure_job uid at eligible))"
proof -
  let ?j = "new_erasure_job uid at eligible"
  have "hoareM (account_and_jobs v X js)
      (if ej_requested_at ?j = zero_time then bindM time_Now (\<lambda>n. retM (?j\<lparr>ej_requested_at := n\<rparr>)) else retM ?j)
      (\<lambda>j w. account_and_jobs v X js w \<and> ej_user_id j = uid) (\<lambda>_. account_and_jobs v X js)"
    by (auto simp: hoareM_def wp new_erasure_job_def)
  then show ?thesis
    unfolding ErasureJobs_Create_def Let_def
    by (intro keeps_bind_post [where R = "\<lambda>j. ej_user_id j = uid"] keeps_exec_db [where J = "same_account v X js"])
      (use assms in \<open>auto simp: account_data_def gen_random_uuid_def split: if_splits\<close>)
qed

lemma create_fresh:
  "ErasureJobs_Create j w = (Inr job, w') \<Longrightarrow> \<forall>r \<in> set (account_erasure_jobs (db w)). ej_id r \<noteq> ej_id job"
  by (auto simp: ErasureJobs_Create_def run_ok execM_ok time_Now_ok Let_def gen_random_uuid_def split: if_splits)

lemma create_unique:
  "ErasureJobs_Create j w = (Inr job, w') \<Longrightarrow> open_job j \<Longrightarrow>
   \<forall>r \<in> set (account_erasure_jobs (db w)). open_job r \<longrightarrow> ej_user_id r \<noteq> ej_user_id j"
  by (auto simp: ErasureJobs_Create_def run_ok execM_ok time_Now_ok Let_def gen_random_uuid_def open_job_def
      split: if_splits)

lemma keeps_same_update:
  assumes "\<forall>r \<in> set js. ej_id r \<noteq> i"
  shows "keepsM (account_and_jobs v X js) (ErasureJobs_UpdateSummary i s)"
proof -
  have other: "filter (\<lambda>j. ej_user_id j = v) (update_where (\<lambda>j. ej_id j = i) f rows) = filter (\<lambda>j. ej_user_id j = v) rows"
    if "filter (\<lambda>j. ej_user_id j = v) rows = js" and "\<And>j. ej_user_id (f j) = ej_user_id j" for f rows
    using that assms by (induction rows arbitrary: js) (auto simp: update_where_def split: if_splits)
  show ?thesis
    unfolding ErasureJobs_UpdateSummary_def update_jobs_def
    by (intro keeps keeps_exec_db [where J = "same_account v X js"]) (auto simp: account_data_def other)
qed

lemma keeps_same_delete:
  assumes "di_UserID i \<noteq> v"
  shows "keepsM (account_and_jobs v X js) (delete_allowed grace i r)"
proof -
  have create: "hoareM (account_and_jobs v X js) (create_erasure_job i r at eligible)
      (\<lambda>p w. account_and_jobs v X js w \<and> (\<forall>j \<in> set js. ej_id j \<noteq> ej_id (fst p))) (\<lambda>_. account_and_jobs v X js)" for at eligible
  proof (rule hoare_keeps_result)
    show "keepsM (account_and_jobs v X js) (create_erasure_job i r at eligible)"
      unfolding create_erasure_job_def
      by (intro keeps keeps_same_create assms)
  next
    fix w p w'
    assume "account_and_jobs v X js w" and "create_erasure_job i r at eligible w = (Inr p, w')"
    then show "\<forall>j \<in> set js. ej_id j \<noteq> ej_id (fst p)"
      using create_fresh by (fastforce simp: create_erasure_job_def run_ok)
  qed
  have step: "keepsM (account_and_jobs v X js) (if b then m else retM ())"
    if "keepsM (account_and_jobs v X js) m" for b m
    using that by (intro keeps)
  note writes = keeps_same_writes [OF assms] keeps_same_usage [OF assms]
  have "keepsM (account_and_jobs v X js) (revoke_credentials i at r)" for at r
    unfolding revoke_credentials_def Let_def by (intro keeps writes)
  moreover have "keepsM (account_and_jobs v X js) (soft_delete_artifacts i at r)" for at r
    unfolding soft_delete_artifacts_def Let_def by (intro keeps writes)
  ultimately show ?thesis
    unfolding delete_allowed_def Let_def
    by (intro keeps writes keeps_bind_post [OF create] step keeps_same_update) simp_all
qed

lemma keeps_same_account:
  assumes "\<And>r. keepsM (account_and_jobs v X js) (delete_allowed grace i r)"
  shows "keepsM (account_and_jobs v X js) (DeleteAccount policy grace i)"
  unfolding DeleteAccount_def decide_deletion_def Let_def
  by (intro keeps assms)

text \<open>While the user has an unfinished erasure job, no further one can be created.\<close>

lemma keeps_same_reopen:
  assumes "j \<in> set js" and "ej_user_id j = di_UserID i" and "open_job j"
  shows "keepsM (account_and_jobs (di_UserID i) X js) (delete_allowed grace i r)"
proof -
  let ?I = "account_and_jobs (di_UserID i) X js"
  have fails: "ErasureJobs_Create (new_erasure_job (di_UserID i) at eligible) w \<noteq> (Inr job, w')" if "?I w" for at eligible w job w'
  proof
    assume "ErasureJobs_Create (new_erasure_job (di_UserID i) at eligible) w = (Inr job, w')"
    then have "\<forall>r \<in> set (account_erasure_jobs (db w)). open_job r \<longrightarrow> ej_user_id r \<noteq> di_UserID i"
      using create_unique by (fastforce simp: new_erasure_job_def open_job_def)
    moreover have "j \<in> set (account_erasure_jobs (db w))"
      using that assms(1) by auto
    ultimately show False
      using assms(2,3) by blast
  qed
  have "keepsM ?I (ErasureJobs_Create (new_erasure_job (di_UserID i) at eligible))" for at eligible
  proof (rule keepsM_I)
    fix w
    assume I: "?I w"
    obtain e w' where e: "ErasureJobs_Create (new_erasure_job (di_UserID i) at eligible) w = (Inl e, w')"
      using fails [OF I] by (metis obj_sumE prod.collapse)
    then have "db w' = db w"
      by (auto simp: ErasureJobs_Create_def new_erasure_job_def bindM_def execM_def Let_def time_Now_def
          split: if_splits sum.splits)
    with e I show "?I (snd (ErasureJobs_Create (new_erasure_job (di_UserID i) at eligible) w))"
      by simp
  qed
  then have "hoareM ?I (create_erasure_job i r at eligible) (\<lambda>p w. ?I w \<and> False) (\<lambda>_. ?I)" for at eligible
    unfolding create_erasure_job_def
    by (intro hoare_keeps_result keeps) (use fails in \<open>auto simp: run_ok\<close>)
  then show ?thesis
    unfolding delete_allowed_def Let_def
    by (intro keeps_bind keeps_bind_post [where R = "\<lambda>_. False"] keeps_same_prims) simp_all
qed

section \<open>Properties\<close>

text \<open>No credential of the user works any more, no artifact of the user is live.\<close>

definition signed_out :: "uuid \<Rightarrow> db \<Rightarrow> bool" where
  "signed_out uid d \<longleftrightarrow>
     (\<forall>r \<in> set (refresh_tokens d). rt_user_id r = uid \<longrightarrow> rt_revoked_at r \<noteq> None) \<and>
     (\<forall>r \<in> set (devices d). d_user_id r = uid \<longrightarrow> d_revoked_at r \<noteq> None) \<and>
     (\<forall>r \<in> set (user_two_factor d). tf_user_id r \<noteq> uid) \<and>
     (\<forall>r \<in> set (backup_codes d). bc_user_id r \<noteq> uid) \<and>
     (\<forall>r \<in> set (passkey_credentials d). pk_user_id r \<noteq> uid) \<and>
     (\<forall>r \<in> set (passkey_challenges d). pc_user_id r = Some uid \<longrightarrow> pc_consumed_at r \<noteq> None) \<and>
     (\<forall>r \<in> set (bundles d). \<not> live_bundle uid r) \<and> (\<forall>r \<in> set (snapshots d). \<not> live_snapshot uid r) \<and>
     (\<forall>u \<in> set (users d). u_id u = uid \<longrightarrow> \<not> live_user u)"

lemma closed_signed_out: "account_closed uid at t1 t2 t3 job d d' \<Longrightarrow> signed_out uid d'"
  unfolding account_closed_def signed_out_def
  by (auto simp: credentials_revoked_def artifacts_deleted_def update_users_def live_bundle_def live_snapshot_def
      live_user_def elim!: in_update_whereE split: if_splits)

text \<open>
  C20. A deletion that is reported done has revoked every session and device of the user,
  removed two-factor state and passkeys, soft-deleted every artifact and the user, and left
  one pending erasure job that is due exactly the grace period after the request.
\<close>

theorem deletion_closes_account:
  assumes "DeleteAccount policy grace i w = (Inr (res, None), w')" and "0 \<le> now w" and "0 \<le> grace"
  shows "signed_out (di_UserID i) (db w') \<and> dl_Status res = ''deleted'' \<and>
    (\<exists>job. account_erasure_jobs (db w') = account_erasure_jobs (db w) @ [job] \<and> ej_user_id job = di_UserID i \<and>
       ej_status job = ErasurePending \<and> ej_eligible_at job = ej_requested_at job + grace \<and> now w \<le> ej_requested_at job)"
  using assms
proof (rule DeleteAccount_closed)
  fix at t1 t2 t3 job
  assume closed: "account_closed (di_UserID i) at t1 t2 t3 job (db w) (db w')"
    and "ej_requested_at job = at" "ej_eligible_at job = at + grace" "now w \<le> at" "dl_Status res = ''deleted''"
  with closed_signed_out [OF closed] show ?thesis
    by (simp add: account_closed_def)
qed

definition sample_deletion :: deletion_input where
  "sample_deletion = \<lparr>di_UserID = ''u1'', di_RequestID = ''r'', di_IP = '''', di_UserAgent = ''''\<rparr>"

text \<open>User u1 with two bundles of 5 bytes and a counter that knows them.\<close>

definition owned_bundle :: "string \<Rightarrow> bundle_meta" where
  "owned_bundle b =
     \<lparr>b_bundle_id = b, b_user_id = ''u1'', b_uploader_device_uuid = ''d1'', b_lamport_lo = 1, b_lamport_hi = 2,
      b_event_count = 1, b_size_bytes = 5, b_cipher_id = 1, b_key_generation = 1, b_uploaded_at = 1, b_deleted_at = None\<rparr>"

definition account_world :: world where
  "account_world = world_of (sample_db\<lparr>bundles := [owned_bundle ''b1'', owned_bundle ''b2''],
     storage_usage := [(empty_usage ''u1'')\<lparr>q_total_bytes := 10, q_bundle_count := 2\<rparr>]\<rparr>) []"

lemma sample_deletion_runs:
  "map_sum id snd (fst (DeleteAccount (\<lambda>_. Inr None) 50 sample_deletion account_world)) = Inr None"
  by code_simp

lemma sample_deletion_run:
  obtains res w' where "DeleteAccount (\<lambda>_. Inr None) 50 sample_deletion account_world = (Inr (res, None), w')"
  using sample_deletion_runs
  by (cases "DeleteAccount (\<lambda>_. Inr None) 50 sample_deletion account_world"; cases "fst (DeleteAccount (\<lambda>_. Inr None) 50 sample_deletion account_world)") auto

theorem deletion_closes_account_witness:
  "\<exists>res w'. DeleteAccount (\<lambda>_. Inr None) 50 sample_deletion account_world = (Inr (res, None), w') \<and> signed_out ''u1'' (db w')"
proof -
  obtain res w' where run: "DeleteAccount (\<lambda>_. Inr None) 50 sample_deletion account_world = (Inr (res, None), w')"
    by (rule sample_deletion_run)
  have "0 \<le> now account_world"
    by (simp add: account_world_def world_of_def)
  from deletion_closes_account [OF run this] run show ?thesis
    by (simp add: sample_deletion_def)
qed

text \<open>
  C21. A deletion request, answered or failed, whatever step fails, leaves every other
  account and its erasure jobs as they were.
\<close>

theorem deletion_spares_others:
  assumes "DeleteAccount policy grace i w = (r, w')" and "v \<noteq> di_UserID i"
  shows "account_data v (db w') = account_data v (db w) \<and>
    filter (\<lambda>j. ej_user_id j = v) (account_erasure_jobs (db w')) = filter (\<lambda>j. ej_user_id j = v) (account_erasure_jobs (db w))"
  using keepsM_D [OF keeps_same_account [OF keeps_same_delete [where i = i and v = v]] _ assms(1)] assms(2) by auto

theorem deletion_spares_others_witness:
  "account_data ''u2'' (db (snd (DeleteAccount (\<lambda>_. Inr None) 50 sample_deletion account_world))) = account_data ''u2'' (db account_world)"
  using deletion_spares_others [OF surjective_pairing, of "''u2''" sample_deletion] by (simp add: sample_deletion_def)

text \<open>
  C22. Once an erasure job of the user is open (also one that a deletion left which failed
  half-way), no deletion succeeds and none changes anything about the account: a deletion
  that failed after creating its job cannot be completed by asking again.
\<close>

theorem unfinished_deletion_blocks_retry:
  assumes "DeleteAccount policy grace i w = (r, w')" and "j \<in> set (account_erasure_jobs (db w))"
    and "ej_user_id j = di_UserID i" and "ej_status j \<noteq> ErasureCompleted" and "0 \<le> now w" and "0 \<le> grace"
  shows "(\<forall>res. r \<noteq> Inr (res, None)) \<and> account_data (di_UserID i) (db w') = account_data (di_UserID i) (db w)"
proof
  show "\<forall>res. r \<noteq> Inr (res, None)"
  proof (rule ccontr)
    assume "\<not> (\<forall>res. r \<noteq> Inr (res, None))"
    then obtain res where "DeleteAccount policy grace i w = (Inr (res, None), w')"
      using assms(1) by blast
    then show False
      using assms(2-6) by (rule_tac DeleteAccount_closed [of policy grace i w res w']) (auto simp: account_closed_def)
  qed
  have "j \<in> set (filter (\<lambda>j. ej_user_id j = di_UserID i) (account_erasure_jobs (db w)))" and "open_job j"
    using assms(2-4) by (simp_all add: open_job_def)
  from keepsM_D [OF keeps_same_account [OF keeps_same_reopen [OF this(1) assms(3) this(2)]] _ assms(1)]
  show "account_data (di_UserID i) (db w') = account_data (di_UserID i) (db w)"
    by simp
qed

theorem unfinished_deletion_blocks_retry_witness:
  "\<forall>res. fst (DeleteAccount (\<lambda>_. Inr None) 50 sample_deletion
     (account_world\<lparr>db := (db account_world)\<lparr>account_erasure_jobs := [sample_job]\<rparr>\<rparr>)) \<noteq> Inr (res, None)"
proof -
  let ?w = "account_world\<lparr>db := (db account_world)\<lparr>account_erasure_jobs := [sample_job]\<rparr>\<rparr>"
  have "sample_job \<in> set (account_erasure_jobs (db ?w))" and "0 \<le> now ?w"
    by (simp_all add: account_world_def world_of_def)
  then show ?thesis
    using unfinished_deletion_blocks_retry [OF surjective_pairing, of sample_job ?w sample_deletion]
    by (simp add: sample_job_def sample_deletion_def)
qed



section \<open>Two limits of the deletion\<close>

text \<open>With no grace period the user is marked deleted after the job became eligible, and the job never passes.\<close>

lemma immediate_deletion_not_erasable:
  "let w' = snd (DeleteAccount (\<lambda>_. Inr None) 0 sample_deletion (account_world\<lparr>ticks := replicate 40 1\<rparr>)) in
   length (account_erasure_jobs (db w')) = 1 \<and> (\<forall>job \<in> set (account_erasure_jobs (db w')). \<not> erasable job (db w'\<lparr>bundles := []\<rparr>))"
  by code_simp

text \<open>The counter of bundles drops by one for any number of deleted bundles.\<close>

lemma deletion_leaves_bundle_count:
  "map q_bundle_count (storage_usage (db (snd (DeleteAccount (\<lambda>_. Inr None) 50 sample_deletion account_world)))) = [1]"
  by code_simp

text \<open>The redaction drops two of the result's own flags from the audit row.\<close>

lemma audit_drops_revocation_flags:
  "isSensitiveAuditMetadataKey ''revoked_refresh_tokens'' \<and> isSensitiveAuditMetadataKey ''revoked_device_tokens''"
  by code_simp

end
