(* ===== verification/PrivacyExport.thy ===== *)
theory PrivacyExport
  imports Account
begin

text \<open>
  The privacy export of AccountService (pkg/service/account.go): the metadata the server
  holds about an account, without object contents, hashes or webhook paths. \<open>parse\<close> is what
  \<open>net/url\<close>'s parser finds in a URL, its scheme and host, or \<open>None\<close> for an error.
\<close>

section \<open>Data\<close>

record export_account =
  xa_ID :: uuid
  xa_Email :: string
  xa_DisplayName :: string
  xa_Tier :: user_tier
  xa_Status :: user_status
  xa_EmailVerified :: bool
  xa_CreatedAt :: time
  xa_UpdatedAt :: time

record export_device =
  xd_DeviceUUID :: uuid
  xd_DeviceName :: string
  xd_Platform :: string
  xd_AppVersion :: string
  xd_LastSyncAt :: "time option"
  xd_RevokedAt :: "time option"
  xd_CreatedAt :: time

record export_bundle =
  xb_BundleID :: string
  xb_UploaderDeviceUUID :: uuid
  xb_LamportLo :: int
  xb_LamportHi :: int
  xb_EventCount :: int
  xb_SizeBytes :: int
  xb_CipherID :: int
  xb_KeyGeneration :: int
  xb_UploadedAt :: time

record export_snapshot =
  xs_SnapshotID :: string
  xs_BaseHLC :: int
  xs_SizeBytes :: int
  xs_CipherID :: int
  xs_KeyGeneration :: int
  xs_CreatedAt :: time

record export_quota =
  xq_Usage :: quota_usage
  xq_Limits :: quota_limits

record export_notifications =
  xn_SecurityEmail :: bool
  xn_SecurityWebhook :: bool
  xn_BillingEmail :: bool
  xn_BillingWebhook :: bool
  xn_WebhookURL :: string
  xn_WebhookURLSet :: bool

record export_audit_entry =
  xe_EventType :: string
  xe_TargetType :: string
  xe_TargetID :: string
  xe_CreatedAt :: time
  xe_Metadata :: "(string \<times> json) list"

record export_audit_summary =
  xu_Limit :: int
  xu_Truncated :: bool
  xu_Entries :: "export_audit_entry list"

record privacy_export =
  xp_GeneratedAt :: time
  xp_IncludesBlobContents :: bool
  xp_ParsesBundleOrSnapshots :: bool
  xp_Account :: export_account
  xp_Devices :: "export_device list"
  xp_Quota :: export_quota
  xp_Bundles :: "export_bundle list"
  xp_Snapshots :: "export_snapshot list"
  xp_NotificationPreferences :: export_notifications
  xp_Audit :: export_audit_summary
  xp_GracePeriodSeconds :: int

section \<open>Parts\<close>

definition export_device_of :: "device \<Rightarrow> export_device" where
  "export_device_of d =
     \<lparr>xd_DeviceUUID = d_device_uuid d, xd_DeviceName = d_device_name d, xd_Platform = d_platform d,
      xd_AppVersion = d_app_version d, xd_LastSyncAt = d_last_sync_at d, xd_RevokedAt = d_revoked_at d,
      xd_CreatedAt = d_created_at d\<rparr>"

definition listAccountDevices :: "uuid \<Rightarrow> export_device list app" where
  "listAccountDevices uid =
     bindM (wrapM ''list devices'' (Devices_ListByUser uid)) (\<lambda>ds. retM (map export_device_of ds))"

definition export_bundle_of :: "bundle_meta \<Rightarrow> export_bundle" where
  "export_bundle_of b =
     \<lparr>xb_BundleID = b_bundle_id b, xb_UploaderDeviceUUID = b_uploader_device_uuid b,
      xb_LamportLo = b_lamport_lo b, xb_LamportHi = b_lamport_hi b, xb_EventCount = b_event_count b,
      xb_SizeBytes = b_size_bytes b, xb_CipherID = b_cipher_id b, xb_KeyGeneration = b_key_generation b,
      xb_UploadedAt = b_uploaded_at b\<rparr>"

definition listAccountBundles :: "uuid \<Rightarrow> export_bundle list app" where
  "listAccountBundles uid =
     bindM (wrapM ''list bundles'' (Bundles_ListAllByUser uid)) (\<lambda>bs. retM (map export_bundle_of bs))"

definition export_snapshot_of :: "snapshot_meta \<Rightarrow> export_snapshot" where
  "export_snapshot_of s =
     \<lparr>xs_SnapshotID = s_snapshot_id s, xs_BaseHLC = s_base_hlc s, xs_SizeBytes = s_size_bytes s,
      xs_CipherID = s_cipher_id s, xs_KeyGeneration = s_key_generation s, xs_CreatedAt = s_created_at s\<rparr>"

definition listAccountSnapshots :: "uuid \<Rightarrow> export_snapshot list app" where
  "listAccountSnapshots uid =
     bindM (wrapM ''list snapshots'' (Snapshots_ListAllByUser uid)) (\<lambda>ss. retM (map export_snapshot_of ss))"

definition getAccountQuotaUsage :: "uuid \<Rightarrow> quota_usage app" where
  "getAccountQuotaUsage uid = wrapM ''get quota usage'' (Quota_GetUsage uid)"

text \<open>\<open>NotificationService.GetPreferences\<close> and the account's wrapper around it.\<close>

definition GetPreferences :: "uuid \<Rightarrow> notification_preferences app" where
  "GetPreferences uid = wrapM ''get notification preferences'' (NotificationPrefs_GetByUserID uid)"

definition getAccountNotificationPreferences :: "uuid \<Rightarrow> notification_preferences app" where
  "getAccountNotificationPreferences uid = wrapM ''get notification preferences'' (GetPreferences uid)"

definition privacyExportAuditLimit :: int where
  "privacyExportAuditLimit = 100"

definition export_entry_of :: "audit_log \<Rightarrow> export_audit_entry" where
  "export_entry_of l =
     \<lparr>xe_EventType = al_event_type l, xe_TargetType = al_target_type l, xe_TargetID = al_target_id l,
      xe_CreatedAt = al_created_at l, xe_Metadata = al_metadata l\<rparr>"

definition listAccountAuditSummary :: "uuid \<Rightarrow> export_audit_summary app" where
  "listAccountAuditSummary uid =
     bindM (wrapM ''list visible audit logs'' (Audit_ListVisibleByUser uid (privacyExportAuditLimit + 1))) (\<lambda>logs.
     retM \<lparr>xu_Limit = privacyExportAuditLimit,
           xu_Truncated = (int (length logs) > privacyExportAuditLimit),
           xu_Entries = map export_entry_of
             (if int (length logs) > privacyExportAuditLimit then take (nat privacyExportAuditLimit) logs else logs)\<rparr>)"

definition maskExportWebhookURL :: "(string \<Rightarrow> (string \<times> string) option) \<Rightarrow> string \<Rightarrow> string" where
  "maskExportWebhookURL parse raw0 =
     (let raw = TrimSpace raw0 in
      if raw = '''' then ''''
      else (case parse raw of
              None \<Rightarrow> ''<redacted>''
            | Some (scheme, host) \<Rightarrow>
                if scheme = '''' \<or> host = '''' then ''<redacted>'' else scheme @ ''://'' @ host @ ''/...''))"

section \<open>The export\<close>

definition export_account_of :: "user \<Rightarrow> export_account" where
  "export_account_of u =
     \<lparr>xa_ID = u_id u, xa_Email = u_email u, xa_DisplayName = u_display_name u, xa_Tier = u_tier u,
      xa_Status = u_status u, xa_EmailVerified = u_email_verified u, xa_CreatedAt = u_created_at u,
      xa_UpdatedAt = u_updated_at u\<rparr>"

definition export_notifications_of :: "(string \<Rightarrow> (string \<times> string) option) \<Rightarrow> notification_preferences \<Rightarrow> export_notifications" where
  "export_notifications_of parse p =
     \<lparr>xn_SecurityEmail = np_security_email p, xn_SecurityWebhook = np_security_webhook p,
      xn_BillingEmail = np_billing_email p, xn_BillingWebhook = np_billing_webhook p,
      xn_WebhookURL = maskExportWebhookURL parse (np_webhook_url p),
      xn_WebhookURLSet = (TrimSpace (np_webhook_url p) \<noteq> '''')\<rparr>"

definition ExportPrivacyMetadata :: "(string \<Rightarrow> (string \<times> string) option) \<Rightarrow> duration \<Rightarrow> uuid \<Rightarrow> privacy_export app" where
  "ExportPrivacyMetadata parse grace uid =
     bindM (wrapM ''get user'' (Users_GetByID uid)) (\<lambda>r.
     case r of
       None \<Rightarrow> errM (Sentinel ErrUserNotFound)
     | Some user \<Rightarrow>
         bindM (listAccountDevices uid) (\<lambda>ds.
         bindM (listAccountBundles uid) (\<lambda>bs.
         bindM (listAccountSnapshots uid) (\<lambda>ss.
         bindM (getAccountQuotaUsage uid) (\<lambda>usage.
         bindM (getAccountNotificationPreferences uid) (\<lambda>prefs.
         bindM (listAccountAuditSummary uid) (\<lambda>audit.
         bindM time_Now (\<lambda>at.
         retM \<lparr>xp_GeneratedAt = at, xp_IncludesBlobContents = False, xp_ParsesBundleOrSnapshots = False,
               xp_Account = export_account_of user, xp_Devices = ds,
               xp_Quota = \<lparr>xq_Usage = usage\<lparr>q_user_id := u_id user\<rparr>,
                           xq_Limits = (TierLimits (u_tier user))\<lparr>l_user_id := u_id user\<rparr>\<rparr>,
               xp_Bundles = bs, xp_Snapshots = ss,
               xp_NotificationPreferences = export_notifications_of parse prefs, xp_Audit = audit,
               xp_GracePeriodSeconds = quot_go grace Second\<rparr>))))))))"

section \<open>Secrets\<close>

text \<open>
  The database with every secret blanked: password and token digests, two-factor secrets,
  backup codes, passkey keys, webhook secrets, and the session data of passkey ceremonies.
\<close>

definition without_secrets :: "db \<Rightarrow> db" where
  "without_secrets d = d\<lparr>
     users := map (\<lambda>u. u\<lparr>u_password_hash := ''''\<rparr>) (users d),
     devices := map (\<lambda>r. r\<lparr>d_token_hash := None\<rparr>) (devices d),
     refresh_tokens := map (\<lambda>r. r\<lparr>rt_token_hash := ''''\<rparr>) (refresh_tokens d),
     email_verifications := map (\<lambda>r. r\<lparr>ev_token_hash := ''''\<rparr>) (email_verifications d),
     password_resets := map (\<lambda>r. r\<lparr>pr_token_hash := ''''\<rparr>) (password_resets d),
     user_two_factor := map (\<lambda>r. r\<lparr>tf_secret_encrypted := ''''\<rparr>) (user_two_factor d),
     backup_codes := map (\<lambda>r. r\<lparr>bc_code_hash := ''''\<rparr>) (backup_codes d),
     passkey_credentials := map (\<lambda>r. r\<lparr>pk_credential_id := '''', pk_public_key := ''''\<rparr>) (passkey_credentials d),
     passkey_challenges := map (\<lambda>r. r\<lparr>pc_challenge := '''', pc_session_json := ''''\<rparr>) (passkey_challenges d),
     notification_prefs := map (\<lambda>p. p\<lparr>np_webhook_secret := ''''\<rparr>) (notification_prefs d)\<rparr>"

definition blank :: "world \<Rightarrow> world" where
  "blank w = w\<lparr>db := without_secrets (db w)\<rparr>"

text \<open>\<open>blind f m\<close>: on the blanked world \<open>m\<close> behaves the same, its result passed through \<open>f\<close>.\<close>

definition blind :: "('a \<Rightarrow> 'a) \<Rightarrow> 'a app \<Rightarrow> bool" where
  "blind f m \<longleftrightarrow> (\<forall>w. m (blank w) = (map_sum id f (fst (m w)), blank (snd (m w))))"

named_theorems blind

lemma blank_simps [simp]:
  "db (blank w) = without_secrets (db w)" "faults (blank w) = faults w" "now (blank w) = now w"
  "redis (blank w) = redis w" "tick (blank w) = blank (tick w)" "drop_fault (blank w) = blank (drop_fault w)"
  by (simp_all add: blank_def tick_def drop_fault_def)

lemma fault_next_blank [simp]: "fault_next (blank w) = fault_next w"
  by (simp add: fault_next_def)

lemma blind_ret [blind]: "blind id (retM x)"
  by (simp add: blind_def)

lemma blind_err [blind]: "blind f (errM e)"
  by (simp add: blind_def)

lemma blind_wrap [blind]: "blind f m \<Longrightarrow> blind f (wrapM msg m)"
  by (simp add: blind_def wrapM_def case_prod_beta split: sum.split)

lemma blind_bind_via:
  assumes "blind f m" and "\<And>x. k (f x) = k x" and "\<And>x. blind g (k x)"
  shows "blind g (bindM m k)"
  unfolding blind_def
proof
  fix w
  have m: "m (blank w) = (map_sum id f (fst (m w)), blank (snd (m w)))"
    using assms(1) by (simp add: blind_def)
  show "bindM m k (blank w) = (map_sum id g (fst (bindM m k w)), blank (snd (bindM m k w)))"
  proof (cases "fst (m w)")
    case (Inl e)
    with m show ?thesis
      by (simp add: bindM_def case_prod_beta)
  next
    case (Inr x)
    have "k x (blank v) = (map_sum id g (fst (k x v)), blank (snd (k x v)))" for v
      using assms(3) by (simp add: blind_def)
    with m Inr assms(2) show ?thesis
      by (simp add: bindM_def case_prod_beta)
  qed
qed

lemma blind_bind [blind]: "blind id m \<Longrightarrow> (\<And>x. blind g (k x)) \<Longrightarrow> blind g (bindM m k)"
  by (rule blind_bind_via [where f = id]) simp_all

lemma blind_then [blind]: "blind id m \<Longrightarrow> blind g k \<Longrightarrow> blind g (thenM m k)"
  unfolding thenM_def by (rule blind_bind)

lemma blind_now [blind]: "blind id time_Now"
  by (simp add: blind_def time_Now_def Let_def)

lemma blind_query:
  assumes "\<And>t d. q t (without_secrets d) = f (q t d)"
  shows "blind f (queryM q)"
  by (simp add: blind_def queryM_def execM_def Let_def assms) (simp add: blank_def)

lemma find_map_key: "(\<And>r. P (f r) = P r) \<Longrightarrow> find P (map f rows) = map_option f (find P rows)"
  by (induction rows) simp_all

lemma sort_key_map: "(\<And>r. k (f r) = k r) \<Longrightarrow> sort_key k (map f rows) = map f (sort_key k rows)"
proof -
  assume k: "\<And>r. k (f r) = k r"
  have "insort_key k (f r) (map f rows) = map f (insort_key k r rows)" for r rows
    by (induction rows) (simp_all add: k)
  then show ?thesis
    by (induction rows) simp_all
qed

lemma filter_map_key: "(\<And>r. P (f r) = P r) \<Longrightarrow> filter P (map f rows) = map f (filter P rows)"
  by (induction rows) simp_all

lemma without_secrets_simps [simp]:
  "bundles (without_secrets d) = bundles d" "snapshots (without_secrets d) = snapshots d"
  "storage_usage (without_secrets d) = storage_usage d" "audit_logs (without_secrets d) = audit_logs d"
  by (simp_all add: without_secrets_def)

lemma blind_user: "blind (map_option (\<lambda>u. u\<lparr>u_password_hash := ''''\<rparr>)) (Users_GetByID uid)"
  unfolding Users_GetByID_def
  by (intro blind_wrap blind_query) (simp add: without_secrets_def find_map_key live_user_def)

lemma blind_devices: "blind (map (\<lambda>r. r\<lparr>d_token_hash := None\<rparr>)) (Devices_ListByUser uid)"
  unfolding Devices_ListByUser_def
  by (intro blind_wrap blind_query) (simp add: without_secrets_def sort_key_map filter_map_key)

lemma blind_prefs: "blind (\<lambda>p. p\<lparr>np_webhook_secret := ''''\<rparr>) (NotificationPrefs_GetByUserID uid)"
  unfolding NotificationPrefs_GetByUserID_def
  by (intro blind_wrap blind_query)
    (simp add: without_secrets_def find_map_key DefaultNotificationPreferences_def split: option.split)

lemma blind_cache [blind]: "blind id (Quota_getCachedUsage uid)" "blind id (Quota_cacheUsage u)"
  by (simp_all add: blind_def Quota_getCachedUsage_def Quota_cacheUsage_def split: option.split)
    (simp_all add: blank_def drop_fault_def)

lemma blind_reads [blind]:
  "blind id (Quota_GetUsage uid)" "blind id (Bundles_ListAllByUser uid)" "blind id (Snapshots_ListAllByUser uid)"
  "blind id (Audit_ListVisibleByUser uid n)"
proof -
  have "blind id (queryM (\<lambda>t d. usage_row d uid))"
    by (rule blind_query) (simp add: usage_row_def)
  then show "blind id (Quota_GetUsage uid)"
    unfolding Quota_GetUsage_def Let_def
    by (intro blind_bind blind_wrap blind_cache) (auto split: option.split intro!: blind)
  show "blind id (Bundles_ListAllByUser uid)" "blind id (Snapshots_ListAllByUser uid)" "blind id (Audit_ListVisibleByUser uid n)"
    unfolding Bundles_ListAllByUser_def Snapshots_ListAllByUser_def Audit_ListVisibleByUser_def Let_def
    by (intro blind_wrap blind_query; simp)+
qed

lemma blind_parts [blind]:
  "blind id (listAccountDevices uid)" "blind id (listAccountBundles uid)" "blind id (listAccountSnapshots uid)"
  "blind id (listAccountAuditSummary uid)" "blind id (getAccountQuotaUsage uid)"
proof -
  show "blind id (listAccountDevices uid)"
    unfolding listAccountDevices_def
    by (intro blind_bind_via [OF blind_wrap [OF blind_devices]] blind)
      (simp add: export_device_of_def [abs_def] comp_def)
qed (simp_all add: listAccountBundles_def listAccountSnapshots_def listAccountAuditSummary_def getAccountQuotaUsage_def blind)

section \<open>Properties\<close>

text \<open>
  C24. The export depends on no secret: blanking every password hash, token digest,
  two-factor secret, backup code, passkey key and webhook secret in the database changes
  nothing about the export or its error.
\<close>

theorem export_reveals_no_secret:
  "fst (ExportPrivacyMetadata parse grace uid (blank w)) = fst (ExportPrivacyMetadata parse grace uid w)"
proof -
  let ?u = "\<lambda>u. u\<lparr>u_password_hash := ''''\<rparr>" and ?p = "\<lambda>p. p\<lparr>np_webhook_secret := ''''\<rparr>"
  have user: "export_account_of (?u user) = export_account_of user" for user
    by (simp add: export_account_of_def)
  have prefs: "export_notifications_of parse (?p p) = export_notifications_of parse p" for p
    by (simp add: export_notifications_of_def)
  have blind_prefs': "blind ?p (getAccountNotificationPreferences uid)"
    unfolding getAccountNotificationPreferences_def GetPreferences_def
    by (intro blind_wrap blind_prefs)
  have "blind id (ExportPrivacyMetadata parse grace uid)"
    unfolding ExportPrivacyMetadata_def
  proof (rule blind_bind_via [OF blind_wrap [OF blind_user]], goal_cases)
    case (1 r)
    then show ?case
      by (cases r) (simp_all add: user)
  next
    case (2 r)
    show ?case
    proof (cases r)
      case (Some user)
      show ?thesis
        unfolding Some option.case
        by (intro blind_bind_via [OF blind_prefs'] blind) (simp add: prefs)
    qed (simp add: blind)
  qed
  then show ?thesis
    by (simp add: blind_def sum.map_id0)
qed

lemma quota_read_frame: "Quota_GetUsage uid w = (Inr u, w') \<Longrightarrow> db w' = db w"
  by (auto simp: Quota_GetUsage_def Quota_getCachedUsage_def Quota_cacheUsage_def run_ok queryM_ok Let_def
      split: option.splits if_splits)

text \<open>
  C25. A successful export changes no table and is complete: it lists exactly the live bundles and
  snapshots, all the devices and the account row of the user, and at most the 100 newest visible
  audit entries, marked truncated exactly when there are more.
\<close>

theorem export_is_complete:
  assumes "ExportPrivacyMetadata parse grace uid w = (Inr x, w')"
  shows "db w' = db w \<and>
    (\<exists>user. find (\<lambda>u. u_id u = uid \<and> live_user u) (users (db w)) = Some user \<and> xp_Account x = export_account_of user) \<and>
    set (xp_Bundles x) = export_bundle_of ` {b \<in> set (bundles (db w)). live_bundle uid b} \<and>
    set (xp_Snapshots x) = export_snapshot_of ` {s \<in> set (snapshots (db w)). live_snapshot uid s} \<and>
    set (xp_Devices x) = export_device_of ` {d \<in> set (devices (db w)). d_user_id d = uid} \<and>
    (let visible = filter (visible_to uid) (audit_logs (db w)) in
      xu_Entries (xp_Audit x) = map export_entry_of (take 100 (newest_audit visible)) \<and>
      (xu_Truncated (xp_Audit x) \<longleftrightarrow> length visible > 100))"
proof -
  obtain user w1 ds w2 bs w3 ss w4 usage w5 prefs w6 audit w7 where
    1: "Users_GetByID uid w = (Inr (Some user), w1)" and 2: "listAccountDevices uid w1 = (Inr ds, w2)"
    and 3: "listAccountBundles uid w2 = (Inr bs, w3)" and 4: "listAccountSnapshots uid w3 = (Inr ss, w4)"
    and 5: "Quota_GetUsage uid w4 = (Inr usage, w5)" and 6: "NotificationPrefs_GetByUserID uid w5 = (Inr prefs, w6)"
    and 7: "listAccountAuditSummary uid w6 = (Inr audit, w7)" and w': "w' = tick w7"
    and x: "xp_Account x = export_account_of user" "xp_Devices x = ds" "xp_Bundles x = bs" "xp_Snapshots x = ss" "xp_Audit x = audit"
    using assms
    by (auto simp: ExportPrivacyMetadata_def getAccountQuotaUsage_def getAccountNotificationPreferences_def
        GetPreferences_def run_ok time_Now_ok split: option.splits)
  have d1: "db w1 = db w" and user: "find (\<lambda>u. u_id u = uid \<and> live_user u) (users (db w)) = Some user"
    using getbyid_ok [OF 1] by auto
  have d2: "db w2 = db w1" and ds: "set ds = export_device_of ` {d \<in> set (devices (db w1)). d_user_id d = uid}"
    using 2 by (auto simp: listAccountDevices_def Devices_ListByUser_def run_ok queryM_ok)
  have d3: "db w3 = db w2" and bs: "set bs = export_bundle_of ` {b \<in> set (bundles (db w2)). live_bundle uid b}"
    using 3 by (auto simp: listAccountBundles_def Bundles_ListAllByUser_def run_ok queryM_ok)
  have d4: "db w4 = db w3" and ss: "set ss = export_snapshot_of ` {s \<in> set (snapshots (db w3)). live_snapshot uid s}"
    using 4 by (auto simp: listAccountSnapshots_def Snapshots_ListAllByUser_def newest_first_def run_ok queryM_ok)
  have d5: "db w5 = db w4"
    using quota_read_frame [OF 5] .
  have d6: "db w6 = db w5"
    using 6 by (auto simp: NotificationPrefs_GetByUserID_def queryM_ok)
  let ?visible = "filter (visible_to uid) (audit_logs (db w6))"
  have len: "length (newest_audit ?visible) = length ?visible"
    by (simp add: newest_audit_def)
  have d7: "db w7 = db w6" and audit: "audit = \<lparr>xu_Limit = 100,
      xu_Truncated = (int (length (take 101 (newest_audit ?visible))) > 100),
      xu_Entries = map export_entry_of (if int (length (take 101 (newest_audit ?visible))) > 100
         then take 100 (take 101 (newest_audit ?visible)) else take 101 (newest_audit ?visible))\<rparr>"
    using 7 by (auto simp: listAccountAuditSummary_def Audit_ListVisibleByUser_def run_ok queryM_ok
        privacyExportAuditLimit_def maxAuditListLimit_def Let_def)
  have entries: "xu_Entries audit = map export_entry_of (take 100 (newest_audit ?visible))"
    and truncated: "xu_Truncated audit \<longleftrightarrow> length ?visible > 100"
    unfolding audit using len by (auto simp: min_def)
  show ?thesis
    using x user ds bs ss entries truncated
    unfolding w' Let_def tick_simps d7 d6 d5 d4 d3 d2 d1 by blast
qed

theorem export_is_complete_witness:
  "\<exists>x w'. ExportPrivacyMetadata (\<lambda>_. None) 0 ''u1'' account_world = (Inr x, w') \<and>
     set (xp_Bundles x) = export_bundle_of ` {owned_bundle ''b1'', owned_bundle ''b2''}"
proof -
  have "succeeds (ExportPrivacyMetadata (\<lambda>_. None) 0 ''u1'' account_world)"
    by code_simp
  then obtain x w' where run: "ExportPrivacyMetadata (\<lambda>_. None) 0 ''u1'' account_world = (Inr x, w')"
    using succeeds_ex by blast
  have "{b \<in> set (bundles (db account_world)). live_bundle ''u1'' b} = {owned_bundle ''b1'', owned_bundle ''b2''}"
    by (auto simp: account_world_def world_of_def live_bundle_def owned_bundle_def)
  with export_is_complete [OF run] run show ?thesis
    by auto
qed

end
