(* ===== verification/Password.thy ===== *)
theory Password
  imports Sample
begin

text \<open>
  The password and e-mail helpers of pkg/service/service.go: \<open>hashPassword\<close>,
  \<open>verifyPassword\<close>, \<open>splitPHC\<close>, \<open>splitStr\<close>, \<open>normalizeEmail\<close>, \<open>validatePassword\<close>. They
  rest on three pieces of Go's standard library that are modelled here as far as the
  helpers use them: \<open>encoding/base64\<close> without padding, \<open>%d\<close> of \<open>fmt.Sprintf\<close>, and
  \<open>fmt.Sscanf\<close> for unsigned \<open>%d\<close>. Argon2id (golang.org/x/crypto) and
  \<open>mail.ParseAddress\<close> are parameters.
\<close>

section \<open>encoding/base64 without padding\<close>

definition std_alphabet :: string where
  "std_alphabet = ''ABCDEFGHIJKLMNOPQRSTUVWXYZabcdefghijklmnopqrstuvwxyz0123456789+/''"

definition url_alphabet :: string where
  "url_alphabet = ''ABCDEFGHIJKLMNOPQRSTUVWXYZabcdefghijklmnopqrstuvwxyz0123456789-_''"

text \<open>The digits, six bits each, of a byte string; a short last group is filled with zero bits.\<close>

fun b64_digits :: "nat list \<Rightarrow> nat list" where
  "b64_digits [] = []"
| "b64_digits [a] = [a div 4, a mod 4 * 16]"
| "b64_digits [a, b] = [a div 4, a mod 4 * 16 + b div 16, b mod 16 * 4]"
| "b64_digits (a # b # c # bs) =
     a div 4 # (a mod 4 * 16 + b div 16) # (b mod 16 * 4 + c div 64) # (c mod 64) # b64_digits bs"

definition EncodeToString :: "string \<Rightarrow> bytes \<Rightarrow> string" where
  "EncodeToString alphabet bs = map (\<lambda>d. alphabet ! d) (b64_digits (map of_char bs))"

text \<open>
  Decoding: line breaks are skipped, any other character outside the alphabet is an error,
  and so is a last group of one digit. The spare bits of a short last group are ignored.
\<close>

fun b64_bytes :: "nat list \<Rightarrow> nat list option" where
  "b64_bytes [] = Some []"
| "b64_bytes [x] = None"
| "b64_bytes [x, y] = Some [x * 4 + y div 16]"
| "b64_bytes [x, y, z] = Some [x * 4 + y div 16, y mod 16 * 16 + z div 4]"
| "b64_bytes (x # y # z # u # ds) =
     map_option (\<lambda>bs. (x * 4 + y div 16) # (y mod 16 * 16 + z div 4) # (z mod 4 * 64 + u) # bs) (b64_bytes ds)"

fun digit_in :: "string \<Rightarrow> char \<Rightarrow> nat option" where
  "digit_in [] c = None"
| "digit_in (x # alphabet) c = (if c = x then Some 0 else map_option Suc (digit_in alphabet c))"

fun digits_in :: "string \<Rightarrow> string \<Rightarrow> nat list option" where
  "digits_in alphabet [] = Some []"
| "digits_in alphabet (c # cs) = (case digit_in alphabet c of
     None \<Rightarrow> None
   | Some d \<Rightarrow> map_option (Cons d) (digits_in alphabet cs))"

definition DecodeString :: "string \<Rightarrow> string \<Rightarrow> bytes option" where
  "DecodeString alphabet s =
     (case digits_in alphabet (filter (\<lambda>c. c \<noteq> CHR 0x0A \<and> c \<noteq> CHR 0x0D) s) of
        None \<Rightarrow> None
      | Some ds \<Rightarrow> map_option (map char_of) (b64_bytes ds))"

lemma join_bits: "c < 2 ^ k \<Longrightarrow> (x * 2 ^ k + c) div 2 ^ k = x \<and> (x * 2 ^ k + c) mod 2 ^ k = (c :: nat)"
  by simp

lemma byte_1: "b < 256 \<Longrightarrow> a div 4 * 4 + (a mod 4 * 16 + b div 16) div 16 = (a :: nat)"
  using join_bits [of "b div 16" 4 "a mod 4"] by simp

lemma byte_2: "b < 256 \<Longrightarrow> c < 256 \<Longrightarrow>
    (a mod 4 * 16 + b div 16) mod 16 * 16 + (b mod 16 * 4 + c div 64) div 4 = (b :: nat)"
  using join_bits [of "b div 16" 4 "a mod 4"] join_bits [of "c div 64" 2 "b mod 16"] by simp

lemma byte_3: "c < 256 \<Longrightarrow> (b mod 16 * 4 + c div 64) mod 4 * 64 + c mod 64 = (c :: nat)"
  using join_bits [of "c div 64" 2 "b mod 16"] by simp

lemma b64_bytes_digits: "\<forall>b \<in> set bs. b < 256 \<Longrightarrow> b64_bytes (b64_digits bs) = Some bs"
proof (induction bs rule: b64_digits.induct)
  case (3 a b)
  then show ?case
    using byte_1 [of b a] byte_2 [of b 0 a] by simp
next
  case (4 a b c bs)
  then show ?case
    using byte_1 [of b a] byte_2 [of b c a] byte_3 [of c b] by simp
qed simp_all

lemma sextet_0: "a < 256 \<Longrightarrow> a div 4 < (64 :: nat)"
  by linarith

lemma sextet_1: "b < 256 \<Longrightarrow> a mod 4 * 16 + b div 16 < (64 :: nat)"
  by linarith

lemma sextet_2: "c < 256 \<Longrightarrow> b mod 16 * 4 + c div 64 < (64 :: nat)"
  by linarith

lemma b64_digits_bound: "\<forall>b \<in> set bs. b < 256 \<Longrightarrow> \<forall>d \<in> set (b64_digits bs). d < 64"
proof (induction bs rule: b64_digits.induct)
  case (2 a)
  then show ?case
    using sextet_0 [of a] sextet_1 [of 0 a] by simp
next
  case (3 a b)
  then show ?case
    using sextet_0 [of a] sextet_1 [of b a] sextet_2 [of 0 b] by simp
next
  case (4 a b c bs)
  then show ?case
    using sextet_0 [of a] sextet_1 [of b a] sextet_2 [of c b] by simp
qed simp

lemma digit_in_nth: "distinct alphabet \<Longrightarrow> d < length alphabet \<Longrightarrow> digit_in alphabet (alphabet ! d) = Some d"
proof (induction alphabet arbitrary: d)
  case (Cons x alphabet)
  then show ?case
    by (cases d) auto
qed simp

lemma digits_in_map:
  "distinct alphabet \<Longrightarrow> \<forall>d \<in> set ds. d < length alphabet \<Longrightarrow>
   digits_in alphabet (map (\<lambda>d. alphabet ! d) ds) = Some ds"
  by (induction ds) (simp_all add: digit_in_nth)

definition b64_alphabet :: "string \<Rightarrow> bool" where
  "b64_alphabet al \<longleftrightarrow> distinct al \<and> length al = 64 \<and> CHR 0x0A \<notin> set al \<and> CHR 0x0D \<notin> set al"

lemma std_alphabet_ok: "b64_alphabet std_alphabet"
  by code_simp

lemma url_alphabet_ok: "b64_alphabet url_alphabet"
  by code_simp

lemma set_EncodeToString:
  assumes "b64_alphabet al"
  shows "set (EncodeToString al bs) \<subseteq> set al"
proof -
  have "\<forall>d \<in> set (b64_digits (map of_char bs)). d < 64"
    by (rule b64_digits_bound) simp
  with assms show ?thesis
    by (auto simp: EncodeToString_def b64_alphabet_def)
qed

lemma Decode_Encode:
  assumes al: "b64_alphabet al"
  shows "DecodeString al (EncodeToString al bs) = Some bs"
proof -
  have small: "\<forall>b \<in> set (map of_char bs). b < (256 :: nat)"
    by simp
  have "filter (\<lambda>c. c \<noteq> CHR 0x0A \<and> c \<noteq> CHR 0x0D) (EncodeToString al bs) = EncodeToString al bs"
    using set_EncodeToString [OF al, of bs] al by (intro filter_True) (auto simp: b64_alphabet_def)
  moreover have "digits_in al (EncodeToString al bs) = Some (b64_digits (map of_char bs))"
    using al b64_digits_bound [OF small] unfolding EncodeToString_def
    by (intro digits_in_map) (auto simp: b64_alphabet_def)
  ultimately show ?thesis
    using b64_bytes_digits [OF small] by (simp add: DecodeString_def comp_def)
qed

section \<open>Decimal numbers\<close>

definition decimal_digits :: string where
  "decimal_digits = ''0123456789''"

definition digit_char :: "nat \<Rightarrow> char" where
  "digit_char d = decimal_digits ! d"

text \<open>\<open>%d\<close> of an unsigned integer.\<close>

fun Itoa :: "nat \<Rightarrow> string" where
  "Itoa n = (if n < 10 then [digit_char n] else Itoa (n div 10) @ [digit_char (n mod 10)])"

declare Itoa.simps [simp del]

definition is_digit :: "char \<Rightarrow> bool" where
  "is_digit c \<longleftrightarrow> c \<in> set decimal_digits"

definition digits_value :: "string \<Rightarrow> nat" where
  "digits_value s = foldl (\<lambda>n c. n * 10 + the (digit_in decimal_digits c)) 0 s"

section \<open>fmt.Sscanf\<close>

text \<open>Blanks are skipped ahead of a verb; a line break is an error in a Sscanf.\<close>

fun SkipSpace :: "string \<Rightarrow> string option" where
  "SkipSpace [] = Some []"
| "SkipSpace (c # cs) =
     (if c = CHR 0x0A then None else if is_space c then SkipSpace cs else Some (c # cs))"

text \<open>\<open>%d\<close> into an unsigned integer of the given width, and a literal of the format.\<close>

definition scanUint :: "nat \<Rightarrow> string \<Rightarrow> (nat \<times> string) option" where
  "scanUint bits s = (case SkipSpace s of
     None \<Rightarrow> None
   | Some s' \<Rightarrow>
       let tok = takeWhile is_digit s'; n = digits_value tok in
       if tok = [] \<or> n \<ge> 2 ^ bits then None else Some (n, dropWhile is_digit s'))"

fun literal :: "string \<Rightarrow> string \<Rightarrow> string option" where
  "literal [] s = Some s"
| "literal (f # fs) [] = None"
| "literal (f # fs) (c # cs) = (if f = c then literal fs cs else None)"

text \<open>\<open>Sscanf(s, "m=%d,t=%d,p=%d", &memory, &iterations, &parallelism)\<close>; what follows is ignored.\<close>

definition Sscanf_params :: "string \<Rightarrow> (nat \<times> nat \<times> nat) option" where
  "Sscanf_params s =
     Option.bind (literal ''m='' s) (\<lambda>s. Option.bind (scanUint 32 s) (\<lambda>(memory, s).
     Option.bind (literal '',t='' s) (\<lambda>s. Option.bind (scanUint 32 s) (\<lambda>(iterations, s).
     Option.bind (literal '',p='' s) (\<lambda>s. Option.bind (scanUint 8 s) (\<lambda>(parallelism, s).
     Some (memory, iterations, parallelism)))))))"

lemma digit_char_digit: "d < 10 \<Longrightarrow> is_digit (digit_char d)"
  unfolding is_digit_def digit_char_def by (rule nth_mem) (simp add: decimal_digits_def)

lemma digit_in_digit_char: "d < 10 \<Longrightarrow> digit_in decimal_digits (digit_char d) = Some d"
  unfolding digit_char_def by (rule digit_in_nth) (simp_all add: decimal_digits_def)

lemma Itoa_digits: "\<forall>c \<in> set (Itoa n). is_digit c"
proof (induction n rule: Itoa.induct)
  case (1 n)
  show ?case
  proof (cases "n < 10")
    case True
    then show ?thesis
      by (simp add: Itoa.simps [of n] digit_char_digit)
  next
    case False
    with 1 show ?thesis
      by (simp add: Itoa.simps [of n] digit_char_digit)
  qed
qed

lemma Itoa_ne: "Itoa n \<noteq> []"
  by (subst Itoa.simps) simp

lemma digits_value_Itoa: "digits_value (Itoa n) = n"
proof (induction n rule: Itoa.induct)
  case (1 n)
  then show ?case
    by (cases "n < 10") (simp_all add: Itoa.simps [of n] digits_value_def digit_in_digit_char)
qed

lemma digit_not_space: "is_digit c \<Longrightarrow> c \<noteq> CHR 0x0A \<and> \<not> is_space c"
  by (auto simp: is_digit_def is_space_def decimal_digits_def)

lemma SkipSpace_digit: "s \<noteq> [] \<Longrightarrow> is_digit (hd s) \<Longrightarrow> SkipSpace s = Some s"
  by (cases s) (simp_all add: digit_not_space)

lemma scanUint_Itoa:
  assumes "n < 2 ^ bits" and "rest = [] \<or> \<not> is_digit (hd rest)"
  shows "scanUint bits (Itoa n @ rest) = Some (n, rest)"
proof -
  have hd: "is_digit (hd (Itoa n @ rest))"
    using Itoa_ne [of n] Itoa_digits [of n] by (cases "Itoa n") simp_all
  have tail: "takeWhile is_digit rest = [] \<and> dropWhile is_digit rest = rest"
    using assms(2) by (cases rest) auto
  show ?thesis
    using assms(1) tail Itoa_ne [of n] Itoa_digits [of n]
    by (simp add: scanUint_def SkipSpace_digit [OF _ hd] takeWhile_append2 dropWhile_append2 digits_value_Itoa)
qed

lemma literal_append: "literal f (f @ s) = Some s"
  by (induction f) simp_all

lemma Sscanf_params_Itoa:
  assumes "m < 2 ^ 32" and "t < 2 ^ 32" and "p < 2 ^ 8"
  shows "Sscanf_params (''m='' @ Itoa m @ '',t='' @ Itoa t @ '',p='' @ Itoa p) = Some (m, t, p)"
proof -
  have p: "scanUint 8 (Itoa p) = Some (p, [])"
    using scanUint_Itoa [of p 8 "[]"] assms by simp
  show ?thesis
    unfolding Sscanf_params_def literal_append
    using assms p by (simp add: scanUint_Itoa is_digit_def decimal_digits_def)
qed

section \<open>Passwords\<close>

text \<open>\<open>Argon2Params\<close>\<close>

record argon2_params =
  ap_Time :: int
  ap_Memory :: int
  ap_Threads :: int
  ap_KeyLen :: nat
  ap_SaltLen :: nat

definition Argon2Params :: argon2_params where
  "Argon2Params = \<lparr>ap_Time = 3, ap_Memory = 64 * 1024, ap_Threads = 4, ap_KeyLen = 32, ap_SaltLen = 16\<rparr>"

text \<open>
  \<open>argon2.IDKey\<close>: password, salt, rounds, memory, threads and key length give the derived
  key. It is documented to panic when the number of rounds or of threads is 0.
\<close>

type_synonym argon2 = "bytes \<Rightarrow> bytes \<Rightarrow> int \<Rightarrow> int \<Rightarrow> int \<Rightarrow> nat \<Rightarrow> bytes"

definition encode_phc :: "bytes \<Rightarrow> bytes \<Rightarrow> string" where
  "encode_phc salt key =
     ''$argon2id$v=19$m='' @ Itoa (nat (ap_Memory Argon2Params)) @ '',t='' @ Itoa (nat (ap_Time Argon2Params)) @
     '',p='' @ Itoa (nat (ap_Threads Argon2Params)) @ ''$'' @ EncodeToString std_alphabet salt @
     ''$'' @ EncodeToString std_alphabet key"

lemma encode_phc_code [code]:
  "encode_phc salt key = ''$argon2id$v=19$m=65536,t=3,p=4$'' @ EncodeToString std_alphabet salt @
     ''$'' @ EncodeToString std_alphabet key"
proof -
  have "Itoa 65536 = ''65536''" "Itoa 3 = ''3''" "Itoa 4 = ''4''"
    by (simp_all add: Itoa.simps digit_char_def decimal_digits_def)
  then show ?thesis
    by (simp add: encode_phc_def Argon2Params_def)
qed

definition hashPassword :: "argon2 \<Rightarrow> string \<Rightarrow> string app" where
  "hashPassword IDKey password = bindM (rand_Read (ap_SaltLen Argon2Params)) (\<lambda>salt.
     retM (encode_phc salt (IDKey password salt (ap_Time Argon2Params) (ap_Memory Argon2Params)
       (ap_Threads Argon2Params) (ap_KeyLen Argon2Params))))"

text \<open>\<open>splitStr\<close>: the part since the last separator, and what is still to be read.\<close>

fun splitStr_loop :: "char \<Rightarrow> string \<Rightarrow> string \<Rightarrow> string list" where
  "splitStr_loop sep part [] = [part]"
| "splitStr_loop sep part (c # cs) =
     (if c = sep then part # splitStr_loop sep [] cs else splitStr_loop sep (part @ [c]) cs)"

definition splitStr :: "string \<Rightarrow> char \<Rightarrow> string list" where
  "splitStr s sep = splitStr_loop sep [] s"

fun splitPHC :: "string \<Rightarrow> string list" where
  "splitPHC [] = []"
| "splitPHC (c # cs) = (if c \<noteq> CHR ''$'' then [] else splitStr cs (CHR ''$''))"

text \<open>\<open>None\<close> is the panic of \<open>argon2.IDKey\<close>.\<close>

definition verify_parts :: "argon2 \<Rightarrow> string \<Rightarrow> string \<Rightarrow> string \<Rightarrow> string \<Rightarrow> bool option" where
  "verify_parts IDKey password params salt64 hash64 =
     (case Sscanf_params params of
        None \<Rightarrow> Some False
      | Some (memory, iterations, parallelism) \<Rightarrow>
          (case DecodeString std_alphabet salt64 of
             None \<Rightarrow> Some False
           | Some salt \<Rightarrow>
               (case DecodeString std_alphabet hash64 of
                  None \<Rightarrow> Some False
                | Some expected \<Rightarrow>
                    if iterations = 0 \<or> parallelism = 0 then None
                    else Some (IDKey password salt (int iterations) (int memory) (int parallelism) (length expected) = expected))))"

definition verifyPassword :: "argon2 \<Rightarrow> string \<Rightarrow> string \<Rightarrow> bool option" where
  "verifyPassword IDKey password encoded =
     (case splitPHC encoded of
        [p0, p1, p2, p3, p4] \<Rightarrow>
          if p0 \<noteq> ''argon2id'' \<or> p1 \<noteq> ''v=19'' then Some False
          else verify_parts IDKey password p2 p3 p4
      | _ \<Rightarrow> Some False)"

definition validatePassword :: "string \<Rightarrow> unit app" where
  "validatePassword password = (if length password < 10 then errM (Sentinel ErrWeakPassword) else retM ())"

text \<open>\<open>parse\<close> is \<open>mail.ParseAddress\<close>: the address of the parsed mailbox.\<close>

definition normalizeEmail :: "(string \<Rightarrow> string option) \<Rightarrow> string \<Rightarrow> string app" where
  "normalizeEmail parse raw =
     (let email = ToLower (TrimSpace raw) in
      if email = '''' then errM (Sentinel ErrInvalidEmail)
      else if parse email \<noteq> Some email then errM (Sentinel ErrInvalidEmail)
      else retM email)"

section \<open>Facts\<close>

lemma splitStr_loop_part:
  "CHR ''$'' \<notin> set s \<Longrightarrow> splitStr_loop (CHR ''$'') part (s @ CHR ''$'' # rest) =
     (part @ s) # splitStr_loop (CHR ''$'') [] rest"
  by (induction s arbitrary: part) auto

lemma splitStr_loop_last: "CHR ''$'' \<notin> set s \<Longrightarrow> splitStr_loop (CHR ''$'') part s = [part @ s]"
  by (induction s arbitrary: part) auto

lemma splitPHC_join:
  assumes "\<forall>p \<in> {a, b, c, d, e}. CHR ''$'' \<notin> set p"
  shows "splitPHC (''$'' @ a @ ''$'' @ b @ ''$'' @ c @ ''$'' @ d @ ''$'' @ e) = [a, b, c, d, e]"
  using assms by (simp add: splitStr_def splitStr_loop_part splitStr_loop_last)

lemma no_dollar_b64: "CHR ''$'' \<notin> set (EncodeToString std_alphabet bs)"
proof -
  have "CHR ''$'' \<notin> set std_alphabet"
    by (simp add: std_alphabet_def)
  then show ?thesis
    using set_EncodeToString [OF std_alphabet_ok] by blast
qed

lemma no_dollar_Itoa: "CHR ''$'' \<notin> set (Itoa n)"
proof -
  have "\<not> is_digit (CHR ''$'')"
    by (simp add: is_digit_def decimal_digits_def)
  then show ?thesis
    using Itoa_digits [of n] by blast
qed

lemma verify_encode_phc:
  "verifyPassword IDKey password (encode_phc salt key) =
     Some (IDKey password salt 3 65536 4 (length key) = key)"
proof -
  let ?params = "''m='' @ Itoa 65536 @ '',t='' @ Itoa 3 @ '',p='' @ Itoa 4"
  let ?enc = "EncodeToString std_alphabet"
  have "CHR ''$'' \<notin> set ?params"
    using no_dollar_Itoa by simp
  then have "splitPHC (''$'' @ ''argon2id'' @ ''$'' @ ''v=19'' @ ''$'' @ ?params @ ''$'' @ ?enc salt @ ''$'' @ ?enc key)
      = [''argon2id'', ''v=19'', ?params, ?enc salt, ?enc key]"
    by (intro splitPHC_join) (simp add: no_dollar_b64)
  then have "splitPHC (encode_phc salt key) = [''argon2id'', ''v=19'', ?params, ?enc salt, ?enc key]"
    by (simp add: encode_phc_def Argon2Params_def)
  moreover have "Sscanf_params ?params = Some (65536, 3, 4)"
    by (rule Sscanf_params_Itoa) simp_all
  ultimately show ?thesis
    by (simp add: verifyPassword_def verify_parts_def Decode_Encode std_alphabet_ok)
qed

lemma normalizeEmail_ok:
  "normalizeEmail parse raw w = (Inr e, w') \<longleftrightarrow>
     e = ToLower (TrimSpace raw) \<and> e \<noteq> '''' \<and> parse e = Some e \<and> w' = w"
  by (auto simp: normalizeEmail_def Let_def)

lemma keeps_normalizeEmail [keeps]: "keepsM I (normalizeEmail parse raw)"
  by (rule keepsM_I) (simp add: normalizeEmail_def Let_def)

lemma keeps_validatePassword [keeps]: "keepsM I (validatePassword password)"
  by (rule keepsM_I) (simp add: validatePassword_def)

lemma keeps_hashPassword [keeps]: "(\<And>n. keepsM I (rand_Read n)) \<Longrightarrow> keepsM I (hashPassword IDKey password)"
  unfolding hashPassword_def by (intro keeps)

lemma hashPassword_ok:
  "hashPassword IDKey password w = (Inr enc, w') \<Longrightarrow>
     \<exists>salt. length salt = 16 \<and> enc = encode_phc salt (IDKey password salt 3 65536 4 32)"
proof -
  assume run: "hashPassword IDKey password w = (Inr enc, w')"
  then obtain salt u where salt: "rand_Read 16 w = (Inr salt, u)"
    and enc: "enc = encode_phc salt (IDKey password salt 3 65536 4 32)"
    by (auto simp: hashPassword_def run_ok Argon2Params_def)
  from salt have "length salt = 16"
    by (auto simp: rand_Read_def split: if_splits)
  with enc show ?thesis
    by blast
qed

section \<open>A stored hash recognises its password\<close>

text \<open>
  C26. A password hash made by hashPassword is a string that verifyPassword parses back:
  verification never panics on it, and it accepts a password exactly when Argon2id derives
  the same 32-byte key from it, with the salt and the parameters stored in the string. In
  particular the password the hash was made from is accepted. (Argon2id returns as many
  bytes as it is asked for, which is documented.)
\<close>

theorem hashed_password_verifies:
  assumes "hashPassword IDKey password w = (Inr encoded, w')"
    and "\<And>pw salt t m p n. length (IDKey pw salt t m p n) = n"
  shows "\<exists>salt. length salt = 16 \<and> verifyPassword IDKey password encoded = Some True \<and>
    (\<forall>other. verifyPassword IDKey other encoded =
       Some (IDKey other salt 3 65536 4 32 = IDKey password salt 3 65536 4 32))"
proof -
  obtain salt where "length salt = 16" and "encoded = encode_phc salt (IDKey password salt 3 65536 4 32)"
    using hashPassword_ok [OF assms(1)] by blast
  with assms(2) show ?thesis
    by (intro exI [of _ salt]) (simp add: verify_encode_phc)
qed

text \<open>A toy key derivation of the right length: the password and the salt, cut or filled up.\<close>

definition sample_IDKey :: argon2 where
  "sample_IDKey password salt t m p n = take n (password @ salt @ replicate n (CHR ''.''))"

lemma length_sample_IDKey [simp]: "length (sample_IDKey password salt t m p n) = n"
  by (simp add: sample_IDKey_def)

definition stored_hash :: "(goerr + string) \<times> world \<Rightarrow> string" where
  "stored_hash r = (case fst r of Inr encoded \<Rightarrow> encoded | Inl e \<Rightarrow> '''')"

lemma hashed_password_verifies_witness:
  "verifyPassword sample_IDKey ''correct horse''
     (stored_hash (hashPassword sample_IDKey ''correct horse'' sample_world)) = Some True"
proof -
  have "succeeds (hashPassword sample_IDKey ''correct horse'' sample_world)"
    by (simp add: succeeds_def hashPassword_def bindM_def rand_Read_def sample_world_def world_of_def
        fault_next_def)
  then obtain encoded w' where run: "hashPassword sample_IDKey ''correct horse'' sample_world = (Inr encoded, w')"
    using succeeds_ex by blast
  show ?thesis
    using hashed_password_verifies [OF run length_sample_IDKey] by (auto simp: run stored_hash_def)
qed

end
