(* ===== verification/Settings.thy ===== *)
theory Settings
  imports Password "HOL-Library.AList"
begin

text \<open>
  Dynamic system settings: SystemSettingRepo (pkg/repository/system_settings.go) and
  SettingsService (pkg/service/settings.go) with its whitelist. \<open>strconv.ParseBool\<close> and
  \<open>strconv.ParseInt\<close> are modelled; what \<open>strconv.ParseFloat\<close> accepts is a parameter, no
  declared setting has the type float. A parse failure carries no identity the code
  inspects.
\<close>

section \<open>Definitions and views\<close>

datatype setting_type = SettingTypeString | SettingTypeBool | SettingTypeInt | SettingTypeFloat
  | SettingTypeOther string

fun setting_type_string :: "setting_type \<Rightarrow> string" where
  "setting_type_string SettingTypeString = ''string''"
| "setting_type_string SettingTypeBool = ''bool''"
| "setting_type_string SettingTypeInt = ''int''"
| "setting_type_string SettingTypeFloat = ''float''"
| "setting_type_string (SettingTypeOther s) = s"

record setting_definition =
  sd_Key :: string
  sd_Type :: setting_type
  sd_Default :: string
  sd_Description :: string
  sd_Group :: string
  sd_RequiresRestart :: bool
  sd_Sensitive :: bool

record setting_view =
  sv_Key :: string
  sv_Value :: string
  sv_ValueType :: string
  sv_Description :: string
  sv_Group :: string
  sv_Sensitive :: bool
  sv_RequiresRestart :: bool
  sv_IsSet :: bool
  sv_UpdatedAt :: "time option"

text \<open>
  The store is \<open>None\<close> when the service has none, and otherwise says whether the repository
  has a database. The definitions are a map from keys.
\<close>

record settings_service =
  ss_store :: "bool option"
  ss_defs :: "(string \<times> setting_definition) list"
  ss_ParseFloat :: "string \<Rightarrow> bool"

definition NewSettingsService :: "bool option \<Rightarrow> (string \<Rightarrow> bool) \<Rightarrow> setting_definition list \<Rightarrow> settings_service" where
  "NewSettingsService store parseFloat defs =
     \<lparr>ss_store = store, ss_defs = foldl (\<lambda>m d. AList.update (sd_Key d) d m) [] defs,
      ss_ParseFloat = parseFloat\<rparr>"

definition Settings_Definition :: "settings_service \<Rightarrow> string \<Rightarrow> setting_definition option" where
  "Settings_Definition s key = map_of (ss_defs s) key"

section \<open>strconv\<close>

definition ParseBool :: "string \<Rightarrow> bool option" where
  "ParseBool s =
     (if s \<in> set [''1'', ''t'', ''T'', ''TRUE'', ''true'', ''True''] then Some True
      else if s \<in> set [''0'', ''f'', ''F'', ''FALSE'', ''false'', ''False''] then Some False
      else None)"

text \<open>\<open>ParseInt(s, 10, 64)\<close>\<close>

definition ParseInt :: "string \<Rightarrow> int option" where
  "ParseInt s =
     (let neg = (s \<noteq> [] \<and> hd s = CHR ''-'');
          rest = (if s \<noteq> [] \<and> (hd s = CHR ''+'' \<or> hd s = CHR ''-'') then tl s else s);
          n = int (digits_value rest) in
      if rest = [] \<or> (\<exists>c \<in> set rest. \<not> is_digit c) then None
      else if \<not> neg \<and> n \<ge> 2 ^ 63 \<or> neg \<and> n > 2 ^ 63 then None
      else Some (if neg then - n else n))"

definition parse_failure :: "string \<Rightarrow> goerr" where
  "parse_failure what = DriverErr (''strconv.'' @ what)"

section \<open>SystemSettingRepo\<close>

definition SystemSettings_Get :: "bool \<Rightarrow> string \<Rightarrow> system_setting option app" where
  "SystemSettings_Get configured key =
     (if \<not> configured then retM None
      else wrapM ''get system setting'' (queryM (\<lambda>t d. find (\<lambda>r. st_key r = key) (system_settings d))))"

text \<open>\<open>INSERT ... ON CONFLICT (key) DO UPDATE\<close>, with the trigger on \<open>updated_at\<close>.\<close>

definition upsert_setting :: "system_setting \<Rightarrow> time \<Rightarrow> system_setting list \<Rightarrow> system_setting list" where
  "upsert_setting s t rows =
     (if \<exists>r \<in> set rows. st_key r = st_key s
      then update_where (\<lambda>r. st_key r = st_key s)
             (\<lambda>r. r\<lparr>st_value := st_value s, st_value_type := st_value_type s,
                    st_description := st_description s, st_updated_at := t\<rparr>) rows
      else rows @ [s\<lparr>st_updated_at := t\<rparr>])"

definition SystemSettings_Upsert :: "bool \<Rightarrow> system_setting \<Rightarrow> unit app" where
  "SystemSettings_Upsert configured s =
     (if \<not> configured then errM (ErrMsg ''system setting repository is not configured'')
      else wrapM ''upsert system setting'' (execM (\<lambda>t d.
        Inr ((), d\<lparr>system_settings := upsert_setting s t (system_settings d)\<rparr>))))"

section \<open>SettingsService\<close>

definition Settings_Get :: "settings_service \<Rightarrow> string \<Rightarrow> string app" where
  "Settings_Get s key =
     (case Settings_Definition s key of
        None \<Rightarrow> errM (Sentinel ErrUnknownSetting)
      | Some def \<Rightarrow>
          (case ss_store s of
             None \<Rightarrow> retM (sd_Default def)
           | Some configured \<Rightarrow> bindM (SystemSettings_Get configured key) (\<lambda>row.
               retM (case row of Some r \<Rightarrow> st_value r | None \<Rightarrow> sd_Default def))))"

definition GetBool :: "settings_service \<Rightarrow> string \<Rightarrow> bool app" where
  "GetBool s key = bindM (Settings_Get s key) (\<lambda>v.
     case ParseBool (TrimSpace v) of None \<Rightarrow> errM (parse_failure ''ParseBool'') | Some b \<Rightarrow> retM b)"

text \<open>The service may be nil; an error of the store gives the declared default.\<close>

definition GetBoolOrDefault :: "settings_service option \<Rightarrow> string \<Rightarrow> bool app" where
  "GetBoolOrDefault svc key =
     (case svc of
        None \<Rightarrow> retM False
      | Some s \<Rightarrow>
          (case Settings_Definition s key of
             None \<Rightarrow> retM False
           | Some def \<Rightarrow>
               bindM (tryM (GetBool s key)) (\<lambda>r. case r of
                 Inl e \<Rightarrow> retM (ParseBool (TrimSpace (sd_Default def)) = Some True)
               | Inr v \<Rightarrow> retM v)))"

definition GetInt :: "settings_service \<Rightarrow> string \<Rightarrow> int app" where
  "GetInt s key = bindM (Settings_Get s key) (\<lambda>v.
     case ParseInt (TrimSpace v) of None \<Rightarrow> errM (parse_failure ''ParseInt'') | Some n \<Rightarrow> retM n)"

definition GetString :: "settings_service \<Rightarrow> string \<Rightarrow> string app" where
  "GetString s key = Settings_Get s key"

fun validateSettingValue :: "(string \<Rightarrow> bool) \<Rightarrow> setting_type \<Rightarrow> string \<Rightarrow> goerr option" where
  "validateSettingValue parseFloat SettingTypeString v = None"
| "validateSettingValue parseFloat SettingTypeBool v =
     (if ParseBool (TrimSpace v) = None
      then Some (WrapText (Sentinel ErrInvalidSettingValue) ''expected a boolean'') else None)"
| "validateSettingValue parseFloat SettingTypeInt v =
     (if ParseInt (TrimSpace v) = None
      then Some (WrapText (Sentinel ErrInvalidSettingValue) ''expected an integer'') else None)"
| "validateSettingValue parseFloat SettingTypeFloat v =
     (if \<not> parseFloat (TrimSpace v)
      then Some (WrapText (Sentinel ErrInvalidSettingValue) ''expected a number'') else None)"
| "validateSettingValue parseFloat (SettingTypeOther t) v =
     Some (WrapText (Sentinel ErrInvalidSettingValue) ''unknown type'')"

definition Settings_Set :: "settings_service \<Rightarrow> string \<Rightarrow> string \<Rightarrow> unit app" where
  "Settings_Set s key v =
     (case Settings_Definition s key of
        None \<Rightarrow> errM (Sentinel ErrUnknownSetting)
      | Some def \<Rightarrow>
          (case validateSettingValue (ss_ParseFloat s) (sd_Type def) v of
             Some e \<Rightarrow> errM e
           | None \<Rightarrow>
               (case ss_store s of
                  None \<Rightarrow> errM (Sentinel ErrSettingsUnavailable)
                | Some configured \<Rightarrow> SystemSettings_Upsert configured
                    \<lparr>st_key = sd_Key def, st_value = v, st_value_type = setting_type_string (sd_Type def),
                     st_description = sd_Description def, st_updated_at = 0\<rparr>)))"

definition view_of :: "setting_definition \<Rightarrow> system_setting option \<Rightarrow> setting_view" where
  "view_of def row =
     \<lparr>sv_Key = sd_Key def,
      sv_Value = (if sd_Sensitive def then '''' else case row of Some r \<Rightarrow> st_value r | None \<Rightarrow> sd_Default def),
      sv_ValueType = setting_type_string (sd_Type def), sv_Description = sd_Description def,
      sv_Group = sd_Group def, sv_Sensitive = sd_Sensitive def,
      sv_RequiresRestart = sd_RequiresRestart def, sv_IsSet = (row \<noteq> None),
      sv_UpdatedAt = map_option st_updated_at row\<rparr>"

definition Settings_List :: "settings_service \<Rightarrow> setting_view list app" where
  "Settings_List s =
     forM (sort (map fst (ss_defs s))) [] (\<lambda>k views.
       case map_of (ss_defs s) k of
         None \<Rightarrow> retM views
       | Some def \<Rightarrow>
           bindM (case ss_store s of None \<Rightarrow> retM None | Some configured \<Rightarrow> SystemSettings_Get configured k)
             (\<lambda>row. retM (views @ [view_of def row])))"

section \<open>The whitelist\<close>

definition SettingKeySignupsEnabled :: string where
  "SettingKeySignupsEnabled = ''signups_enabled''"

definition setting :: "string \<Rightarrow> setting_type \<Rightarrow> string \<Rightarrow> string \<Rightarrow> string \<Rightarrow> setting_definition" where
  "setting key typ dflt description grp =
     \<lparr>sd_Key = key, sd_Type = typ, sd_Default = dflt, sd_Description = description, sd_Group = grp,
      sd_RequiresRestart = False, sd_Sensitive = False\<rparr>"

definition defaultSettingDefinitions :: "setting_definition list" where
  "defaultSettingDefinitions =
     [setting SettingKeySignupsEnabled SettingTypeBool ''true''
        ''Whether new account self-registration is allowed.'' ''auth'',
      setting ''maintenance_mode'' SettingTypeBool ''false''
        ''When true, readiness fails and ordinary API write requests are rejected while health and admin routes remain available.''
        ''operations'',
      setting ''announcement'' SettingTypeString '''' ''Operator broadcast message surfaced to clients.'' ''notifications'',
      setting ''passkey_enabled'' SettingTypeBool ''false''
        ''Whether passkey/WebAuthn registration, login, and step-up verification are enabled.'' ''auth'',
      setting ''passkey_origins'' SettingTypeString ''''
        ''Comma-separated HTTPS origins allowed for passkey/WebAuthn ceremonies. When blank, the request origin is used for localhost only.''
        ''security'',
      setting ''passkey_rp_id'' SettingTypeString ''''
        ''Relying party ID for passkey/WebAuthn ceremonies. Defaults to the host of the configured origin.'' ''security'',
      setting ''passkey_rp_name'' SettingTypeString ''HistorySync''
        ''Relying party display name shown by authenticators during passkey/WebAuthn ceremonies.'' ''security'']"

section \<open>Facts\<close>

lemma New_simps [simp]:
  "ss_ParseFloat (NewSettingsService store pf defs) = pf"
  "ss_store (NewSettingsService store pf defs) = store"
  by (simp_all add: NewSettingsService_def)

lemma defs_key_step:
  assumes "\<And>k def. map_of m k = Some def \<Longrightarrow> sd_Key def = k \<and> def \<in> S" and "set ds \<subseteq> S"
    and "map_of (foldl (\<lambda>m d. AList.update (sd_Key d) d m) m ds) k = Some def"
  shows "sd_Key def = k \<and> def \<in> S"
  using assms
proof (induction ds arbitrary: m)
  case Nil
  then show ?case by simp
next
  case (Cons d ds)
  let ?m = "AList.update (sd_Key d) d m"
  have step: "map_of ?m k = Some def \<Longrightarrow> sd_Key def = k \<and> def \<in> S" for k def
    using Cons.prems(1,2) by (cases "k = sd_Key d") (simp_all add: update_conv')
  show ?case
    by (rule Cons.IH [of ?m, OF step]) (use Cons.prems(2,3) in simp_all)
qed

lemma Definition_New:
  "Settings_Definition (NewSettingsService store pf defs) key = Some def \<Longrightarrow> sd_Key def = key \<and> def \<in> set defs"
  unfolding Settings_Definition_def NewSettingsService_def
  by (rule defs_key_step [where m = "[]" and ds = defs]) simp_all

definition setting_row_typed :: "settings_service \<Rightarrow> system_setting \<Rightarrow> bool" where
  "setting_row_typed s r \<longleftrightarrow> (case Settings_Definition s (st_key r) of
     None \<Rightarrow> False
   | Some def \<Rightarrow> validateSettingValue (ss_ParseFloat s) (sd_Type def) (st_value r) = None \<and>
       st_value_type r = setting_type_string (sd_Type def))"

text \<open>Every stored override belongs to a declared key and parses for its declared type.\<close>

definition settings_typed :: "settings_service \<Rightarrow> db \<Rightarrow> bool" where
  "settings_typed s d \<longleftrightarrow> (\<forall>r \<in> set (system_settings d). setting_row_typed s r)"

definition valid_defaults :: "(string \<Rightarrow> bool) \<Rightarrow> setting_definition list \<Rightarrow> bool" where
  "valid_defaults pf defs \<longleftrightarrow> (\<forall>def \<in> set defs. validateSettingValue pf (sd_Type def) (sd_Default def) = None)"

lemma valid_defaults_CE: "valid_defaults pf defaultSettingDefinitions"
proof -
  have "ParseBool (TrimSpace ''true'') = Some True" and "ParseBool (TrimSpace ''false'') = Some False"
    by code_simp+
  then show ?thesis
    by (simp add: valid_defaults_def defaultSettingDefinitions_def setting_def)
qed

lemma keeps_Upsert_typed:
  assumes "Settings_Definition s key = Some def" and "sd_Key def = key"
    and "validateSettingValue (ss_ParseFloat s) (sd_Type def) v = None"
  shows "keepsM (\<lambda>w. settings_typed s (db w)) (SystemSettings_Upsert configured
    \<lparr>st_key = sd_Key def, st_value = v, st_value_type = setting_type_string (sd_Type def),
     st_description = sd_Description def, st_updated_at = 0\<rparr>)"
  unfolding SystemSettings_Upsert_def
  by (intro keeps keeps_exec_db)
    (use assms in \<open>auto simp: settings_typed_def setting_row_typed_def upsert_setting_def update_where_def split: if_splits\<close>)

lemma keeps_Set_typed:
  "keepsM (\<lambda>w. settings_typed (NewSettingsService store pf defs) (db w))
     (Settings_Set (NewSettingsService store pf defs) key v)"
  unfolding Settings_Set_def
  by (intro keeps keeps_Upsert_typed) (auto dest: Definition_New)

lemma Settings_Get_typed:
  assumes "Settings_Get s key w = (Inr v, w')" and "settings_typed s (db w)"
    and "Settings_Definition s key = Some def"
    and "validateSettingValue (ss_ParseFloat s) (sd_Type def) (sd_Default def) = None"
  shows "validateSettingValue (ss_ParseFloat s) (sd_Type def) v = None"
proof -
  have row: "validateSettingValue (ss_ParseFloat s) (sd_Type def) (st_value r) = None"
    if "find (\<lambda>r. st_key r = key) (system_settings (db w)) = Some r" for r
    using find_Some_in [OF that] assms(2,3) by (auto simp: settings_typed_def setting_row_typed_def)
  show ?thesis
    using assms(1,3,4) row
    by (auto simp: Settings_Get_def SystemSettings_Get_def run_ok queryM_ok split: option.splits if_splits)
qed

lemma Settings_Get_error:
  "Settings_Get s key w = (Inl e, w') \<Longrightarrow> Settings_Definition s key = Some def \<Longrightarrow>
   e = Wrap ''get system setting'' (DriverErr ''database'')"
  by (auto simp: Settings_Get_def SystemSettings_Get_def bindM_def wrapM_def queryM_def execM_def Let_def
      split: option.splits if_splits)

lemma find_upsert:
  "find (\<lambda>r. st_key r = k) (upsert_setting s t rows) =
     (if k = st_key s
      then (case find (\<lambda>r. st_key r = k) rows of
              None \<Rightarrow> Some (s\<lparr>st_updated_at := t\<rparr>)
            | Some r \<Rightarrow> Some (r\<lparr>st_value := st_value s, st_value_type := st_value_type s,
                    st_description := st_description s, st_updated_at := t\<rparr>))
      else find (\<lambda>r. st_key r = k) rows)"
proof (cases "\<exists>r \<in> set rows. st_key r = st_key s")
  case True
  then have "find (\<lambda>r. st_key r = st_key s) rows \<noteq> None"
    by (auto simp: find_None_iff')
  with True show ?thesis
    by (auto simp: upsert_setting_def find_update_key [of st_key])
next
  case False
  then have "find (\<lambda>r. st_key r = st_key s) rows = None"
    by (simp add: find_None_iff')
  with False show ?thesis
    by (auto simp: upsert_setting_def find_append split: option.split)
qed

lemma typed_reader_error:
  assumes "typ = SettingTypeBool \<and> GetBool s key w = (Inl e, w') \<or>
           typ = SettingTypeInt \<and> GetInt s key w = (Inl e, w')"
  obtains "Settings_Get s key w = (Inl e, w')"
    | v where "Settings_Get s key w = (Inr v, w')" and "validateSettingValue pf typ v \<noteq> None"
  using assms
  by (cases "Settings_Get s key w")
    (auto simp: GetBool_def GetInt_def bindM_def split: sum.splits option.splits)

lemma Settings_Set_ok:
  assumes "Settings_Set s key v w = (Inr u, w')" and "sd_Key def = key" and "Settings_Definition s key = Some def"
  shows "ss_store s = Some True \<and>
    map_option st_value (find (\<lambda>r. st_key r = key) (system_settings (db w'))) = Some v \<and>
    (\<forall>k. k \<noteq> key \<longrightarrow> find (\<lambda>r. st_key r = k) (system_settings (db w')) =
       find (\<lambda>r. st_key r = k) (system_settings (db w)))"
  using assms
  by (auto simp: Settings_Set_def SystemSettings_Upsert_def execM_ok find_upsert split: option.splits if_splits)

section \<open>Stored settings keep their declared type\<close>

text \<open>
  C27. Writing a setting, whether it succeeds or fails, keeps every stored override under a
  declared key with a value that parses for its declared type. So long as this holds and
  the declared defaults are well typed, the typed readers GetBool and GetInt of a
  declared setting of that type fail only when the database does. A write that succeeds is
  what the next read of the key returns, and leaves every other key alone.
\<close>

theorem settings_stay_typed:
  assumes "s = NewSettingsService store pf defs"
    and "settings_typed s (db w)" and "valid_defaults pf defs"
    and "Settings_Definition s key = Some def"
  shows "settings_typed s (db (snd (Settings_Set s key v w))) \<and>
    (\<forall>e w'. sd_Type def = SettingTypeBool \<and> GetBool s key w = (Inl e, w') \<or>
            sd_Type def = SettingTypeInt \<and> GetInt s key w = (Inl e, w') \<longrightarrow>
       e = Wrap ''get system setting'' (DriverErr ''database'')) \<and>
    (\<forall>u w'. Settings_Set s key v w = (Inr u, w') \<longrightarrow>
       (\<not> fault_next w' \<longrightarrow> fst (GetString s key w') = Inr v) \<and>
       (\<forall>k. k \<noteq> key \<longrightarrow> find (\<lambda>r. st_key r = k) (system_settings (db w')) =
                          find (\<lambda>r. st_key r = k) (system_settings (db w))))"
proof (intro conjI allI impI)
  have def: "sd_Key def = key" "validateSettingValue (ss_ParseFloat s) (sd_Type def) (sd_Default def) = None"
    using assms Definition_New [of store pf defs key def] by (auto simp: valid_defaults_def)
  note get = Settings_Get_typed [OF _ assms(2,4) def(2)] and err = Settings_Get_error [OF _ assms(4)]
  show "settings_typed s (db (snd (Settings_Set s key v w)))"
    using keepsM_snd [OF keeps_Set_typed] assms(1,2) by blast
  show "e = Wrap ''get system setting'' (DriverErr ''database'')"
    if "sd_Type def = SettingTypeBool \<and> GetBool s key w = (Inl e, w') \<or>
        sd_Type def = SettingTypeInt \<and> GetInt s key w = (Inl e, w')" for e w'
    using that by (rule typed_reader_error [where pf = "ss_ParseFloat s"]) (auto dest: get err)
  fix u w'
  assume "Settings_Set s key v w = (Inr u, w')"
  note stored = Settings_Set_ok [OF this def(1) assms(4)]
  show "fst (GetString s key w') = Inr v" if "\<not> fault_next w'"
    using stored that assms(4)
    by (auto simp: GetString_def Settings_Get_def SystemSettings_Get_def bindM_def wrapM_def queryM_def execM_def Let_def)
  show "find (\<lambda>r. st_key r = k) (system_settings (db w')) = find (\<lambda>r. st_key r = k) (system_settings (db w))"
    if "k \<noteq> key" for k
    using stored that by blast
qed

text \<open>A settings service over the built-in whitelist, with maintenance mode switched on.\<close>

definition sample_settings :: settings_service where
  "sample_settings = NewSettingsService (Some True) (\<lambda>_. False) defaultSettingDefinitions"

lemma settings_stay_typed_witness:
  "settings_typed sample_settings (db (snd (Settings_Set sample_settings ''maintenance_mode'' ''1'' sample_world)))"
proof -
  have "settings_typed sample_settings (db sample_world)"
    by code_simp
  moreover obtain def where "Settings_Definition sample_settings ''maintenance_mode'' = Some def"
  proof -
    have "Settings_Definition sample_settings ''maintenance_mode'' \<noteq> None"
      by code_simp
    with that show ?thesis
      by blast
  qed
  ultimately show ?thesis
    using settings_stay_typed [OF sample_settings_def _ valid_defaults_CE] by blast
qed

end
