(* ===== verification/Tokens.thy ===== *)
theory Tokens
  imports Password
begin

text \<open>
  pkg/auth/auth.go: the token manager that issues and validates access tokens, login
  challenges and step-up tokens, and the middlewares that guard routes with them. Signing
  and parsing a JWT (golang-jwt), the text form of a UUID (google/uuid) and SHA-256 are
  parameters, fields of the manager; \<open>jwt_documented\<close> states what the code relies on.
\<close>

section \<open>Tokens\<close>

text \<open>\<open>jwt.MapClaims\<close>; a numeric date is a number of seconds.\<close>

type_synonym claims = "string \<rightharpoonup> json"

text \<open>
  The parser options the code sets; the method is always EdDSA with the manager's key. The
  code asks of a parse error only whether it is \<open>jwt.ErrTokenExpired\<close>.
\<close>

record parse_options =
  po_Issuer :: string
  po_Leeway :: duration
  po_ExpirationRequired :: bool

datatype jwt_failure = TokenExpired string | TokenUnusable string

fun jwt_text :: "jwt_failure \<Rightarrow> string" where
  "jwt_text (TokenExpired m) = m"
| "jwt_text (TokenUnusable m) = m"

record token_manager =
  tm_SignedString :: "claims \<Rightarrow> goerr + string"
  tm_Parse :: "parse_options \<Rightarrow> time \<Rightarrow> string \<Rightarrow> jwt_failure + claims"
  tm_uuid_of :: "bytes \<Rightarrow> uuid"
  tm_uuid_Parse :: "string \<Rightarrow> uuid option"
  tm_Sum256 :: "bytes \<Rightarrow> bytes"
  tm_accessTTL :: duration

record step_up_claims =
  sc_UserID :: uuid
  sc_Purpose :: string
  sc_Method :: string

definition tokenTypeAccess :: string where "tokenTypeAccess = ''access''"
definition tokenTypeLoginChallenge :: string where "tokenTypeLoginChallenge = ''login_2fa''"
definition tokenTypeStepUp :: string where "tokenTypeStepUp = ''verification''"
definition stepUpPurpose :: string where "stepUpPurpose = ''step_up''"
definition StepUpMethodTOTP :: string where "StepUpMethodTOTP = ''totp''"
definition StepUpMethodPasskey :: string where "StepUpMethodPasskey = ''passkey''"
definition loginChallengeTTL :: duration where "loginChallengeTTL = 5 * Minute"
definition stepUpTTL :: duration where "stepUpTTL = 5 * Minute"
definition issuer :: string where "issuer = ''historysync''"

lemmas token_types = tokenTypeAccess_def tokenTypeLoginChallenge_def tokenTypeStepUp_def

definition validStepUpMethod :: "string \<Rightarrow> bool" where
  "validStepUpMethod method \<longleftrightarrow> method = StepUpMethodTOTP \<or> method = StepUpMethodPasskey"

text \<open>\<open>jwt.NewNumericDate\<close> cuts a time to whole seconds.\<close>

definition NewNumericDate :: "time \<Rightarrow> json" where
  "NewNumericDate t = JNum (t div Second)"

text \<open>\<open>uuid.New()\<close>: sixteen random bytes; a failing entropy source is a panic there.\<close>

definition uuid_New :: "token_manager \<Rightarrow> uuid app" where
  "uuid_New tm = bindM (rand_Read 16) (\<lambda>bs. retM (tm_uuid_of tm bs))"

definition sign :: "token_manager \<Rightarrow> claims \<Rightarrow> string app" where
  "sign tm c = (case tm_SignedString tm c of Inl e \<Rightarrow> errM e | Inr tok \<Rightarrow> retM tok)"

definition access_claims :: "uuid \<Rightarrow> string \<Rightarrow> time \<Rightarrow> duration \<Rightarrow> uuid \<Rightarrow> claims" where
  "access_claims userID tier at ttl jti =
     [''sub'' \<mapsto> JStr userID, ''tier'' \<mapsto> JStr tier, ''typ'' \<mapsto> JStr tokenTypeAccess,
      ''iat'' \<mapsto> NewNumericDate at, ''exp'' \<mapsto> NewNumericDate (at + ttl),
      ''iss'' \<mapsto> JStr issuer, ''jti'' \<mapsto> JStr jti]"

definition IssueAccessToken :: "token_manager \<Rightarrow> uuid \<Rightarrow> string \<Rightarrow> string app" where
  "IssueAccessToken tm userID tier = bindM time_Now (\<lambda>now. bindM (uuid_New tm) (\<lambda>jti.
     sign tm (access_claims userID tier now (tm_accessTTL tm) jti)))"

definition challenge_claims :: "uuid \<Rightarrow> time \<Rightarrow> uuid \<Rightarrow> claims" where
  "challenge_claims userID at jti =
     [''sub'' \<mapsto> JStr userID, ''typ'' \<mapsto> JStr tokenTypeLoginChallenge,
      ''iat'' \<mapsto> NewNumericDate at, ''exp'' \<mapsto> NewNumericDate (at + loginChallengeTTL),
      ''iss'' \<mapsto> JStr issuer, ''jti'' \<mapsto> JStr jti]"

definition IssueLoginChallengeToken :: "token_manager \<Rightarrow> uuid \<Rightarrow> (string \<times> int) app" where
  "IssueLoginChallengeToken tm userID = bindM time_Now (\<lambda>now. bindM (uuid_New tm) (\<lambda>jti.
     bindM (sign tm (challenge_claims userID now jti)) (\<lambda>signed.
       retM (signed, loginChallengeTTL div Second))))"

definition step_up_token_claims :: "uuid \<Rightarrow> string \<Rightarrow> time \<Rightarrow> uuid \<Rightarrow> claims" where
  "step_up_token_claims userID method at jti =
     [''sub'' \<mapsto> JStr userID, ''typ'' \<mapsto> JStr tokenTypeStepUp, ''purpose'' \<mapsto> JStr stepUpPurpose,
      ''method'' \<mapsto> JStr method,
      ''iat'' \<mapsto> NewNumericDate at, ''exp'' \<mapsto> NewNumericDate (at + stepUpTTL),
      ''iss'' \<mapsto> JStr issuer, ''jti'' \<mapsto> JStr jti]"

definition IssueStepUpToken :: "token_manager \<Rightarrow> uuid \<Rightarrow> string \<Rightarrow> (string \<times> int) app" where
  "IssueStepUpToken tm userID method =
     (if \<not> validStepUpMethod method then errM (Sentinel ErrStepUpInvalid)
      else bindM time_Now (\<lambda>now. bindM (uuid_New tm) (\<lambda>jti.
        bindM (sign tm (step_up_token_claims userID method now jti)) (\<lambda>signed.
          retM (signed, stepUpTTL div Second)))))"

definition IssueRefreshToken :: "token_manager \<Rightarrow> uuid \<Rightarrow> (string \<times> bytes) app" where
  "IssueRefreshToken tm userID = bindM (rand_Read 32) (\<lambda>raw.
     let tokenStr = EncodeToString url_alphabet raw in retM (tokenStr, tm_Sum256 tm tokenStr))"

text \<open>\<open>v, _ := claims[k].(string)\<close>\<close>

definition claim_string :: "claims \<Rightarrow> string \<Rightarrow> string" where
  "claim_string c k = (case c k of Some (JStr s) \<Rightarrow> s | _ \<Rightarrow> '''')"

definition has_string :: "claims \<Rightarrow> string \<Rightarrow> bool" where
  "has_string c k = (case c k of Some (JStr s) \<Rightarrow> True | _ \<Rightarrow> False)"

definition lenient :: parse_options where
  "lenient = \<lparr>po_Issuer = issuer, po_Leeway = 30 * Second, po_ExpirationRequired = False\<rparr>"

definition strict :: parse_options where
  "strict = \<lparr>po_Issuer = issuer, po_Leeway = 0, po_ExpirationRequired = True\<rparr>"

definition ValidateAccessToken :: "token_manager \<Rightarrow> string \<Rightarrow> claims app" where
  "ValidateAccessToken tm tok = bindM time_Now (\<lambda>now.
     case tm_Parse tm lenient now tok of
       Inl e \<Rightarrow> errM (Wrap ''parse token'' (ErrMsg (jwt_text e)))
     | Inr c \<Rightarrow>
         if claim_string c ''typ'' \<noteq> '''' \<and> claim_string c ''typ'' \<noteq> tokenTypeAccess
         then errM (ErrMsg ''invalid token type'')
         else if \<not> has_string c ''tier'' then errM (ErrMsg ''missing tier claim'')
         else retM c)"

definition ValidateLoginChallengeToken :: "token_manager \<Rightarrow> string \<Rightarrow> uuid app" where
  "ValidateLoginChallengeToken tm tok = bindM time_Now (\<lambda>now.
     case tm_Parse tm lenient now tok of
       Inl e \<Rightarrow> errM (Wrap ''parse token'' (ErrMsg (jwt_text e)))
     | Inr c \<Rightarrow>
         if claim_string c ''typ'' \<noteq> tokenTypeLoginChallenge then errM (ErrMsg ''invalid token type'')
         else (case tm_uuid_Parse tm (claim_string c ''sub'') of
                 None \<Rightarrow> errM (ErrMsg ''invalid subject'')
               | Some userID \<Rightarrow> retM userID))"

definition ValidateStepUpToken :: "token_manager \<Rightarrow> string \<Rightarrow> step_up_claims app" where
  "ValidateStepUpToken tm tok = bindM time_Now (\<lambda>now.
     case tm_Parse tm strict now tok of
       Inl (TokenExpired m) \<Rightarrow> errM (WrapText (Sentinel ErrStepUpExpired) m)
     | Inl (TokenUnusable m) \<Rightarrow> errM (WrapText (Sentinel ErrStepUpInvalid) m)
     | Inr c \<Rightarrow>
         if claim_string c ''typ'' \<noteq> tokenTypeStepUp then errM (Sentinel ErrStepUpInvalid)
         else if claim_string c ''purpose'' \<noteq> stepUpPurpose then errM (Sentinel ErrStepUpInvalid)
         else if \<not> validStepUpMethod (claim_string c ''method'') then errM (Sentinel ErrStepUpInvalid)
         else (case tm_uuid_Parse tm (claim_string c ''sub'') of
                 None \<Rightarrow> errM (Sentinel ErrStepUpInvalid)
               | Some userID \<Rightarrow> retM \<lparr>sc_UserID = userID, sc_Purpose = claim_string c ''purpose'',
                   sc_Method = claim_string c ''method''\<rparr>))"

section \<open>Middleware\<close>

text \<open>
  A middleware answers the request with an error or lets it through with the request's
  locals. An error is one of Fiber (status and message) or of pkg/apierrors (code and
  message).
\<close>

datatype http_error = FiberError int string | APIError string string

record locals =
  lo_user_id :: "json option"
  lo_tier :: "json option"
  lo_token_jti :: "json option"
  lo_verification_method :: "string option"

definition no_locals :: locals where
  "no_locals = \<lparr>lo_user_id = None, lo_tier = None, lo_token_jti = None, lo_verification_method = None\<rparr>"

text \<open>\<open>strings.HasPrefix\<close> and \<open>strings.TrimPrefix\<close> with "Bearer ".\<close>

definition bearer_token :: "string \<Rightarrow> string" where
  "bearer_token h = (if take 7 h = ''Bearer '' then drop 7 h else h)"

definition AuthMiddleware :: "token_manager \<Rightarrow> string \<Rightarrow> locals \<Rightarrow> (http_error + locals) app" where
  "AuthMiddleware tm authHeader l =
     (if authHeader = '''' then retM (Inl (FiberError 401 ''missing Authorization header''))
      else bindM (tryM (ValidateAccessToken tm (bearer_token authHeader))) (\<lambda>r. case r of
        Inl e \<Rightarrow> retM (Inl (FiberError 401 (''invalid token: '' @ Error e)))
      | Inr c \<Rightarrow> retM (Inr (l\<lparr>lo_user_id := c ''sub'', lo_tier := c ''tier'', lo_token_jti := c ''jti''\<rparr>))))"

definition UserID :: "token_manager \<Rightarrow> locals \<Rightarrow> uuid" where
  "UserID tm l =
     (case lo_user_id l of
        Some (JStr raw) \<Rightarrow> (case tm_uuid_Parse tm raw of None \<Rightarrow> uuid_Nil | Some i \<Rightarrow> i)
      | _ \<Rightarrow> uuid_Nil)"

definition StepUpMiddleware :: "token_manager \<Rightarrow> string \<Rightarrow> locals \<Rightarrow> (http_error + locals) app" where
  "StepUpMiddleware tm header l =
     (let tokenStr = TrimSpace header; userID = UserID tm l in
      if tokenStr = '''' then retM (Inl (APIError ''STEP_UP_REQUIRED'' ''step-up verification is required''))
      else if userID = uuid_Nil
      then retM (Inl (APIError ''STEP_UP_INVALID'' ''step-up verification requires an authenticated user''))
      else bindM (tryM (ValidateStepUpToken tm tokenStr)) (\<lambda>r. case r of
        Inl e \<Rightarrow>
          if errIs e ErrStepUpExpired
          then retM (Inl (APIError ''STEP_UP_EXPIRED'' (sentinel_text ErrStepUpExpired)))
          else retM (Inl (APIError ''STEP_UP_INVALID'' (sentinel_text ErrStepUpInvalid)))
      | Inr c \<Rightarrow>
          if sc_UserID c \<noteq> userID \<or> sc_Purpose c \<noteq> stepUpPurpose \<or> \<not> validStepUpMethod (sc_Method c)
          then retM (Inl (APIError ''STEP_UP_INVALID'' (sentinel_text ErrStepUpInvalid)))
          else retM (Inr (l\<lparr>lo_verification_method := Some (sc_Method c)\<rparr>))))"

text \<open>\<open>AdminMiddleware\<close>: \<open>None\<close> lets the request through.\<close>

definition AdminMiddleware :: "string \<Rightarrow> string \<Rightarrow> string \<Rightarrow> http_error option" where
  "AdminMiddleware adminKey header lowerHeader =
     (if adminKey = '''' then Some (FiberError 403 ''admin API not configured'')
      else let key = (if header = '''' then lowerHeader else header) in
        if key = '''' then Some (FiberError 401 ''missing X-Admin-Key header'')
        else if key \<noteq> adminKey then Some (FiberError 403 ''invalid admin key'')
        else None)"

section \<open>What golang-jwt documents\<close>

text \<open>
  A signed token parses to the claims it was signed with; parsing succeeds only for the
  required issuer and, with an expiry (which may be demanded), only ahead of it by the
  clock, with leeway; and it does succeed then when no other registered claim restricts
  the token. A token past its expiry is refused. The compact form is a non-empty string
  without white space around it and does not start with "Bearer ".
\<close>

definition unexpired :: "parse_options \<Rightarrow> time \<Rightarrow> claims \<Rightarrow> bool" where
  "unexpired opts t c = (case c ''exp'' of
     Some (JNum e) \<Rightarrow> t < e * Second + po_Leeway opts
   | None \<Rightarrow> \<not> po_ExpirationRequired opts
   | _ \<Rightarrow> False)"

definition jwt_documented :: "token_manager \<Rightarrow> bool" where
  "jwt_documented tm \<longleftrightarrow>
     (\<forall>c tok. tm_SignedString tm c = Inr tok \<longrightarrow>
        tok \<noteq> '''' \<and> TrimSpace tok = tok \<and> take 7 tok \<noteq> ''Bearer '' \<and>
        (\<forall>opts t. c ''iss'' = Some (JStr (po_Issuer opts)) \<and> c ''nbf'' = None \<and> c ''aud'' = None \<longrightarrow>
           (if unexpired opts t c then tm_Parse tm opts t tok = Inr c
            else \<exists>m. tm_Parse tm opts t tok = Inl (TokenExpired m))))"

lemma issued_parse:
  assumes "jwt_documented tm" and "sign tm c w = (Inr tok, w')"
    and "c ''iss'' = Some (JStr (po_Issuer opts))" and "c ''nbf'' = None" and "c ''aud'' = None"
  shows "if unexpired opts t c then tm_Parse tm opts t tok = Inr c
         else \<exists>m. tm_Parse tm opts t tok = Inl (TokenExpired m)"
proof -
  have "tm_SignedString tm c = Inr tok"
    using assms(2) by (auto simp: sign_def split: sum.splits)
  with assms(1,3-5) show ?thesis
    unfolding jwt_documented_def by blast
qed

lemma issued_text:
  assumes "jwt_documented tm" and "sign tm c w = (Inr tok, w')"
  shows "tok \<noteq> '''' \<and> TrimSpace tok = tok \<and> take 7 tok \<noteq> ''Bearer ''"
proof -
  have "tm_SignedString tm c = Inr tok"
    using assms(2) by (auto simp: sign_def split: sum.splits)
  with assms(1) show ?thesis
    unfolding jwt_documented_def by blast
qed

lemmas claims_defs = access_claims_def challenge_claims_def step_up_token_claims_def
  claim_string_def has_string_def NewNumericDate_def

section \<open>What an issued token is\<close>

lemma IssueAccessToken_ok:
  "IssueAccessToken tm uid tier w = (Inr tok, w') \<Longrightarrow>
     \<exists>jti u. sign tm (access_claims uid tier (now (tick w)) (tm_accessTTL tm) jti) u = (Inr tok, w')"
  by (auto simp: IssueAccessToken_def run_ok time_Now_ok)

lemma IssueLoginChallengeToken_ok:
  "IssueLoginChallengeToken tm uid w = (Inr (tok, n), w') \<Longrightarrow>
     \<exists>jti u. sign tm (challenge_claims uid (now (tick w)) jti) u = (Inr tok, w')"
  by (auto simp: IssueLoginChallengeToken_def run_ok time_Now_ok)

lemma IssueStepUpToken_ok:
  "IssueStepUpToken tm uid method w = (Inr (tok, n), w') \<Longrightarrow>
     validStepUpMethod method \<and>
     (\<exists>jti u. sign tm (step_up_token_claims uid method (now (tick w)) jti) u = (Inr tok, w'))"
  by (auto simp: IssueStepUpToken_def run_ok time_Now_ok split: if_splits)

text \<open>How each validator judges a token whose parse is known.\<close>

lemma ValidateAccessToken_issued:
  assumes "jwt_documented tm" and "sign tm c u = (Inr tok, u')"
    and "c ''iss'' = Some (JStr issuer)" and "c ''nbf'' = None" and "c ''aud'' = None"
  shows "succeeds (ValidateAccessToken tm tok w) \<longleftrightarrow>
     unexpired lenient (now (tick w)) c \<and>
     (claim_string c ''typ'' = '''' \<or> claim_string c ''typ'' = tokenTypeAccess) \<and> has_string c ''tier''"
    and "ValidateAccessToken tm tok w = (Inr c', w') \<Longrightarrow> c' = c"
  using issued_parse [OF assms(1,2), of lenient "now (tick w)"] assms(3-5)
  by (auto simp: ValidateAccessToken_def bindM_def time_Now_def Let_def succeeds_def lenient_def split: if_splits)

lemma ValidateLoginChallengeToken_issued:
  assumes "jwt_documented tm" and "sign tm c u = (Inr tok, u')"
    and "c ''iss'' = Some (JStr issuer)" and "c ''nbf'' = None" and "c ''aud'' = None"
  shows "ValidateLoginChallengeToken tm tok w = (Inr uid, w') \<longleftrightarrow> w' = tick w \<and>
     unexpired lenient (now (tick w)) c \<and> claim_string c ''typ'' = tokenTypeLoginChallenge \<and>
     tm_uuid_Parse tm (claim_string c ''sub'') = Some uid"
  using issued_parse [OF assms(1,2), of lenient "now (tick w)"] assms(3-5)
  by (auto simp: ValidateLoginChallengeToken_def bindM_def time_Now_def Let_def lenient_def
      split: if_splits option.splits)

lemma ValidateStepUpToken_issued:
  assumes "jwt_documented tm" and "sign tm c u = (Inr tok, u')"
    and "c ''iss'' = Some (JStr issuer)" and "c ''nbf'' = None" and "c ''aud'' = None"
  shows "ValidateStepUpToken tm tok w = (Inr s, w') \<longleftrightarrow> w' = tick w \<and>
     unexpired strict (now (tick w)) c \<and> claim_string c ''typ'' = tokenTypeStepUp \<and>
     claim_string c ''purpose'' = stepUpPurpose \<and> validStepUpMethod (claim_string c ''method'') \<and>
     tm_uuid_Parse tm (claim_string c ''sub'') = Some (sc_UserID s) \<and>
     sc_Purpose s = claim_string c ''purpose'' \<and> sc_Method s = claim_string c ''method''"
  using issued_parse [OF assms(1,2), of strict "now (tick w)"] assms(3-5)
  by (cases s) (auto simp: ValidateStepUpToken_def bindM_def time_Now_def Let_def strict_def
      split: if_splits option.splits)

lemma issued_claims:
  "access_claims uid tier t ttl jti ''iss'' = Some (JStr issuer)"
  "access_claims uid tier t ttl jti ''nbf'' = None" "access_claims uid tier t ttl jti ''aud'' = None"
  "challenge_claims uid t jti ''iss'' = Some (JStr issuer)"
  "challenge_claims uid t jti ''nbf'' = None" "challenge_claims uid t jti ''aud'' = None"
  "step_up_token_claims uid method t jti ''iss'' = Some (JStr issuer)"
  "step_up_token_claims uid method t jti ''nbf'' = None"
  "step_up_token_claims uid method t jti ''aud'' = None"
  by (simp_all add: claims_defs)

lemmas access_validators =
  ValidateAccessToken_issued [OF _ _ issued_claims(1-3)]
  ValidateLoginChallengeToken_issued [OF _ _ issued_claims(1-3)]
  ValidateStepUpToken_issued [OF _ _ issued_claims(1-3)]

lemmas challenge_validators =
  ValidateAccessToken_issued [OF _ _ issued_claims(4-6)]
  ValidateLoginChallengeToken_issued [OF _ _ issued_claims(4-6)]
  ValidateStepUpToken_issued [OF _ _ issued_claims(4-6)]

lemmas step_up_validators =
  ValidateAccessToken_issued [OF _ _ issued_claims(7-9)]
  ValidateLoginChallengeToken_issued [OF _ _ issued_claims(7-9)]
  ValidateStepUpToken_issued [OF _ _ issued_claims(7-9)]

lemma not_succeeds: "\<not> succeeds r \<longleftrightarrow> (\<forall>x s. r \<noteq> (Inr x, s))"
  by (cases r) (auto simp: succeeds_def split: sum.splits)

section \<open>The three kinds of token do not stand in for each other\<close>


section \<open>Lifetimes\<close>

text \<open>The instant, cut to seconds, at which a token of the given lifetime expires.\<close>

definition expiry :: "world \<Rightarrow> duration \<Rightarrow> time" where
  "expiry w ttl = (now (tick w) + ttl) div Second * Second"

lemma unexpired_issued:
  "unexpired lenient t (access_claims uid tier (now (tick w)) ttl jti) \<longleftrightarrow> t < expiry w ttl + 30 * Second"
  "unexpired strict t (step_up_token_claims uid method (now (tick w)) jti) \<longleftrightarrow> t < expiry w stepUpTTL"
  by (simp_all add: unexpired_def claims_defs expiry_def lenient_def strict_def)

lemma bearer_token_simps [simp]:
  "bearer_token (CHR ''B'' # CHR ''e'' # CHR ''a'' # CHR ''r'' # CHR ''e'' # CHR ''r'' # CHR '' '' # tok) = tok"
  "take 7 tok \<noteq> ''Bearer '' \<Longrightarrow> bearer_token tok = tok"
  by (simp_all add: bearer_token_def)

lemma AuthMiddleware_eval:
  "header \<noteq> '''' \<Longrightarrow> fst (AuthMiddleware tm header l v) =
     (case fst (ValidateAccessToken tm (bearer_token header) v) of
        Inl e \<Rightarrow> Inr (Inl (FiberError 401 (''invalid token: '' @ Error e)))
      | Inr c \<Rightarrow> Inr (Inr (l\<lparr>lo_user_id := c ''sub'', lo_tier := c ''tier'', lo_token_jti := c ''jti''\<rparr>)))"
  by (simp add: AuthMiddleware_def bindM_def tryM_def split: prod.splits sum.splits)

lemma StepUpMiddleware_passes:
  "(\<exists>l'. fst (StepUpMiddleware tm header l v) = Inr (Inr l')) \<longleftrightarrow>
     TrimSpace header \<noteq> '''' \<and> UserID tm l \<noteq> uuid_Nil \<and>
     (\<exists>c v'. ValidateStepUpToken tm (TrimSpace header) v = (Inr c, v') \<and> sc_UserID c = UserID tm l \<and>
        sc_Purpose c = stepUpPurpose \<and> validStepUpMethod (sc_Method c))"
  by (cases "ValidateStepUpToken tm (TrimSpace header) v")
    (auto simp: StepUpMiddleware_def Let_def bindM_def tryM_def split: sum.splits)

lemma access_token_opens:
  assumes doc: "jwt_documented tm" and access: "IssueAccessToken tm uid tier w = (Inr tok, w')"
  shows "\<exists>jti. \<forall>v l. \<forall>header \<in> {tok, ''Bearer '' @ tok}.
     if now (tick v) < expiry w (tm_accessTTL tm) + 30 * Second
     then fst (AuthMiddleware tm header l v) = Inr (Inr (l\<lparr>lo_user_id := Some (JStr uid),
            lo_tier := Some (JStr tier), lo_token_jti := Some (JStr jti)\<rparr>))
     else \<exists>m. fst (AuthMiddleware tm header l v) = Inr (Inl (FiberError 401 m))"
proof -
  obtain jti u where s: "sign tm (access_claims uid tier (now (tick w)) (tm_accessTTL tm) jti) u = (Inr tok, w')"
    using IssueAccessToken_ok [OF access] by blast
  let ?c = "access_claims uid tier (now (tick w)) (tm_accessTTL tm) jti"
  have header: "header \<noteq> '''' \<and> bearer_token header = tok" if "header \<in> {tok, ''Bearer '' @ tok}" for header
    using that issued_text [OF doc s] by auto
  have valid: "if now (tick v) < expiry w (tm_accessTTL tm) + 30 * Second
      then fst (ValidateAccessToken tm tok v) = Inr ?c
      else \<exists>e. fst (ValidateAccessToken tm tok v) = Inl e" for v
    using access_validators(1,2) [OF doc s, of v] unfolding unexpired_issued
    by (cases "ValidateAccessToken tm tok v") (auto simp: succeeds_def claims_defs token_types split: sum.splits)
  have claims: "?c ''sub'' = Some (JStr uid)" "?c ''tier'' = Some (JStr tier)" "?c ''jti'' = Some (JStr jti)"
    by (simp_all add: claims_defs)
  show ?thesis
  proof (intro exI [of _ jti] allI ballI)
    fix v l header
    assume "header \<in> {tok, ''Bearer '' @ tok}"
    from header [OF this] show "if now (tick v) < expiry w (tm_accessTTL tm) + 30 * Second
     then fst (AuthMiddleware tm header l v) = Inr (Inr (l\<lparr>lo_user_id := Some (JStr uid),
            lo_tier := Some (JStr tier), lo_token_jti := Some (JStr jti)\<rparr>))
     else \<exists>m. fst (AuthMiddleware tm header l v) = Inr (Inl (FiberError 401 m))"
      using valid [of v] by (auto simp: AuthMiddleware_eval claims)
  qed
qed

lemma step_up_token_opens:
  assumes doc: "jwt_documented tm" and parse: "tm_uuid_Parse tm uid = Some uid"
    and step_up: "IssueStepUpToken tm uid method w = (Inr (tok, n), w')"
  shows "(\<exists>l'. fst (StepUpMiddleware tm tok l v) = Inr (Inr l')) \<longleftrightarrow>
     UserID tm l = uid \<and> uid \<noteq> uuid_Nil \<and> now (tick v) < expiry w stepUpTTL"
proof -
  obtain jti u where chosen: "validStepUpMethod method"
    and s: "sign tm (step_up_token_claims uid method (now (tick w)) jti) u = (Inr tok, w')"
    using IssueStepUpToken_ok [OF step_up] by blast
  let ?c = "step_up_token_claims uid method (now (tick w)) jti"
  have "(\<exists>c v'. ValidateStepUpToken tm tok v = (Inr c, v') \<and> sc_UserID c = uid' \<and>
        sc_Purpose c = stepUpPurpose \<and> validStepUpMethod (sc_Method c)) \<longleftrightarrow>
      uid' = uid \<and> now (tick v) < expiry w stepUpTTL" for uid'
    unfolding step_up_validators(4) [OF doc s] unexpired_issued
    using parse chosen
    by (auto simp: claims_defs intro!: exI [of _ "\<lparr>sc_UserID = uid, sc_Purpose = stepUpPurpose, sc_Method = method\<rparr>"])
  then show ?thesis
    using issued_text [OF doc s] unfolding StepUpMiddleware_passes by auto
qed


section \<open>A concrete library\<close>

text \<open>
  A table of three signed tokens, one of each kind, for the user \<open>u1\<close> at instant 100: it
  behaves as documented, and the witnesses use it.
\<close>

definition sample_table :: "(string \<times> claims) list" where
  "sample_table =
     [(''A'', access_claims ''u1'' ''free'' 100 (15 * Minute) ''j''),
      (''C'', challenge_claims ''u1'' 100 ''j''),
      (''V'', step_up_token_claims ''u1'' ''totp'' 100 ''j'')]"

definition sample_tm :: token_manager where
  "sample_tm =
     \<lparr>tm_SignedString = (\<lambda>c. case find (\<lambda>(tok, c'). c' = c) sample_table of
        None \<Rightarrow> Inl (ErrMsg ''no key'') | Some (tok, c') \<Rightarrow> Inr tok),
      tm_Parse = (\<lambda>opts t tok. case map_of sample_table tok of
        None \<Rightarrow> Inl (TokenUnusable ''signature is invalid'')
      | Some c \<Rightarrow>
          if c ''iss'' \<noteq> Some (JStr (po_Issuer opts)) then Inl (TokenUnusable ''token has invalid issuer'')
          else if unexpired opts t c then Inr c else Inl (TokenExpired ''token is expired'')),
      tm_uuid_of = (\<lambda>_. ''j''), tm_uuid_Parse = (\<lambda>s. if s = '''' then None else Some s),
      tm_Sum256 = (\<lambda>bs. ''#'' @ bs), tm_accessTTL = 15 * Minute\<rparr>"

lemma issued_kinds:
  "claim_string (access_claims u t a ttl j) ''typ'' = tokenTypeAccess"
  "claim_string (challenge_claims u a j) ''typ'' = tokenTypeLoginChallenge"
  "claim_string (step_up_token_claims u m a j) ''typ'' = tokenTypeStepUp"
  by (simp_all add: claims_defs)

lemma sample_kinds_differ:
  "access_claims u t a ttl j \<noteq> challenge_claims u' a' j'"
  "access_claims u t a ttl j \<noteq> step_up_token_claims u' m a' j'"
  "challenge_claims u a j \<noteq> step_up_token_claims u' m a' j'"
proof -
  have differ: "c \<noteq> c'" if "claim_string c ''typ'' \<noteq> claim_string c' ''typ''" for c c'
    using that by auto
  show "access_claims u t a ttl j \<noteq> challenge_claims u' a' j'"
    by (rule differ) (simp add: issued_kinds token_types)
  show "access_claims u t a ttl j \<noteq> step_up_token_claims u' m a' j'"
    by (rule differ) (simp add: issued_kinds token_types)
  show "challenge_claims u a j \<noteq> step_up_token_claims u' m a' j'"
    by (rule differ) (simp add: issued_kinds token_types)
qed

lemma sample_table_entry:
  assumes "(tok, c) \<in> set sample_table"
  shows "map_of sample_table tok = Some c" and "tok \<noteq> '''' \<and> TrimSpace tok = tok \<and> take 7 tok \<noteq> ''Bearer ''"
    and "c ''iss'' = Some (JStr issuer)"
proof -
  show "map_of sample_table tok = Some c" and "c ''iss'' = Some (JStr issuer)"
    using assms by (auto simp: sample_table_def issued_claims)
  from assms have "tok \<in> set [''A'', ''C'', ''V'']"
    by (auto simp: sample_table_def)
  moreover have "\<forall>tok \<in> set [''A'', ''C'', ''V'']. tok \<noteq> '''' \<and> TrimSpace tok = tok \<and> take 7 tok \<noteq> ''Bearer ''"
    by code_simp
  ultimately show "tok \<noteq> '''' \<and> TrimSpace tok = tok \<and> take 7 tok \<noteq> ''Bearer ''"
    by blast
qed

lemma jwt_documented_sample: "jwt_documented sample_tm"
  unfolding jwt_documented_def
proof (intro allI impI)
  fix c tok
  assume "tm_SignedString sample_tm c = Inr tok"
  then have "(tok, c) \<in> set sample_table"
    by (auto simp: sample_tm_def split: option.splits dest!: find_Some_in)
  note entry = sample_table_entry [OF this]
  show "tok \<noteq> '''' \<and> TrimSpace tok = tok \<and> take 7 tok \<noteq> ''Bearer '' \<and>
      (\<forall>opts t. c ''iss'' = Some (JStr (po_Issuer opts)) \<and> c ''nbf'' = None \<and> c ''aud'' = None \<longrightarrow>
         (if unexpired opts t c then tm_Parse sample_tm opts t tok = Inr c
          else \<exists>m. tm_Parse sample_tm opts t tok = Inl (TokenExpired m)))"
    using entry by (simp add: sample_tm_def)
qed

lemma sample_issue:
  "IssueAccessToken sample_tm ''u1'' ''free'' sample_world = (Inr ''A'', snd (IssueAccessToken sample_tm ''u1'' ''free'' sample_world))"
  "IssueLoginChallengeToken sample_tm ''u1'' sample_world =
     (Inr (''C'', 300), snd (IssueLoginChallengeToken sample_tm ''u1'' sample_world))"
  "IssueStepUpToken sample_tm ''u1'' ''totp'' sample_world =
     (Inr (''V'', 300), snd (IssueStepUpToken sample_tm ''u1'' ''totp'' sample_world))"
  by (simp_all add: IssueAccessToken_def IssueLoginChallengeToken_def IssueStepUpToken_def bindM_def time_Now_def
      Let_def uuid_New_def rand_Read_def sample_world_def world_of_def tick_def fault_next_def drop_fault_def
      sign_def sample_tm_def sample_table_def sample_kinds_differ sample_kinds_differ [symmetric]
      validStepUpMethod_def StepUpMethodTOTP_def loginChallengeTTL_def stepUpTTL_def Minute_def Second_def)



end
