(* ===== verification/AuthService.thy ===== *)
theory AuthService
  imports Tokens Settings UserRepo TokenRepo SecurityRepos QuotaRepo
begin

text \<open>
  AuthService of pkg/service/service.go: registration, login, e-mail verification, password
  reset, access-token refresh, logout and device revocation. The e-mail parser, Argon2id
  and the JWT library are parameters, fields of the service. An e-mail sent with an
  \<open>Async\<close> method of the notification service is an entry of the log.
\<close>

section \<open>The service\<close>

text \<open>\<open>as_notifications\<close>: whether the notification service, when there is one, delivers.\<close>

record auth_service =
  as_tm :: token_manager
  as_IDKey :: argon2
  as_ParseAddress :: "string \<Rightarrow> string option"
  as_settings :: "settings_service option"
  as_notifications :: "bool option"

record register_input =
  ri_Email :: string
  ri_Password :: string
  ri_DisplayName :: string

record register_result =
  rg_User :: user
  rg_AccessToken :: string
  rg_RefreshToken :: string
  rg_ExpiresIn :: int
  rg_EmailVerificationToken :: string
  rg_RequiresTwoFactor :: bool
  rg_Challenge :: string

definition emailVerificationTokenTTL :: duration where
  "emailVerificationTokenTTL = 24 * Hour"

definition refreshTokenTTL :: duration where
  "refreshTokenTTL = 30 * 24 * Hour"

definition hashToken :: "auth_service \<Rightarrow> string \<Rightarrow> bytes" where
  "hashToken s token = tm_Sum256 (as_tm s) token"

definition issueRefreshToken :: "auth_service \<Rightarrow> uuid \<Rightarrow> (string \<times> bytes) app" where
  "issueRefreshToken s userID = bindM (rand_Read 32) (\<lambda>raw.
     let tokenStr = EncodeToString url_alphabet raw in retM (tokenStr, hashToken s tokenStr))"

text \<open>\<open>verifyPassword\<close> where it is called: a panic ends the request.\<close>

definition check_password :: "auth_service \<Rightarrow> string \<Rightarrow> string \<Rightarrow> bool app" where
  "check_password s password encoded = (case verifyPassword (as_IDKey s) password encoded of
     None \<Rightarrow> errM (DriverErr ''panic: argon2'') | Some ok \<Rightarrow> retM ok)"

text \<open>The refresh token and its row; the last steps of \<open>issueTokens\<close> and of \<open>Register\<close>.\<close>

definition open_session :: "auth_service \<Rightarrow> user \<Rightarrow> (string \<times> string) app" where
  "open_session s u =
     bindM (wrapM ''issue access token'' (IssueAccessToken (as_tm s) (u_id u) (tier_string (u_tier u)))) (\<lambda>access.
     bindM (wrapM ''issue refresh token'' (issueRefreshToken s (u_id u))) (\<lambda>(refresh, tokenHash).
     bindM time_Now (\<lambda>at.
     thenM (wrapM ''save refresh token'' (RefreshTokens_Save (u_id u) tokenHash '''' (at + refreshTokenTTL)))
           (retM (access, refresh)))))"

definition session_result :: "user \<Rightarrow> string \<Rightarrow> string \<Rightarrow> string \<Rightarrow> register_result" where
  "session_result u access refresh verification =
     \<lparr>rg_User = u, rg_AccessToken = access, rg_RefreshToken = refresh, rg_ExpiresIn = 900,
      rg_EmailVerificationToken = verification, rg_RequiresTwoFactor = False, rg_Challenge = ''''\<rparr>"

definition issueTokens :: "auth_service \<Rightarrow> user \<Rightarrow> register_result app" where
  "issueTokens s u = bindM (open_session s u) (\<lambda>(access, refresh). retM (session_result u access refresh ''''))"

definition createEmailVerification :: "auth_service \<Rightarrow> user \<Rightarrow> string app" where
  "createEmailVerification s u =
     thenM (wrapM ''delete existing email verification tokens'' (EmailVerifications_DeleteByUser (u_id u)))
     (bindM (wrapM ''issue email verification token'' (issueRefreshToken s (u_id u))) (\<lambda>(token, tokenHash).
      bindM time_Now (\<lambda>at.
      thenM (wrapM ''save email verification token''
               (EmailVerifications_Save (u_id u) tokenHash (at + emailVerificationTokenTTL)))
            (retM token))))"

section \<open>Registration and login\<close>

definition new_user :: "string \<Rightarrow> string \<Rightarrow> string \<Rightarrow> user" where
  "new_user email passwordHash displayName =
     \<lparr>u_id = uuid_Nil, u_email = email, u_password_hash = passwordHash, u_display_name = displayName,
      u_tier = TierFree, u_status = StatusActive, u_email_verified = False, u_created_at = zero_time,
      u_updated_at = zero_time, u_deleted_at = None\<rparr>"

definition signups_enabled :: "auth_service \<Rightarrow> bool app" where
  "signups_enabled s = (case as_settings s of
     None \<Rightarrow> retM True
   | Some svc \<Rightarrow> GetBoolOrDefault (Some svc) SettingKeySignupsEnabled)"

definition send_welcome :: "auth_service \<Rightarrow> user \<Rightarrow> string app" where
  "send_welcome s u = (case as_notifications s of
     None \<Rightarrow> retM ''''
   | Some delivers \<Rightarrow>
       bindM (createEmailVerification s u) (\<lambda>token.
       thenM (emit (SendWelcomeEmail (u_email u) (u_display_name u)))
       (thenM (emit (SendEmailVerification (u_id u) (u_email u) (u_display_name u) token))
       (retM (if delivers then '''' else token)))))"

definition create_account :: "auth_service \<Rightarrow> string \<Rightarrow> string \<Rightarrow> string \<Rightarrow> user app" where
  "create_account s email password displayName =
     bindM (wrapM ''hash password'' (hashPassword (as_IDKey s) password)) (\<lambda>passwordHash.
     bindM (wrapM ''create user'' (Users_Create (new_user email passwordHash displayName))) (\<lambda>u.
     thenM (wrapM ''create quota limits'' (Quota_UpsertLimits ((TierLimits (u_tier u))\<lparr>l_user_id := u_id u\<rparr>)))
     (thenM (wrapM ''create usage tracking'' (Quota_CreateUsage (u_id u)))
     (retM u))))"

definition Register :: "auth_service \<Rightarrow> register_input \<Rightarrow> register_result app" where
  "Register s input =
     bindM (signups_enabled s) (\<lambda>enabled.
     if \<not> enabled then errM (Sentinel ErrSignupsDisabled) else
     bindM (normalizeEmail (as_ParseAddress s) (ri_Email input)) (\<lambda>email.
     thenM (validatePassword (ri_Password input))
     (bindM (wrapM ''check email'' (Users_GetByEmail email)) (\<lambda>existing.
      if existing \<noteq> None then errM (Sentinel ErrEmailTaken) else
      bindM (create_account s email (ri_Password input) (TrimSpace (ri_DisplayName input))) (\<lambda>u.
      bindM (open_session s u) (\<lambda>(access, refresh).
      bindM (send_welcome s u) (\<lambda>verification.
      retM (session_result u access refresh verification))))))))"

definition challenge_result :: "user \<Rightarrow> string \<Rightarrow> int \<Rightarrow> register_result" where
  "challenge_result u challenge expiresIn =
     \<lparr>rg_User = u, rg_AccessToken = '''', rg_RefreshToken = '''', rg_ExpiresIn = expiresIn,
      rg_EmailVerificationToken = '''', rg_RequiresTwoFactor = True, rg_Challenge = challenge\<rparr>"

text \<open>After the password: a challenge when two-factor authentication is on, or a session.\<close>

definition second_step :: "auth_service \<Rightarrow> user \<Rightarrow> register_result app" where
  "second_step s u =
     bindM (wrapM ''get two factor'' (TwoFactor_Get (u_id u))) (\<lambda>twoFactor.
     if (case twoFactor of None \<Rightarrow> False | Some tf \<Rightarrow> tf_enabled tf)
     then bindM (wrapM ''issue two factor challenge'' (IssueLoginChallengeToken (as_tm s) (u_id u)))
            (\<lambda>(challenge, expiresIn). retM (challenge_result u challenge expiresIn))
     else issueTokens s u)"

definition Login :: "auth_service \<Rightarrow> string \<Rightarrow> string \<Rightarrow> register_result app" where
  "Login s rawEmail password =
     bindM (tryM (normalizeEmail (as_ParseAddress s) rawEmail)) (\<lambda>r. case r of
       Inl e \<Rightarrow> errM (Sentinel ErrInvalidCredentials)
     | Inr email \<Rightarrow>
         if TrimSpace password = '''' then errM (Sentinel ErrInvalidCredentials) else
         bindM (wrapM ''get user'' (Users_GetByEmail email)) (\<lambda>found. case found of
           None \<Rightarrow> errM (Sentinel ErrInvalidCredentials)
         | Some u \<Rightarrow>
             if u_status u \<noteq> StatusActive then errM (Sentinel ErrInvalidCredentials) else
             bindM (check_password s password (u_password_hash u)) (\<lambda>ok.
             if \<not> ok then errM (Sentinel ErrInvalidCredentials) else second_step s u)))"

section \<open>E-mail verification and password reset\<close>

definition StartEmailVerification :: "auth_service \<Rightarrow> string \<Rightarrow> string app" where
  "StartEmailVerification s rawEmail =
     bindM (tryM (normalizeEmail (as_ParseAddress s) rawEmail)) (\<lambda>r. case r of
       Inl e \<Rightarrow> retM ''''
     | Inr email \<Rightarrow>
         bindM (wrapM ''get user'' (Users_GetByEmail email)) (\<lambda>found. case found of
           None \<Rightarrow> retM ''''
         | Some u \<Rightarrow>
             if u_status u \<noteq> StatusActive \<or> u_email_verified u then retM '''' else
             bindM (createEmailVerification s u) (\<lambda>token. case as_notifications s of
               None \<Rightarrow> retM token
             | Some delivers \<Rightarrow>
                 thenM (emit (SendEmailVerification (u_id u) (u_email u) (u_display_name u) token))
                       (retM (if delivers then '''' else token)))))"

text \<open>A user found by a token must still be there and active.\<close>

definition require_active :: "uuid \<Rightarrow> user app" where
  "require_active userID =
     bindM (wrapM ''get user'' (Users_GetByID userID)) (\<lambda>found. case found of
       None \<Rightarrow> errM (Sentinel ErrUserInactive)
     | Some u \<Rightarrow> if u_status u \<noteq> StatusActive then errM (Sentinel ErrUserInactive) else retM u)"

definition VerifyEmail :: "auth_service \<Rightarrow> string \<Rightarrow> unit app" where
  "VerifyEmail s token =
     (if TrimSpace token = '''' then errM (Sentinel ErrVerifyTokenRequired) else
      bindM (wrapM ''get email verification token user''
               (EmailVerifications_GetUserIDByToken (hashToken s token))) (\<lambda>found. case found of
        None \<Rightarrow> errM (Sentinel ErrEmailVerifyInvalid)
      | Some userID \<Rightarrow>
          bindM (require_active userID) (\<lambda>u.
          thenM (if u_email_verified u then retM () else wrapM ''verify email'' (Users_VerifyEmail (u_id u)))
          (wrapM ''delete email verification tokens'' (EmailVerifications_DeleteByUser (u_id u))))))"

definition StartPasswordReset :: "auth_service \<Rightarrow> string \<Rightarrow> string app" where
  "StartPasswordReset s rawEmail =
     bindM (tryM (normalizeEmail (as_ParseAddress s) rawEmail)) (\<lambda>r. case r of
       Inl e \<Rightarrow> retM ''''
     | Inr email \<Rightarrow>
         bindM (wrapM ''get user'' (Users_GetByEmail email)) (\<lambda>found. case found of
           None \<Rightarrow> retM ''''
         | Some u \<Rightarrow>
             if u_status u \<noteq> StatusActive then retM '''' else
             thenM (wrapM ''delete existing password reset tokens'' (PasswordResets_DeleteByUser (u_id u)))
             (bindM (wrapM ''issue password reset token'' (issueRefreshToken s (u_id u))) (\<lambda>(resetToken, tokenHash).
              bindM time_Now (\<lambda>at.
              thenM (wrapM ''save password reset token'' (PasswordResets_Save (u_id u) tokenHash (at + Hour)))
              (case as_notifications s of
                 None \<Rightarrow> retM resetToken
               | Some delivers \<Rightarrow>
                   thenM (emit (SendPasswordReset (u_id u) (u_email u) (u_display_name u) resetToken))
                         (retM (if delivers then '''' else resetToken))))))))"

text \<open>The writes of \<open>ResetPassword\<close>, in the code's order.\<close>

definition apply_reset :: "uuid \<Rightarrow> bytes \<Rightarrow> string \<Rightarrow> unit app" where
  "apply_reset userID tokenHash passwordHash =
     thenM (wrapM ''update password'' (Users_UpdatePassword userID passwordHash))
     (thenM (wrapM ''mark password reset token used'' (PasswordResets_MarkUsed tokenHash))
     (thenM (wrapM ''delete password reset tokens'' (PasswordResets_DeleteByUser userID))
            (wrapM ''revoke user refresh tokens'' (RefreshTokens_RevokeAllUserTokens userID))))"

definition ResetPassword :: "auth_service \<Rightarrow> string \<Rightarrow> string \<Rightarrow> unit app" where
  "ResetPassword s token newPassword =
     (if token = '''' then errM (Sentinel ErrResetTokenRequired)
      else if newPassword = '''' then errM (Sentinel ErrNewPasswordRequired)
      else
        thenM (validatePassword newPassword)
        (bindM (wrapM ''get password reset token user''
                  (PasswordResets_GetUserIDByToken (hashToken s token))) (\<lambda>found. case found of
           None \<Rightarrow> errM (Sentinel ErrPasswordResetInvalid)
         | Some userID \<Rightarrow>
             bindM (require_active userID) (\<lambda>u.
             bindM (wrapM ''hash password'' (hashPassword (as_IDKey s) newPassword)) (\<lambda>passwordHash.
             apply_reset (u_id u) (hashToken s token) passwordHash)))))"

section \<open>Sessions\<close>

definition RefreshAccessToken :: "auth_service \<Rightarrow> string \<Rightarrow> string app" where
  "RefreshAccessToken s refreshToken =
     (if TrimSpace refreshToken = '''' then errM (Sentinel ErrRefreshTokenRequired) else
      bindM (wrapM ''check token'' (RefreshTokens_IsTokenValid (hashToken s refreshToken))) (\<lambda>valid.
      if \<not> valid then errM (Sentinel ErrPasswordResetInvalid) else
      bindM (wrapM ''get token user'' (RefreshTokens_GetUserIDByTokenHash (hashToken s refreshToken))) (\<lambda>found.
      case found of
        None \<Rightarrow> errM (Sentinel ErrPasswordResetInvalid)
      | Some userID \<Rightarrow>
          bindM (require_active userID) (\<lambda>u.
          wrapM ''issue access token'' (IssueAccessToken (as_tm s) (u_id u) (tier_string (u_tier u)))))))"

definition Logout :: "auth_service \<Rightarrow> string \<Rightarrow> unit app" where
  "Logout s refreshToken =
     (if TrimSpace refreshToken = '''' then errM (Sentinel ErrRefreshTokenRequired)
      else RefreshTokens_Revoke (hashToken s refreshToken))"

definition RevokeDevice :: "uuid \<Rightarrow> uuid \<Rightarrow> unit app" where
  "RevokeDevice userID deviceUUID =
     bindM (wrapM ''get device'' (Devices_GetByUserAndUUID userID deviceUUID)) (\<lambda>found. case found of
       None \<Rightarrow> errM (Sentinel ErrDeviceNotFound)
     | Some dev \<Rightarrow>
         if d_revoked_at dev \<noteq> None then errM (Sentinel ErrDeviceAlreadyRevoked) else
         thenM (wrapM ''revoke device'' (Devices_Revoke userID deviceUUID))
               (wrapM ''record revocation'' (DeviceRevocations_RecordRevocation userID deviceUUID userID)))"

definition ListRevocations :: "uuid \<Rightarrow> device_revocation list app" where
  "ListRevocations userID = wrapM ''list revocations'' (DeviceRevocations_ListByUser userID)"

section \<open>What a call does to the tables\<close>

text \<open>\<open>session_row s u refresh at d d'\<close>: one refresh token of \<open>u\<close> was added, valid for 30 days from \<open>at\<close> on.\<close>

definition session_row :: "auth_service \<Rightarrow> user \<Rightarrow> string \<Rightarrow> time \<Rightarrow> db \<Rightarrow> db \<Rightarrow> bool" where
  "session_row s u refresh at d d' \<longleftrightarrow>
     (\<exists>row. rt_user_id row = u_id u \<and> rt_token_hash row = hashToken s refresh \<and> rt_revoked_at row = None \<and>
        at + refreshTokenTTL \<le> rt_expires_at row \<and>
        (\<forall>r \<in> set (refresh_tokens d). rt_token_hash r \<noteq> hashToken s refresh) \<and>
        d' = d\<lparr>uuid_ctr := Suc (uuid_ctr d), refresh_tokens := refresh_tokens d @ [row]\<rparr>)"

lemma session_row_later: "session_row s u refresh t d d' \<Longrightarrow> at \<le> t \<Longrightarrow> session_row s u refresh at d d'"
  unfolding session_row_def by (elim exE, rule exI) auto

lemma rand_Read_db: "rand_Read n w = (r, w') \<Longrightarrow> db w' = db w \<and> now w' = now w"
  by (auto simp: rand_Read_def split: if_splits)

lemma sign_state: "sign tm c w = (r, w') \<Longrightarrow> w' = w"
  by (auto simp: sign_def split: sum.splits)

lemma keeps_sign [keeps]: "keepsM I (sign tm c)"
  by (rule keepsM_I) (simp add: sign_def split: sum.split)

lemma keeps_check_password [keeps]: "keepsM I (check_password s p e)"
  by (rule keepsM_I) (simp add: check_password_def split: option.split)

text \<open>Calls that write nothing: they keep every property of the database.\<close>

lemma keeps_issue_db [keeps]:
  "keepsM (\<lambda>w. J (db w)) (IssueAccessToken tm uid tier)"
  "keepsM (\<lambda>w. J (db w)) (IssueLoginChallengeToken tm uid)"
  "keepsM (\<lambda>w. J (db w)) (issueRefreshToken s uid)"
  unfolding IssueAccessToken_def IssueLoginChallengeToken_def issueRefreshToken_def uuid_New_def
  by (auto intro!: keeps simp: Let_def)

lemma keeps_issue_later [keeps]:
  "keepsM (\<lambda>w. t \<le> now w) (IssueAccessToken tm uid tier)"
  "keepsM (\<lambda>w. t \<le> now w) (issueRefreshToken s uid)"
  unfolding IssueAccessToken_def issueRefreshToken_def uuid_New_def by (auto intro!: keeps simp: Let_def)

lemma keeps_read_db [keeps]:
  "keepsM (\<lambda>w. J (db w)) (Users_GetByEmail email)" "keepsM (\<lambda>w. J (db w)) (Users_GetByID i)"
  "keepsM (\<lambda>w. J (db w)) (TwoFactor_Get i)" "keepsM (\<lambda>w. J (db w)) (require_active i)"
  "keepsM (\<lambda>w. J (db w)) (RefreshTokens_IsTokenValid hash)"
  "keepsM (\<lambda>w. J (db w)) (RefreshTokens_GetUserIDByTokenHash hash)"
  "keepsM (\<lambda>w. J (db w)) (EmailVerifications_GetUserIDByToken hash)"
  "keepsM (\<lambda>w. J (db w)) (PasswordResets_GetUserIDByToken hash)"
  unfolding Users_GetByEmail_def Users_GetByID_def TwoFactor_Get_def require_active_def
    RefreshTokens_IsTokenValid_def RefreshTokens_GetUserIDByTokenHash_def
    EmailVerifications_GetUserIDByToken_def PasswordResets_GetUserIDByToken_def
  by (intro keeps)+

lemma keeps_RefreshAccessToken_db [keeps]: "keepsM (\<lambda>w. J (db w)) (RefreshAccessToken s tok)"
  unfolding RefreshAccessToken_def by (intro keeps)

lemma keeps_settings_db [keeps]: "keepsM (\<lambda>w. J (db w)) (signups_enabled s)"
  unfolding signups_enabled_def GetBoolOrDefault_def GetBool_def Settings_Get_def SystemSettings_Get_def
  by (intro keeps)

lemma db_kept: "(\<And>J. keepsM (\<lambda>w. J (db w)) m) \<Longrightarrow> m w = (r, w') \<Longrightarrow> db w' = db w"
proof -
  assume m: "\<And>J. keepsM (\<lambda>w. J (db w)) m" and run: "m w = (r, w')"
  show "db w' = db w"
    using keepsM_D [OF m [of "\<lambda>d. d = db w"] _ run] by simp
qed

lemma time_kept: "(\<And>t. keepsM (\<lambda>w. t \<le> now w) m) \<Longrightarrow> m w = (r, w') \<Longrightarrow> now w \<le> now w'"
proof -
  assume m: "\<And>t. keepsM (\<lambda>w. t \<le> now w) m" and run: "m w = (r, w')"
  show "now w \<le> now w'"
    using keepsM_D [OF m [of "now w"] _ run] by simp
qed

lemma Save_ok:
  "RefreshTokens_Save uid hash info expires w = (Inr x, w') \<longleftrightarrow>
     \<not> fault_next w \<and>
     (\<forall>r \<in> set (refresh_tokens (db w)). rt_id r \<noteq> uuids (db w) (uuid_ctr (db w)) \<and> rt_token_hash r \<noteq> hash) \<and>
     user_exists (db w) uid \<and>
     w' = (drop_fault (tick w))\<lparr>db := (db w)\<lparr>uuid_ctr := Suc (uuid_ctr (db w)),
       refresh_tokens := refresh_tokens (db w) @
         [\<lparr>rt_id = uuids (db w) (uuid_ctr (db w)), rt_user_id = uid, rt_token_hash = hash, rt_device_info = info,
           rt_expires_at = expires, rt_revoked_at = None, rt_created_at = now (tick w)\<rparr>]\<rparr>\<rparr>"
  by (auto simp: RefreshTokens_Save_def execM_ok gen_random_uuid_def Let_def split: if_splits)

lemma open_session_ok:
  assumes "open_session s u w = (Inr (access, refresh), w')"
  shows "session_row s u refresh (now w) (db w) (db w') \<and>
    (\<exists>w0 w1. IssueAccessToken (as_tm s) (u_id u) (tier_string (u_tier u)) w0 = (Inr access, w1))"
proof -
  obtain w1 hash w2 where access: "IssueAccessToken (as_tm s) (u_id u) (tier_string (u_tier u)) w = (Inr access, w1)"
    and refresh: "issueRefreshToken s (u_id u) w1 = (Inr (refresh, hash), w2)"
    and save: "RefreshTokens_Save (u_id u) hash '''' (now (tick w2) + refreshTokenTTL) (tick w2) = (Inr (), w')"
    using assms by (auto simp: open_session_def run_ok time_Now_ok)
  have "db w1 = db w" and "db w2 = db w1"
    using db_kept [OF keeps_issue_db(1) access] db_kept [OF keeps_issue_db(3) refresh] by simp_all
  moreover have "now w \<le> now w2"
    using time_kept [OF keeps_issue_later(1) access] time_kept [OF keeps_issue_later(2) refresh] by simp
  moreover have "hash = hashToken s refresh"
    using refresh by (auto simp: issueRefreshToken_def run_ok Let_def)
  ultimately show ?thesis
    using access save tick_mono [of w2] by (auto simp: Save_ok session_row_def intro!: exI)
qed

lemma open_session_error: "open_session s u w = (Inl e, w') \<Longrightarrow> db w' = db w"
proof -
  assume run: "open_session s u w = (Inl e, w')"
  have "hoareM (\<lambda>v. db v = db w) (open_session s u) (\<lambda>_ _. True) (\<lambda>_ v. db v = db w)"
    unfolding open_session_def
    by (rule hoare_bind [OF hoare_of_keeps], (intro keeps), clarsimp simp: case_prod_unfold,
        rule hoare_bind [OF hoare_of_keeps], (intro keeps), clarsimp simp: case_prod_unfold,
        rule hoare_bind [OF hoare_of_keeps], (intro keeps), rule hoare_then)
      (auto simp: hoareM_def wp RefreshTokens_Save_def Let_def gen_random_uuid_def split: sum.split)
  from hoare_error [OF this _ run] show ?thesis
    by simp
qed

section \<open>Login\<close>

lemma Users_GetByEmail_ok:
  "Users_GetByEmail email w = (Inr found, w') \<longleftrightarrow>
     \<not> fault_next w \<and> w' = drop_fault (tick w) \<and>
     found = find (\<lambda>u. email_key u = normalizeEmailForStorage email \<and> live_user u) (users (db w))"
  by (auto simp: Users_GetByEmail_def queryM_ok)

lemma TwoFactor_Get_ok:
  "TwoFactor_Get uid w = (Inr found, w') \<longleftrightarrow>
     \<not> fault_next w \<and> w' = drop_fault (tick w) \<and> found = tf_row (db w) uid"
  by (auto simp: TwoFactor_Get_def queryM_ok)

lemma check_password_ok:
  "check_password s p enc w = (Inr ok, w') \<longleftrightarrow> verifyPassword (as_IDKey s) p enc = Some ok \<and> w' = w"
  by (auto simp: check_password_def split: option.splits)

definition two_factor_on :: "db \<Rightarrow> uuid \<Rightarrow> bool" where
  "two_factor_on d uid \<longleftrightarrow> (case tf_row d uid of None \<Rightarrow> False | Some tf \<Rightarrow> tf_enabled tf)"

text \<open>The account a login names, and the password it accepts.\<close>

definition account_of :: "db \<Rightarrow> string \<Rightarrow> user option" where
  "account_of d rawEmail = find (\<lambda>u. email_key u = normalizeEmailForStorage (ToLower (TrimSpace rawEmail)) \<and> live_user u) (users d)"

definition credentials_match :: "auth_service \<Rightarrow> db \<Rightarrow> string \<Rightarrow> string \<Rightarrow> user \<Rightarrow> bool" where
  "credentials_match s d rawEmail password u \<longleftrightarrow>
     account_of d rawEmail = Some u \<and> u_status u = StatusActive \<and>
     verifyPassword (as_IDKey s) password (u_password_hash u) = Some True"

lemma second_step_ok:
  assumes "second_step s u w = (Inr r, w')"
  shows "rg_User r = u \<and>
    (if two_factor_on (db w) (u_id u)
     then rg_RequiresTwoFactor r \<and> rg_AccessToken r = '''' \<and> rg_RefreshToken r = '''' \<and> db w' = db w
     else \<not> rg_RequiresTwoFactor r \<and> session_row s u (rg_RefreshToken r) (now w) (db w) (db w'))"
proof -
  obtain tf w1 where tf: "TwoFactor_Get (u_id u) w = (Inr tf, w1)"
    and rest: "(if (case tf of None \<Rightarrow> False | Some tf \<Rightarrow> tf_enabled tf)
       then bindM (wrapM ''issue two factor challenge'' (IssueLoginChallengeToken (as_tm s) (u_id u)))
              (\<lambda>(challenge, expiresIn). retM (challenge_result u challenge expiresIn))
       else issueTokens s u) w1 = (Inr r, w')"
    using assms unfolding second_step_def bindM_Inr_iff wrapM_Inr_iff by blast
  have on: "two_factor_on (db w) (u_id u) \<longleftrightarrow> (case tf of None \<Rightarrow> False | Some tf \<Rightarrow> tf_enabled tf)"
    and w1: "w1 = drop_fault (tick w)"
    using tf by (simp_all add: TwoFactor_Get_ok two_factor_on_def)
  have later: "now w \<le> now w1"
    using w1 tick_mono by simp
  show ?thesis
  proof (cases "two_factor_on (db w) (u_id u)")
    case True
    with rest on obtain c n where "IssueLoginChallengeToken (as_tm s) (u_id u) w1 = (Inr (c, n), w')"
      and "r = challenge_result u c n"
      by (auto simp: run_ok)
    with True w1 show ?thesis
      using db_kept [OF keeps_issue_db(2)] by (simp add: challenge_result_def)
  next
    case False
    with rest on obtain a f where "open_session s u w1 = (Inr (a, f), w')" and "r = session_result u a f ''''"
      by (auto simp: run_ok issueTokens_def)
    with False w1 later show ?thesis
      using open_session_ok [of s u w1 a f w'] by (auto simp: session_result_def session_row_def intro: order_trans)
  qed
qed

lemma second_step_error: "second_step s u w = (Inl e, w') \<Longrightarrow> db w' = db w"
proof -
  assume run: "second_step s u w = (Inl e, w')"
  have "hoareM (\<lambda>v. db v = db w) (issueTokens s u) (\<lambda>_ _. True) (\<lambda>_ v. db v = db w)"
    unfolding issueTokens_def
    by (rule hoare_bind [of _ _ "\<lambda>_ _. True"])
      (auto simp: hoareM_def wpM_def split: prod.split sum.split dest: open_session_error)
  then have "hoareM (\<lambda>v. db v = db w) (second_step s u) (\<lambda>_ _. True) (\<lambda>_ v. db v = db w)"
    unfolding second_step_def
    by (intro hoare_bind [OF hoare_of_keeps] hoare_if keeps) (auto simp: hoareM_def wpM_def
        intro!: keeps split: prod.split sum.split dest: db_kept [OF keeps_issue_db(2)])
  from hoare_error [OF this _ run] show ?thesis
    by simp
qed

lemma Login_ok:
  assumes "Login s rawEmail password w = (Inr r, w')"
  shows "\<exists>u v. credentials_match s (db w) rawEmail password u \<and> db v = db w \<and> now w \<le> now v \<and>
    second_step s u v = (Inr r, w')"
proof -
  obtain u where u: "account_of (db w) rawEmail = Some u" "u_status u = StatusActive"
      "verifyPassword (as_IDKey s) password (u_password_hash u) = Some True"
      "second_step s u (drop_fault (tick w)) = (Inr r, w')"
    using assms unfolding Login_def catch_Inr_iff
    by (auto simp: normalizeEmail_ok run_ok Users_GetByEmail_ok check_password_ok
        account_of_def split: if_splits option.splits)
  then show ?thesis
    using tick_mono by (intro exI [of _ u] exI [of _ "drop_fault (tick w)"]) (simp add: credentials_match_def)
qed

lemma Login_error: "Login s rawEmail password w = (Inl e, w') \<Longrightarrow> db w' = db w"
proof -
  assume run: "Login s rawEmail password w = (Inl e, w')"
  have step: "hoareM (\<lambda>v. db v = db w) (second_step s u) (\<lambda>_ _. True) (\<lambda>_ v. db v = db w)" for u
    by (auto simp: hoareM_def wpM_def split: prod.split sum.split dest: second_step_error)
  have "hoareM (\<lambda>v. db v = db w) (Login s rawEmail password) (\<lambda>_ _. True) (\<lambda>_ v. db v = db w)"
    unfolding Login_def
    by (rule hoare_bind [OF hoare_of_keeps], (intro keeps), simp split: sum.split, intro conjI impI allI,
        rule hoare_err, simp, rule hoare_err, simp, rule hoare_bind [OF hoare_of_keeps], (intro keeps),
        simp split: option.split, intro conjI impI allI, rule hoare_err, simp, rule hoare_err, simp,
        rule hoare_bind [OF hoare_of_keeps], (intro keeps), rule hoare_if, rule hoare_err, simp, rule step)
  from hoare_error [OF this _ run] show ?thesis
    by simp
qed

text \<open>
  C30. A login succeeds only for a live, active account whose e-mail address is the
  normalised input and whose stored hash accepts the password. With two-factor
  authentication on, the answer is a challenge without any access or refresh token and
  nothing is written; otherwise one session row is added, for that user and with the
  digest of the returned refresh token, valid for 30 days and new among the stored
  digests, and no other table changes. A login that fails writes nothing.
\<close>

theorem login_outcome:
  "case Login s rawEmail password w of
     (Inl e, w') \<Rightarrow> db w' = db w
   | (Inr r, w') \<Rightarrow>
       credentials_match s (db w) rawEmail password (rg_User r) \<and>
       (if two_factor_on (db w) (u_id (rg_User r))
        then rg_RequiresTwoFactor r \<and> rg_AccessToken r = '''' \<and> rg_RefreshToken r = '''' \<and> db w' = db w
        else \<not> rg_RequiresTwoFactor r \<and>
          session_row s (rg_User r) (rg_RefreshToken r) (now w) (db w) (db w'))"
proof (cases "Login s rawEmail password w")
  case (Pair res w')
  show ?thesis
  proof (cases res)
    case (Inl e)
    with Pair show ?thesis
      using Login_error [of s rawEmail password w e w'] by simp
  next
    case (Inr r)
    with Pair obtain u v where u: "credentials_match s (db w) rawEmail password u" "db v = db w" "now w \<le> now v"
      and step: "second_step s u v = (Inr r, w')"
      using Login_ok [of s rawEmail password w r w'] by auto
    show ?thesis
      using second_step_ok [OF step] u Pair Inr by (auto intro: session_row_later)
  qed
qed

section \<open>Sessions that have ended\<close>

text \<open>A refresh token is dead when its row is there and revoked; digests are unique, so no new row can revive it.\<close>

definition dead_token :: "bytes \<Rightarrow> db \<Rightarrow> bool" where
  "dead_token hash d \<longleftrightarrow> hash \<in> rt_token_hash ` set (refresh_tokens d) \<and>
     (\<forall>r \<in> set (refresh_tokens d). rt_token_hash r = hash \<longrightarrow> rt_revoked_at r \<noteq> None)"

lemma dead_frame: "refresh_tokens d' = refresh_tokens d \<Longrightarrow> dead_token hash d \<Longrightarrow> dead_token hash d'"
  by (simp add: dead_token_def)

lemma dead_revoke:
  "dead_token hash d \<Longrightarrow> dead_token hash
     (d\<lparr>refresh_tokens := update_where P (\<lambda>r. r\<lparr>rt_revoked_at := Some at\<rparr>) (refresh_tokens d)\<rparr>)"
proof -
  let ?rows' = "update_where P (\<lambda>r. r\<lparr>rt_revoked_at := Some at\<rparr>) (refresh_tokens d)"
  assume dead: "dead_token hash d"
  have "map rt_token_hash ?rows' = map rt_token_hash (refresh_tokens d)"
    by (rule map_update_where) simp
  then have "rt_token_hash ` set ?rows' = rt_token_hash ` set (refresh_tokens d)"
    by (metis set_map)
  moreover have "rt_revoked_at r \<noteq> None" if "r \<in> set ?rows'" "rt_token_hash r = hash" for r
    using that dead by (auto simp: dead_token_def elim!: in_update_whereE)
  ultimately show ?thesis
    using dead unfolding dead_token_def by simp
qed

lemma keeps_dead_frame:
  assumes "\<And>t d x d'. f t d = Inr (x, d') \<Longrightarrow> refresh_tokens d' = refresh_tokens d"
  shows "keepsM (\<lambda>w. dead_token hash (db w)) (execM f)"
  by (rule keeps_exec_db) (use assms dead_frame in blast)

lemma keeps_dead_tokens [keeps]:
  "keepsM (\<lambda>w. dead_token hash (db w)) (RefreshTokens_Save uid h info expires)"
  "keepsM (\<lambda>w. dead_token hash (db w)) (RefreshTokens_Revoke h)"
  "keepsM (\<lambda>w. dead_token hash (db w)) (RefreshTokens_RevokeAllUserTokens uid)"
proof -
  show "keepsM (\<lambda>w. dead_token hash (db w)) (RefreshTokens_Save uid h info expires)"
    unfolding RefreshTokens_Save_def
    by (rule keeps_exec_db) (fastforce simp: gen_random_uuid_def Let_def dead_token_def split: if_splits)
  show "keepsM (\<lambda>w. dead_token hash (db w)) (RefreshTokens_Revoke h)"
    unfolding RefreshTokens_Revoke_def by (intro keeps keeps_exec_db) (auto intro: dead_revoke)
  show "keepsM (\<lambda>w. dead_token hash (db w)) (RefreshTokens_RevokeAllUserTokens uid)"
    unfolding RefreshTokens_RevokeAllUserTokens_def by (intro keeps keeps_exec_db) (auto intro: dead_revoke)
qed

lemma keeps_dead_others [keeps]:
  "keepsM (\<lambda>w. dead_token hash (db w)) (Users_Create u)"
  "keepsM (\<lambda>w. dead_token hash (db w)) (Users_UpdatePassword i p)"
  "keepsM (\<lambda>w. dead_token hash (db w)) (Users_VerifyEmail i)"
  "keepsM (\<lambda>w. dead_token hash (db w)) (Quota_UpsertLimits l)"
  "keepsM (\<lambda>w. dead_token hash (db w)) (Quota_CreateUsage i)"
  "keepsM (\<lambda>w. dead_token hash (db w)) (EmailVerifications_Save i h at)"
  "keepsM (\<lambda>w. dead_token hash (db w)) (EmailVerifications_DeleteByUser i)"
  "keepsM (\<lambda>w. dead_token hash (db w)) (PasswordResets_Save i h at)"
  "keepsM (\<lambda>w. dead_token hash (db w)) (PasswordResets_MarkUsed h)"
  "keepsM (\<lambda>w. dead_token hash (db w)) (PasswordResets_DeleteByUser i)"
  "keepsM (\<lambda>w. dead_token hash (db w)) (Devices_Revoke i dev)"
  "keepsM (\<lambda>w. dead_token hash (db w)) (DeviceRevocations_RecordRevocation i dev i')"
  unfolding Users_Create_def Users_UpdatePassword_def Users_VerifyEmail_def Quota_UpsertLimits_def
    Quota_CreateUsage_def EmailVerifications_Save_def EmailVerifications_DeleteByUser_def
    PasswordResets_Save_def PasswordResets_MarkUsed_def PasswordResets_DeleteByUser_def
    Devices_Revoke_def DeviceRevocations_RecordRevocation_def Let_def
  by (intro keeps keeps_dead_frame;
      auto simp: update_users_def gen_random_uuid_def stmt_ensure_usage_def Let_def split: if_splits)+

lemma keeps_dead_sessions [keeps]:
  "keepsM (\<lambda>w. dead_token hash (db w)) (open_session s u)"
  "keepsM (\<lambda>w. dead_token hash (db w)) (createEmailVerification s u)"
  unfolding open_session_def createEmailVerification_def by (intro keeps)+

lemma keeps_Users_GetByEmail_dead: "keepsM (\<lambda>w. dead_token hash (db w)) (Users_GetByEmail email)"
  by (rule keeps_read_db)

text \<open>The requests the service answers, and what each does to the world.\<close>

inductive auth_step :: "auth_service \<Rightarrow> world \<Rightarrow> world \<Rightarrow> bool" for s where
  step_register: "auth_step s w (snd (Register s input w))"
| step_login: "auth_step s w (snd (Login s email password w))"
| step_start_verification: "auth_step s w (snd (StartEmailVerification s email w))"
| step_verify: "auth_step s w (snd (VerifyEmail s token w))"
| step_start_reset: "auth_step s w (snd (StartPasswordReset s email w))"
| step_reset: "auth_step s w (snd (ResetPassword s token password w))"
| step_refresh: "auth_step s w (snd (RefreshAccessToken s token w))"
| step_logout: "auth_step s w (snd (Logout s token w))"
| step_revoke_device: "auth_step s w (snd (RevokeDevice uid dev w))"

lemma keeps_dead_operations:
  "keepsM (\<lambda>w. dead_token hash (db w)) (Register s input)"
  "keepsM (\<lambda>w. dead_token hash (db w)) (Login s email password)"
  "keepsM (\<lambda>w. dead_token hash (db w)) (StartEmailVerification s email)"
  "keepsM (\<lambda>w. dead_token hash (db w)) (VerifyEmail s token)"
  "keepsM (\<lambda>w. dead_token hash (db w)) (StartPasswordReset s email)"
  "keepsM (\<lambda>w. dead_token hash (db w)) (ResetPassword s token password)"
  "keepsM (\<lambda>w. dead_token hash (db w)) (RefreshAccessToken s token)"
  "keepsM (\<lambda>w. dead_token hash (db w)) (Logout s token)"
  "keepsM (\<lambda>w. dead_token hash (db w)) (RevokeDevice uid dev)"
  unfolding Register_def Login_def StartEmailVerification_def VerifyEmail_def StartPasswordReset_def
    ResetPassword_def Logout_def RevokeDevice_def second_step_def issueTokens_def create_account_def
    send_welcome_def apply_reset_def Devices_GetByUserAndUUID_def
  by (intro keeps)+

lemma dead_token_step: "auth_step s w w' \<Longrightarrow> dead_token hash (db w) \<Longrightarrow> dead_token hash (db w')"
  by (induction rule: auth_step.induct) (auto intro: keeps_dead_operations [THEN keepsM_snd])

lemma dead_token_reach: "(auth_step s)\<^sup>*\<^sup>* w w' \<Longrightarrow> dead_token hash (db w) \<Longrightarrow> dead_token hash (db w')"
  by (induction rule: rtranclp_induct) (auto intro: dead_token_step)

lemma IsTokenValid_ok:
  "RefreshTokens_IsTokenValid hash w = (Inr valid, w') \<longleftrightarrow> \<not> fault_next w \<and> w' = drop_fault (tick w) \<and>
     valid = (\<exists>r \<in> set (refresh_tokens (db w)). refresh_live (now (tick w)) hash r)"
  by (auto simp: RefreshTokens_IsTokenValid_def queryM_ok)

lemma dead_token_refused: "dead_token (hashToken s tok) (db w) \<Longrightarrow> \<not> succeeds (RefreshAccessToken s tok w)"
  unfolding not_succeeds
  by (auto simp: RefreshAccessToken_def run_ok IsTokenValid_ok dead_token_def refresh_live_def split: if_splits)

lemma Logout_ok:
  assumes "Logout s tok w = (Inr x, w')" and "hashToken s tok \<in> rt_token_hash ` set (refresh_tokens (db w))"
  shows "dead_token (hashToken s tok) (db w')"
proof -
  let ?hash = "hashToken s tok"
  obtain at where rows: "refresh_tokens (db w') =
      update_where (\<lambda>r. rt_token_hash r = ?hash \<and> rt_revoked_at r = None)
        (\<lambda>r. r\<lparr>rt_revoked_at := Some at\<rparr>) (refresh_tokens (db w))"
    using assms(1) by (auto simp: Logout_def RefreshTokens_Revoke_def run_ok execM_ok time_Now_ok split: if_splits)
  have "map rt_token_hash (refresh_tokens (db w')) = map rt_token_hash (refresh_tokens (db w))"
    unfolding rows by (rule map_update_where) simp
  then have "rt_token_hash ` set (refresh_tokens (db w')) = rt_token_hash ` set (refresh_tokens (db w))"
    by (metis set_map)
  moreover have "rt_revoked_at r \<noteq> None" if "r \<in> set (refresh_tokens (db w'))" "rt_token_hash r = ?hash" for r
    using that unfolding rows by (auto elim!: in_update_whereE split: if_splits)
  ultimately show ?thesis
    using assms(2) by (simp add: dead_token_def)
qed

text \<open>
  C31. A refresh token that was issued and is logged out stays useless: after any sequence
  of requests to the service (registrations, logins, verifications, resets, refreshes,
  logouts, device revocations, successful or not, with any faults and clocks), a refresh
  with it fails.
\<close>

theorem logged_out_token_stays_dead:
  assumes "hashToken s tok \<in> rt_token_hash ` set (refresh_tokens (db w))"
    and "Logout s tok w = (Inr x, w1)" and "(auth_step s)\<^sup>*\<^sup>* w1 w2"
  shows "\<not> succeeds (RefreshAccessToken s tok w2)"
  using Logout_ok [OF assms(2,1)] dead_token_reach [OF assms(3)] dead_token_refused by blast

section \<open>Password reset\<close>

lemma require_active_ok:
  "require_active uid w = (Inr u, w') \<Longrightarrow>
     db w' = db w \<and> now w \<le> now w' \<and> u \<in> set (users (db w)) \<and> u_id u = uid \<and> live_user u \<and> u_status u = StatusActive"
  using tick_mono [of w]
  by (auto simp: require_active_def Users_GetByID_def run_ok queryM_ok split: option.splits if_splits
      dest!: find_Some_in sym [of "Some _" "find _ _"])

lemma apply_reset_ok:
  "apply_reset uid hash passwordHash w = (Inr x, w') \<Longrightarrow> \<exists>t1 t2 t3. db w' =
     (update_users (\<lambda>u. u_id u = uid \<and> live_user u) (\<lambda>u. u\<lparr>u_password_hash := passwordHash\<rparr>) t1 (db w))
       \<lparr>password_resets := delete_where (\<lambda>r. pr_user_id r = uid)
          (update_where (\<lambda>r. pr_token_hash r = hash \<and> pr_used_at r = None) (\<lambda>r. r\<lparr>pr_used_at := Some t2\<rparr>)
             (password_resets (db w))),
        refresh_tokens := update_where (\<lambda>r. rt_user_id r = uid \<and> rt_revoked_at r = None)
          (\<lambda>r. r\<lparr>rt_revoked_at := Some t3\<rparr>) (refresh_tokens (db w))\<rparr>"
  unfolding apply_reset_def Users_UpdatePassword_def PasswordResets_MarkUsed_def PasswordResets_DeleteByUser_def
    RefreshTokens_RevokeAllUserTokens_def
  by (auto simp: run_ok execM_ok time_Now_ok update_users_def)

lemma ResetPassword_ok:
  assumes "ResetPassword s token newPassword w = (Inr x, w')"
  shows "\<exists>u r salt v. r \<in> set (password_resets (db w)) \<and> reset_live (now w) (hashToken s token) r \<and>
    pr_user_id r = u_id u \<and> u \<in> set (users (db w)) \<and> live_user u \<and> u_status u = StatusActive \<and>
    10 \<le> length newPassword \<and> db v = db w \<and>
    apply_reset (u_id u) (hashToken s token)
      (encode_phc salt (as_IDKey s newPassword salt 3 65536 4 32)) v = (Inr x, w')"
proof -
  let ?hash = "hashToken s token"
  obtain uid w1 u w2 enc w3 where len: "10 \<le> length newPassword"
    and lookup: "PasswordResets_GetUserIDByToken ?hash w = (Inr (Some uid), w1)"
    and active: "require_active uid w1 = (Inr u, w2)"
    and hash: "hashPassword (as_IDKey s) newPassword w2 = (Inr enc, w3)"
    and writes: "apply_reset (u_id u) ?hash enc w3 = (Inr x, w')"
    using assms by (auto simp: ResetPassword_def validatePassword_def run_ok split: if_splits option.splits)
  obtain r where r: "r \<in> set (password_resets (db w))" "reset_live (now (tick w)) ?hash r" "pr_user_id r = uid"
    and w1: "db w1 = db w"
    using lookup by (auto simp: PasswordResets_GetUserIDByToken_def queryM_ok split: list.splits dest!: head_of_sorted)
  have "reset_live (now w) ?hash r"
    using r(2) tick_mono [of w] by (auto simp: reset_live_def)
  moreover have "db w3 = db w2"
    using db_kept [OF keeps_hashPassword hash] keeps_rand_db by blast
  ultimately show ?thesis
    using r len w1 require_active_ok [OF active] hashPassword_ok [OF hash] writes
    by (intro exI [of _ u] exI [of _ r]) auto
qed

lemma reset_needs_row:
  "succeeds (ResetPassword s token p v) \<Longrightarrow>
     \<exists>q \<in> set (password_resets (db v)). pr_token_hash q = hashToken s token"
  by (cases "ResetPassword s token p v")
    (auto simp: succeeds_def reset_live_def split: sum.splits dest!: ResetPassword_ok)

lemma reset_token_spent:
  assumes "reset_tokens_wf d" and "r \<in> set (password_resets d)" and "pr_token_hash r = hash"
    and "pr_user_id r = uid"
    and "password_resets d' = delete_where (\<lambda>r. pr_user_id r = uid)
          (update_where (\<lambda>r. pr_token_hash r = hash \<and> pr_used_at r = None) (\<lambda>r. r\<lparr>pr_used_at := Some t\<rparr>)
             (password_resets d))"
  shows "\<forall>q \<in> set (password_resets d'). pr_token_hash q \<noteq> hash"
proof (intro ballI notI)
  fix q
  assume "q \<in> set (password_resets d')" and hash: "pr_token_hash q = hash"
  then have q: "q \<in> set (update_where (\<lambda>r. pr_token_hash r = hash \<and> pr_used_at r = None)
      (\<lambda>r. r\<lparr>pr_used_at := Some t\<rparr>) (password_resets d))" and other: "pr_user_id q \<noteq> uid"
    unfolding assms(5) by simp_all
  from q obtain q0 where q0: "q0 \<in> set (password_resets d)"
    and "q = (if pr_token_hash q0 = hash \<and> pr_used_at q0 = None then q0\<lparr>pr_used_at := Some t\<rparr> else q0)"
    by (rule in_update_whereE)
  then have same: "pr_user_id q = pr_user_id q0" "pr_token_hash q = pr_token_hash q0"
    by simp_all
  have "q0 = r"
    using assms(1) q0 assms(2) same(2) hash assms(3) unfolding reset_tokens_wf_def distinct_map
    by (auto dest: inj_onD)
  with same(1) other assms(4) show False
    by simp
qed


section \<open>Registration\<close>

lemma is_space_lower [simp]: "is_space (lower_char c) = is_space c"
  by (cases c) (auto simp: is_space_def lower_char_code)

lemma TrimSpace_ToLower: "TrimSpace (ToLower s) = ToLower (TrimSpace s)"
  by (simp add: TrimSpace_def ToLower_def dropWhile_map rev_map comp_def)

lemma dropWhile_weaker: "dropWhile P s = s \<Longrightarrow> (\<And>c. Q c \<Longrightarrow> P c) \<Longrightarrow> dropWhile Q s = s"
  unfolding dropWhile_fix by blast

lemma sql_trim_trimmed: "TrimSpace s = s \<Longrightarrow> sql_trim s = s"
proof -
  assume trimmed: "TrimSpace s = s"
  have "s = [] \<or> \<not> is_space (hd s) \<and> \<not> is_space (last s)"
    using TrimSpace_hd [of s] TrimSpace_last [of s] trimmed by auto
  then have "dropWhile is_space s = s \<and> dropWhile is_space (rev s) = rev s"
    by (auto simp: dropWhile_fix hd_rev)
  then have "dropWhile (\<lambda>c. c = CHR 0x20) s = s" and "dropWhile (\<lambda>c. c = CHR 0x20) (rev s) = rev s"
    using dropWhile_weaker [of is_space _ "\<lambda>c. c = CHR 0x20"] by (auto simp: is_space_def)
  then show ?thesis
    by (simp add: sql_trim_def)
qed

lemma normalized_key:
  assumes "e = ToLower (TrimSpace raw)"
  shows "normalizeEmailForStorage e = e" and "u_email u = e \<Longrightarrow> email_key u = e"
  using assms by (simp_all add: normalizeEmailForStorage_def TrimSpace_ToLower email_key_def sql_trim_trimmed)

text \<open>What \<open>create_account\<close> leaves in the tables of users, limits and usage.\<close>

definition account_rows :: "user \<Rightarrow> user list \<Rightarrow> db \<Rightarrow> bool" where
  "account_rows u before d \<longleftrightarrow> users d = before @ [u] \<and>
     (\<exists>l \<in> set (quota_limits_tbl d). l_user_id l = u_id u \<and>
        l\<lparr>l_override_reason := None, l_expires_at := None\<rparr> = (TierLimits TierFree)\<lparr>l_user_id := u_id u\<rparr>) \<and>
     usage_row d (u_id u) \<noteq> None"

lemma UpsertLimits_ok:
  "Quota_UpsertLimits l w = (Inr x, w') \<Longrightarrow>
     users (db w') = users (db w) \<and>
     (\<exists>r \<in> set (quota_limits_tbl (db w')). l_user_id r = l_user_id l \<and>
        r\<lparr>l_override_reason := None, l_expires_at := None\<rparr> = l\<lparr>l_override_reason := None, l_expires_at := None\<rparr>)"
proof -
  assume run: "Quota_UpsertLimits l w = (Inr x, w')"
  show ?thesis
  proof (cases "\<exists>r \<in> set (quota_limits_tbl (db w)). l_user_id r = l_user_id l")
    case True
    then obtain r where "r \<in> set (quota_limits_tbl (db w))" "l_user_id r = l_user_id l" ..
    with True run show ?thesis
      by (auto simp: Quota_UpsertLimits_def execM_ok
          intro!: bexI [of _ "l\<lparr>l_override_reason := l_override_reason r, l_expires_at := l_expires_at r\<rparr>"])
  next
    case False
    with run show ?thesis
      by (auto simp: Quota_UpsertLimits_def execM_ok split: if_splits)
  qed
qed

lemma CreateUsage_ok:
  "Quota_CreateUsage uid w = (Inr x, w') \<Longrightarrow>
     users (db w') = users (db w) \<and> quota_limits_tbl (db w') = quota_limits_tbl (db w) \<and> usage_row (db w') uid \<noteq> None"
  by (auto simp: Quota_CreateUsage_def execM_ok stmt_ensure_usage_def usage_row_def find_None_iff' empty_usage_def
      split: if_splits)

lemma create_account_ok:
  assumes "create_account s email password name w = (Inr u, w')" and "users_wf (db w)"
    and "\<And>pw salt t m p n. length (as_IDKey s pw salt t m p n) = n"
  shows "account_rows u (users (db w)) (db w') \<and> users_wf (db w') \<and>
    u_email u = normalizeEmailForStorage email \<and> u_tier u = TierFree \<and> u_status u = StatusActive \<and> live_user u \<and>
    verifyPassword (as_IDKey s) password (u_password_hash u) = Some True"
proof -
  obtain enc w1 w2 w3 where hash: "hashPassword (as_IDKey s) password w = (Inr enc, w1)"
    and create: "Users_Create (new_user email enc name) w1 = (Inr u, w2)"
    and limits: "Quota_UpsertLimits ((TierLimits (u_tier u))\<lparr>l_user_id := u_id u\<rparr>) w2 = (Inr (), w3)"
    and usage: "Quota_CreateUsage (u_id u) w3 = (Inr (), w')"
    using assms(1) by (auto simp: create_account_def run_ok)
  have w1: "db w1 = db w"
    using db_kept [OF keeps_hashPassword hash] keeps_rand_db by blast
  have u: "u_tier u = TierFree" "u_status u = StatusActive" "u_password_hash u = enc" "u_deleted_at u = None"
    using create by (auto simp: Users_Create_def new_user_def execM_ok gen_random_uuid_def Let_def split: if_splits)
  have "u\<lparr>u_deleted_at := None\<rparr> = u"
    using u(4) by simp
  then have users: "users (db w2) = users (db w) @ [u]" "users_wf (db w2)" "u_email u = normalizeEmailForStorage email"
    using Users_Create_wf [of w1, OF _ create] assms(2) w1 by (simp_all add: new_user_def)
  have rows: "account_rows u (users (db w)) (db w')"
    using UpsertLimits_ok [OF limits] CreateUsage_ok [OF usage] users(1) u(1) by (auto simp: account_rows_def)
  moreover have "users_wf (db w')"
    using users(2) UpsertLimits_ok [OF limits] CreateUsage_ok [OF usage] by (simp add: users_wf_def)
  moreover have "verifyPassword (as_IDKey s) password enc = Some True"
    using hashPassword_ok [OF hash] assms(3) by (auto simp: verify_encode_phc)
  ultimately show ?thesis
    using u users(3) by (simp add: live_user_def)
qed

lemma keeps_welcome:
  "keepsM (\<lambda>w. K (users (db w)) (quota_limits_tbl (db w)) (storage_usage (db w)) (refresh_tokens (db w))) (send_welcome s u)"
  unfolding send_welcome_def createEmailVerification_def EmailVerifications_DeleteByUser_def EmailVerifications_Save_def
  by (intro keeps keeps_exec_db) (auto simp: gen_random_uuid_def Let_def split: if_splits)

lemma signups_enabled_db: "signups_enabled s w = (r, w') \<Longrightarrow> db w' = db w \<and> now w \<le> now w'"
proof -
  assume run: "signups_enabled s w = (r, w')"
  have later: "keepsM (\<lambda>w. t \<le> now w) (signups_enabled s)" for t
    unfolding signups_enabled_def GetBoolOrDefault_def GetBool_def Settings_Get_def SystemSettings_Get_def
    by (intro keeps)
  show ?thesis
    using db_kept [OF keeps_settings_db run] time_kept [OF later run] by simp
qed

lemma keeps_create_account_later: "keepsM (\<lambda>w. t \<le> now w) (create_account s email password name)"
  unfolding create_account_def hashPassword_def Users_Create_def Quota_UpsertLimits_def Quota_CreateUsage_def Let_def
  by (intro keeps)

lemma send_welcome_token:
  "send_welcome s u w = (Inr token, w') \<Longrightarrow> as_notifications s = Some True \<Longrightarrow> token = ''''"
  by (auto simp: send_welcome_def run_ok)

lemma Register_ok:
  assumes "Register s input w = (Inr r, w')"
  obtains email u access refresh verification v v1 v2 where
    "email = ToLower (TrimSpace (ri_Email input))" and "10 \<le> length (ri_Password input)"
    and "db v = db w" and "now w \<le> now v"
    and "create_account s email (ri_Password input) (TrimSpace (ri_DisplayName input)) v = (Inr u, v1)"
    and "open_session s u v1 = (Inr (access, refresh), v2)"
    and "send_welcome s u v2 = (Inr verification, w')"
    and "r = session_result u access refresh verification"
proof -
  obtain enabled w1 where enabled: "signups_enabled s w = (Inr enabled, w1)"
    and rest: "(if \<not> enabled then errM (Sentinel ErrSignupsDisabled) else
     bindM (normalizeEmail (as_ParseAddress s) (ri_Email input)) (\<lambda>email.
     thenM (validatePassword (ri_Password input))
     (bindM (wrapM ''check email'' (Users_GetByEmail email)) (\<lambda>existing.
      if existing \<noteq> None then errM (Sentinel ErrEmailTaken) else
      bindM (create_account s email (ri_Password input) (TrimSpace (ri_DisplayName input))) (\<lambda>u.
      bindM (open_session s u) (\<lambda>(access, refresh).
      bindM (send_welcome s u) (\<lambda>verification.
      retM (session_result u access refresh verification)))))))) w1 = (Inr r, w')"
    using assms unfolding Register_def bindM_Inr_iff by blast
  from rest obtain u v1 access refresh v2 verification where "10 \<le> length (ri_Password input)"
    and run: "create_account s (ToLower (TrimSpace (ri_Email input))) (ri_Password input)
        (TrimSpace (ri_DisplayName input)) (drop_fault (tick w1)) = (Inr u, v1)"
      "open_session s u v1 = (Inr (access, refresh), v2)" "send_welcome s u v2 = (Inr verification, w')"
      "r = session_result u access refresh verification"
    by (auto simp: run_ok normalizeEmail_ok validatePassword_def Users_GetByEmail_ok split: if_splits)
  then show ?thesis
    using that [OF refl _ _ _ run] signups_enabled_db [OF enabled] tick_mono [of w1] by simp
qed

text \<open>
  C33. A registration that succeeds stored exactly one new user, active, of the free tier,
  under the normalised address, which no other account, deleted or not, has; the user has
  the limits of the free tier, a usage row, and one open session whose refresh token is
  the one returned. The address and the password that registered pass the checks a login
  makes. With e-mail delivery on, the verification token is not in the answer. (Argon2id
  returns as many bytes as it is asked for; ids and addresses of users are unique, which
  the schema enforces and the registration keeps.)
\<close>

theorem registration_opens_account:
  assumes "Register s input w = (Inr r, w')" and "users_wf (db w)"
    and "\<And>pw salt t m p n. length (as_IDKey s pw salt t m p n) = n"
  shows "account_rows (rg_User r) (users (db w)) (db w') \<and> users_wf (db w') \<and>
    u_email (rg_User r) = ToLower (TrimSpace (ri_Email input)) \<and> u_tier (rg_User r) = TierFree \<and>
    10 \<le> length (ri_Password input) \<and>
    (\<exists>q \<in> set (refresh_tokens (db w')). rt_user_id q = u_id (rg_User r) \<and> rt_revoked_at q = None \<and>
       rt_token_hash q = hashToken s (rg_RefreshToken r) \<and> now w + refreshTokenTTL \<le> rt_expires_at q) \<and>
    credentials_match s (db w') (ri_Email input) (ri_Password input) (rg_User r) \<and>
    (as_notifications s = Some True \<longrightarrow> rg_EmailVerificationToken r = '''')"
proof -
  obtain email u access refresh verification v v1 v2 where email: "email = ToLower (TrimSpace (ri_Email input))"
    and len: "10 \<le> length (ri_Password input)" and v: "db v = db w" "now w \<le> now v"
    and create: "create_account s email (ri_Password input) (TrimSpace (ri_DisplayName input)) v = (Inr u, v1)"
    and session: "open_session s u v1 = (Inr (access, refresh), v2)"
    and sent: "send_welcome s u v2 = (Inr verification, w')"
    and r: "r = session_result u access refresh verification"
    using Register_ok [OF assms(1)] by metis
  note created = create_account_ok [OF create _ assms(3), unfolded v, OF assms(2)]
  have "now v \<le> now v1"
    using time_kept [OF keeps_create_account_later create] .
  with v(2) have opened: "session_row s u refresh (now w) (db v1) (db v2)"
    using open_session_ok [OF session] by (auto intro: session_row_later)
  have same: "users (db w') = users (db v2) \<and> quota_limits_tbl (db w') = quota_limits_tbl (db v2) \<and>
      storage_usage (db w') = storage_usage (db v2) \<and> refresh_tokens (db w') = refresh_tokens (db v2)"
    using keepsM_D [OF keeps_welcome [where K = "\<lambda>a b c d. a = users (db v2) \<and> b = quota_limits_tbl (db v2) \<and>
      c = storage_usage (db v2) \<and> d = refresh_tokens (db v2)"] _ sent] by simp
  have key: "normalizeEmailForStorage email = email" "u_email u = email" "email_key u = email"
    using normalized_key(1) [OF email] normalized_key(2) [OF email, of u] created by simp_all
  have rows: "account_rows u (users (db w)) (db w') \<and> users_wf (db w')"
    using created opened same by (auto simp: account_rows_def users_wf_def session_row_def usage_row_def)
  then have "users (db w') = users (db w) @ [u]" and "distinct (map email_key (users (db w')))"
    unfolding account_rows_def users_wf_def by blast+
  then have "account_of (db w') (ri_Email input) = Some u"
    using key created unfolding account_of_def email [symmetric]
    by (intro find_unique_key [where k = email_key]) auto
  then have "credentials_match s (db w') (ri_Email input) (ri_Password input) u"
    using created by (simp add: credentials_match_def)
  moreover have "\<exists>q \<in> set (refresh_tokens (db w')). rt_user_id q = u_id u \<and> rt_revoked_at q = None \<and>
       rt_token_hash q = hashToken s refresh \<and> now w + refreshTokenTTL \<le> rt_expires_at q"
    using opened same by (auto simp: session_row_def)
  ultimately show ?thesis
    using rows key created len send_welcome_token [OF sent] by (simp add: r session_result_def email)
qed

text \<open>
  A password of ten blanks is long enough to register with, but a login refuses every
  blank password: such an account cannot log in.
\<close>

lemma blank_password_never_logs_in:
  "TrimSpace password = '''' \<Longrightarrow> \<not> succeeds (Login s email password w)"
  unfolding not_succeeds Login_def catch_Inr_iff by (auto simp: normalizeEmail_ok)

lemma blank_password_registers: "validatePassword (replicate 10 (CHR '' '')) w = (Inr (), w)"
  by (simp add: validatePassword_def)

section \<open>Witnesses\<close>

definition sample_auth :: auth_service where
  "sample_auth =
     \<lparr>as_tm = \<lparr>tm_SignedString = (\<lambda>c. Inr ''t''), tm_Parse = (\<lambda>opts t tok. Inl (TokenUnusable '''')),
        tm_uuid_of = (\<lambda>_. ''j''), tm_uuid_Parse = Some, tm_Sum256 = (\<lambda>bs. ''#'' @ bs), tm_accessTTL = 15 * Minute\<rparr>,
      as_IDKey = sample_IDKey, as_ParseAddress = Some, as_settings = Some sample_settings,
      as_notifications = Some True\<rparr>"

definition sample_registration :: register_input where
  "sample_registration = \<lparr>ri_Email = '' New@X.io '', ri_Password = ''correct horse'', ri_DisplayName = ''N''\<rparr>"

definition session_world :: world where
  "session_world = world_of (sample_db\<lparr>
     refresh_tokens := [\<lparr>rt_id = ''r1'', rt_user_id = ''u1'', rt_token_hash = ''#s'', rt_device_info = '''',
       rt_expires_at = 900, rt_revoked_at = None, rt_created_at = 0\<rparr>],
     password_resets := [\<lparr>pr_id = ''p1'', pr_user_id = ''u1'', pr_token_hash = ''#z'', pr_expires_at = 900,
       pr_used_at = None, pr_created_at = 0\<rparr>]\<rparr>) []"

lemma sample_length: "\<And>pw salt t m p n. length (as_IDKey sample_auth pw salt t m p n) = n"
  by (simp add: sample_auth_def)

lemma registration_opens_account_witness:
  "\<exists>r w'. Register sample_auth sample_registration sample_world = (Inr r, w') \<and>
     credentials_match sample_auth (db w') (ri_Email sample_registration) ''correct horse'' (rg_User r)"
proof -
  have "succeeds (Register sample_auth sample_registration sample_world)"
    by code_simp
  then obtain r w' where run: "Register sample_auth sample_registration sample_world = (Inr r, w')"
    using succeeds_ex by blast
  have "users_wf (db sample_world)"
    by code_simp
  from registration_opens_account [OF run this sample_length] run show ?thesis
    by (auto simp: sample_registration_def)
qed

lemma logged_out_token_stays_dead_witness:
  "\<not> succeeds (RefreshAccessToken sample_auth ''s'' (snd (Logout sample_auth ''s'' session_world)))"
proof -
  have "hashToken sample_auth ''s'' \<in> rt_token_hash ` set (refresh_tokens (db session_world))"
    by code_simp
  moreover have "succeeds (Logout sample_auth ''s'' session_world)"
    by code_simp
  then obtain x w1 where "Logout sample_auth ''s'' session_world = (Inr x, w1)"
    using succeeds_ex by blast
  ultimately show ?thesis
    using logged_out_token_stays_dead [OF _ _ rtranclp.rtrancl_refl] by simp
qed


end
