(* ===== verification/TwoFactor.thy ===== *)
theory TwoFactor
  imports AuthService
begin

text \<open>
  TwoFactorService (pkg/service/two_factor.go): set-up of TOTP, verification of TOTP and
  backup codes with the lockout after five failures, step-up tokens and the second step of
  a login. The AEAD cipher, TOTP and HMAC-SHA-256 are parameters, fields of the service.
\<close>

section \<open>The service\<close>

definition twoFactorBackupCount :: nat where "twoFactorBackupCount = 10"
definition twoFactorBackupLength :: nat where "twoFactorBackupLength = 8"
definition twoFactorMaxFailures :: int where "twoFactorMaxFailures = 5"
definition twoFactorLockDuration :: duration where "twoFactorLockDuration = 15 * Minute"

text \<open>
  \<open>tw_aead\<close> is absent when the security secret is unusable, \<open>tw_initErr\<close> then says why. An
  AEAD has a nonce size, \<open>Seal\<close> and \<open>Open\<close>; \<open>tw_Generate\<close> gives the secret and the URL of a
  new TOTP key for an account name, \<open>tw_Validate\<close> decides a passcode for a secret at an
  instant.
\<close>

record aead =
  ae_NonceSize :: nat
  ae_Seal :: "bytes \<Rightarrow> bytes \<Rightarrow> bytes"
  ae_Open :: "bytes \<Rightarrow> bytes \<Rightarrow> bytes option"

record two_factor_service =
  tw_tm :: token_manager
  tw_aead :: "aead option"
  tw_initErr :: "goerr option"
  tw_HMAC :: "bytes \<Rightarrow> bytes"
  tw_Generate :: "string \<Rightarrow> bytes \<Rightarrow> goerr + string \<times> string"
  tw_Validate :: "string \<Rightarrow> string \<Rightarrow> time \<Rightarrow> bool"

record two_factor_status =
  ts_Enabled :: bool
  ts_Locked :: bool
  ts_LockedUntil :: "time option"
  ts_BackupCodesRemaining :: int
  ts_LastUsedAt :: "time option"
  ts_EnabledAt :: "time option"

record two_factor_setup =
  su_Secret :: string
  su_OTPAuthURL :: string
  su_BackupCodes :: "string list"

definition ready :: "two_factor_service \<Rightarrow> aead app" where
  "ready s = (case tw_initErr s of
     Some e \<Rightarrow> errM (Wrap ''two factor crypto'' e)
   | None \<Rightarrow> (case tw_aead s of
        None \<Rightarrow> errM (ErrMsg ''two factor crypto is not configured'')
      | Some a \<Rightarrow> retM a))"

text \<open>\<open>activeLock\<close>: a nil or past lock is no lock.\<close>

definition activeLock :: "two_factor \<Rightarrow> time option app" where
  "activeLock tf = (case tf_locked_until tf of
     None \<Rightarrow> retM None
   | Some until \<Rightarrow> bindM time_Now (\<lambda>t. retM (if t < until then Some until else None)))"

section \<open>Backup codes\<close>

definition alphabet :: string where
  "alphabet = ''ABCDEFGHJKLMNPQRSTUVWXYZ23456789''"

definition randomBackupCode :: "string app" where
  "randomBackupCode = bindM (wrapM ''generate backup code'' (rand_Read twoFactorBackupLength)) (\<lambda>random.
     retM (map (\<lambda>b. alphabet ! (of_char b mod length alphabet)) random))"

definition formatBackupCode :: "string \<Rightarrow> string" where
  "formatBackupCode code = take 4 code @ ''-'' @ drop 4 code"

definition generateBackupCodes :: "string list app" where
  "generateBackupCodes = forM [0..<twoFactorBackupCount] [] (\<lambda>i codes.
     bindM randomBackupCode (\<lambda>code. retM (codes @ [formatBackupCode code])))"

definition code_char :: "char \<Rightarrow> bool" where
  "code_char c \<longleftrightarrow> 65 \<le> (of_char c :: nat) \<and> (of_char c :: nat) \<le> 90 \<or>
     48 \<le> (of_char c :: nat) \<and> (of_char c :: nat) \<le> 57"

definition normalizeBackupCode :: "string \<Rightarrow> string option" where
  "normalizeBackupCode code =
     (let clean = filter (\<lambda>c. c \<noteq> CHR ''-'' \<and> c \<noteq> CHR '' '') (ToUpper (TrimSpace code)) in
      if length clean \<noteq> twoFactorBackupLength then None
      else if \<exists>c \<in> set clean. \<not> code_char c then None
      else Some clean)"

definition hashBackupCode :: "two_factor_service \<Rightarrow> string \<Rightarrow> string" where
  "hashBackupCode s normalized = ''hmac-sha256:'' @
     EncodeToString url_alphabet (tw_HMAC s (''hsync:2fa:backup-code:v1:'' @ normalized))"

definition hashBackupCodes :: "two_factor_service \<Rightarrow> string list \<Rightarrow> string list" where
  "hashBackupCodes s codes = map (\<lambda>code. hashBackupCode s
     (case normalizeBackupCode code of None \<Rightarrow> '''' | Some n \<Rightarrow> n)) codes"

definition backupCodeHashMatches :: "two_factor_service \<Rightarrow> string \<Rightarrow> string \<Rightarrow> bool" where
  "backupCodeHashMatches s normalized storedHash \<longleftrightarrow> hashBackupCode s normalized = storedHash"

section \<open>Secrets\<close>

definition encrypt :: "aead \<Rightarrow> string \<Rightarrow> bytes app" where
  "encrypt a plaintext = bindM (wrapM ''generate nonce'' (rand_Read (ae_NonceSize a))) (\<lambda>nonce.
     retM (nonce @ ae_Seal a nonce plaintext))"

definition decrypt :: "two_factor_service \<Rightarrow> bytes \<Rightarrow> string app" where
  "decrypt s ciphertext = bindM (ready s) (\<lambda>a.
     if length ciphertext \<le> ae_NonceSize a then errM (ErrMsg ''two factor secret ciphertext is invalid'')
     else (case ae_Open a (take (ae_NonceSize a) ciphertext) (drop (ae_NonceSize a) ciphertext) of
             None \<Rightarrow> errM (Wrap ''decrypt two factor secret'' (DriverErr ''cipher: message authentication failed''))
           | Some plaintext \<Rightarrow> retM plaintext))"

definition validateTOTP :: "two_factor_service \<Rightarrow> string \<Rightarrow> string \<Rightarrow> bool app" where
  "validateTOTP s secret code =
     (let clean = filter (\<lambda>c. c \<noteq> CHR '' '') (TrimSpace code) in
      if length clean \<noteq> 6 then retM False
      else if \<exists>c \<in> set clean. \<not> is_digit c then retM False
      else bindM time_Now (\<lambda>t. retM (tw_Validate s secret clean t)))"

section \<open>Verification\<close>

definition recordInvalid :: "uuid \<Rightarrow> unit app" where
  "recordInvalid userID =
     bindM time_Now (\<lambda>at.
     bindM (TwoFactor_RecordFailure userID twoFactorMaxFailures (at + twoFactorLockDuration)) (\<lambda>(attempts, lockedUntil).
     case lockedUntil of
       None \<Rightarrow> errM (Sentinel ErrTwoFactorInvalidCode)
     | Some until \<Rightarrow> bindM time_Now (\<lambda>t.
         if t < until then errM (Sentinel ErrTwoFactorLocked) else errM (Sentinel ErrTwoFactorInvalidCode))))"

text \<open>\<open>RecordSuccess(ctx, userID, time.Now())\<close>\<close>

definition record_success :: "uuid \<Rightarrow> unit app" where
  "record_success userID = bindM time_Now (\<lambda>at. TwoFactor_RecordSuccess userID at)"

text \<open>The first stored code that matches is used up; whether it was still unused decides.\<close>

definition consumeBackupCode :: "two_factor_service \<Rightarrow> uuid \<Rightarrow> string \<Rightarrow> bool app" where
  "consumeBackupCode s userID code = (case normalizeBackupCode code of
     None \<Rightarrow> retM False
   | Some normalized \<Rightarrow>
       bindM (TwoFactor_ListUnusedBackupCodes userID) (\<lambda>codes.
       case find (\<lambda>stored. backupCodeHashMatches s normalized (bc_code_hash stored)) codes of
         None \<Rightarrow> retM False
       | Some stored \<Rightarrow> bindM time_Now (\<lambda>at. TwoFactor_MarkBackupCodeUsed (bc_id stored) at)))"

definition verifyTOTPOnly :: "two_factor_service \<Rightarrow> two_factor \<Rightarrow> string \<Rightarrow> unit app" where
  "verifyTOTPOnly s tf code = bindM (activeLock tf) (\<lambda>locked.
     if locked \<noteq> None then errM (Sentinel ErrTwoFactorLocked) else
     bindM (decrypt s (tf_secret_encrypted tf)) (\<lambda>secret.
     bindM (validateTOTP s secret code) (\<lambda>ok.
     if \<not> ok then recordInvalid (tf_user_id tf) else record_success (tf_user_id tf))))"

definition verifyCode :: "two_factor_service \<Rightarrow> two_factor \<Rightarrow> string \<Rightarrow> unit app" where
  "verifyCode s tf code = bindM (activeLock tf) (\<lambda>locked.
     if locked \<noteq> None then errM (Sentinel ErrTwoFactorLocked) else
     bindM (decrypt s (tf_secret_encrypted tf)) (\<lambda>secret.
     bindM (validateTOTP s secret code) (\<lambda>ok.
     if ok then record_success (tf_user_id tf) else
     bindM (consumeBackupCode s (tf_user_id tf) code) (\<lambda>used.
     if used then record_success (tf_user_id tf) else recordInvalid (tf_user_id tf)))))"

definition getConfigured :: "two_factor_service \<Rightarrow> uuid \<Rightarrow> two_factor app" where
  "getConfigured s userID = bindM (ready s) (\<lambda>a.
     bindM (wrapM ''get two factor'' (TwoFactor_Get userID)) (\<lambda>tf.
     case tf of None \<Rightarrow> errM (Sentinel ErrTwoFactorNotEnabled) | Some r \<Rightarrow> retM r))"

definition getEnabled :: "two_factor_service \<Rightarrow> uuid \<Rightarrow> two_factor app" where
  "getEnabled s userID = bindM (getConfigured s userID) (\<lambda>tf.
     if \<not> tf_enabled tf then errM (Sentinel ErrTwoFactorNotEnabled) else retM tf)"

section \<open>Operations\<close>

definition no_status :: two_factor_status where
  "no_status = \<lparr>ts_Enabled = False, ts_Locked = False, ts_LockedUntil = None, ts_BackupCodesRemaining = 0,
     ts_LastUsedAt = None, ts_EnabledAt = None\<rparr>"

definition TwoFactor_Status :: "uuid \<Rightarrow> two_factor_status app" where
  "TwoFactor_Status userID = bindM (wrapM ''get two factor'' (TwoFactor_Get userID)) (\<lambda>found. case found of
     None \<Rightarrow> retM no_status
   | Some tf \<Rightarrow>
       bindM (activeLock tf) (\<lambda>lock.
       bindM (if tf_enabled tf then TwoFactor_CountUnusedBackupCodes userID else retM 0) (\<lambda>n.
       retM \<lparr>ts_Enabled = tf_enabled tf, ts_Locked = (lock \<noteq> None), ts_LockedUntil = lock,
             ts_BackupCodesRemaining = n, ts_LastUsedAt = tf_last_used_at tf, ts_EnabledAt = tf_enabled_at tf\<rparr>)))"

text \<open>\<open>totp.Generate\<close> draws twenty random bytes.\<close>

definition generate_key :: "two_factor_service \<Rightarrow> string \<Rightarrow> (string \<times> string) app" where
  "generate_key s email = bindM (rand_Read 20) (\<lambda>bs.
     case tw_Generate s email bs of Inl e \<Rightarrow> errM e | Inr key \<Rightarrow> retM key)"

definition TwoFactor_Setup :: "two_factor_service \<Rightarrow> uuid \<Rightarrow> two_factor_setup app" where
  "TwoFactor_Setup s userID = bindM (ready s) (\<lambda>a.
     bindM (wrapM ''get user'' (Users_GetByID userID)) (\<lambda>found. case found of
       None \<Rightarrow> errM (Sentinel ErrUserNotFound)
     | Some u \<Rightarrow>
         if u_status u \<noteq> StatusActive then errM (Sentinel ErrUserNotFound) else
         bindM (wrapM ''get two factor'' (TwoFactor_Get userID)) (\<lambda>existing.
         if (case existing of None \<Rightarrow> False | Some tf \<Rightarrow> tf_enabled tf) then errM (Sentinel ErrTwoFactorEnabled) else
         bindM (wrapM ''generate totp secret'' (generate_key s (u_email u))) (\<lambda>(secret, url).
         bindM (encrypt a secret) (\<lambda>encrypted.
         bindM generateBackupCodes (\<lambda>backupCodes.
         thenM (TwoFactor_UpsertSetup userID encrypted)
         (thenM (TwoFactor_ReplaceBackupCodes userID (hashBackupCodes s backupCodes))
         (retM \<lparr>su_Secret = secret, su_OTPAuthURL = url, su_BackupCodes = backupCodes\<rparr>))))))))"

definition TwoFactorService_Enable :: "two_factor_service \<Rightarrow> uuid \<Rightarrow> string \<Rightarrow> unit app" where
  "TwoFactorService_Enable s userID code = bindM (getConfigured s userID) (\<lambda>tf.
     if tf_enabled tf then errM (Sentinel ErrTwoFactorEnabled) else
     thenM (verifyTOTPOnly s tf code)
     (bindM time_Now (\<lambda>at. TwoFactor_Enable userID at)))"

definition TwoFactorService_Disable :: "two_factor_service \<Rightarrow> uuid \<Rightarrow> string \<Rightarrow> unit app" where
  "TwoFactorService_Disable s userID code = bindM (getEnabled s userID) (\<lambda>tf.
     thenM (verifyCode s tf code) (TwoFactor_DeleteByUser userID))"

definition RegenerateBackupCodes :: "two_factor_service \<Rightarrow> uuid \<Rightarrow> string \<Rightarrow> string list app" where
  "RegenerateBackupCodes s userID code = bindM (getEnabled s userID) (\<lambda>tf.
     thenM (verifyCode s tf code)
     (bindM generateBackupCodes (\<lambda>backupCodes.
      thenM (TwoFactor_ReplaceBackupCodes userID (hashBackupCodes s backupCodes)) (retM backupCodes))))"

text \<open>The service's own \<open>issueTokens\<close>, over the token manager's \<open>IssueRefreshToken\<close>.\<close>

definition TwoFactor_issueTokens :: "two_factor_service \<Rightarrow> user \<Rightarrow> register_result app" where
  "TwoFactor_issueTokens s u =
     bindM (wrapM ''issue access token'' (IssueAccessToken (tw_tm s) (u_id u) (tier_string (u_tier u)))) (\<lambda>access.
     bindM (wrapM ''issue refresh token'' (IssueRefreshToken (tw_tm s) (u_id u))) (\<lambda>(refresh, tokenHash).
     bindM time_Now (\<lambda>at.
     thenM (wrapM ''save refresh token'' (RefreshTokens_Save (u_id u) tokenHash '''' (at + refreshTokenTTL)))
           (retM (session_result u access refresh '''')))))"

definition TwoFactor_Login :: "two_factor_service \<Rightarrow> string \<Rightarrow> string \<Rightarrow> register_result app" where
  "TwoFactor_Login s challenge code =
     (if TrimSpace challenge = '''' then errM (Sentinel ErrTwoFactorChallenge) else
      bindM (tryM (ValidateLoginChallengeToken (tw_tm s) challenge)) (\<lambda>r. case r of
        Inl e \<Rightarrow> errM (Sentinel ErrTwoFactorChallenge)
      | Inr userID \<Rightarrow>
          bindM (wrapM ''get user'' (Users_GetByID userID)) (\<lambda>found. case found of
            None \<Rightarrow> errM (Sentinel ErrTwoFactorChallenge)
          | Some u \<Rightarrow>
              if u_status u \<noteq> StatusActive then errM (Sentinel ErrTwoFactorChallenge) else
              bindM (tryM (getEnabled s userID)) (\<lambda>r. case r of
                Inl e \<Rightarrow> if errIs e ErrTwoFactorNotEnabled then errM (Sentinel ErrTwoFactorChallenge) else errM e
              | Inr tf \<Rightarrow> thenM (verifyCode s tf code) (TwoFactor_issueTokens s u)))))"

definition VerifyStepUp :: "two_factor_service \<Rightarrow> uuid \<Rightarrow> string \<Rightarrow> string \<Rightarrow> (string \<times> int \<times> string) app" where
  "VerifyStepUp s userID method0 code =
     (let method1 = ToLower (TrimSpace method0) in
      if method1 \<noteq> StepUpMethodTOTP then errM (Sentinel ErrTwoFactorInvalidCode) else
      bindM (getEnabled s userID) (\<lambda>tf.
      thenM (verifyTOTPOnly s tf code)
      (bindM (IssueStepUpToken (tw_tm s) userID method1) (\<lambda>(token, expiresIn).
       retM (token, expiresIn, method1)))))"

section \<open>The lockout\<close>

text \<open>
  An invariant that reads the two-factor rows and the clock, and that no passing of time
  breaks, is kept by every statement that leaves these rows alone.
\<close>

definition lock_inv :: "(world \<Rightarrow> bool) \<Rightarrow> bool" where
  "lock_inv K \<longleftrightarrow> (\<forall>w w'. K w \<longrightarrow> user_two_factor (db w') = user_two_factor (db w) \<longrightarrow> now w \<le> now w' \<longrightarrow> K w')"

lemma lock_invD: "lock_inv K \<Longrightarrow> K w \<Longrightarrow> user_two_factor (db w') = user_two_factor (db w) \<Longrightarrow> now w \<le> now w' \<Longrightarrow> K w'"
  unfolding lock_inv_def by blast

lemma lock_keeps_exec:
  assumes "lock_inv K" and "\<And>t d x d'. f t d = Inr (x, d') \<Longrightarrow> user_two_factor d' = user_two_factor d"
  shows "keepsM K (execM f)"
proof (rule keepsM_I)
  fix w
  assume "K w"
  then show "K (snd (execM f w))"
    by (rule lock_invD [OF assms(1)])
      (auto simp: execM_def Let_def tick_mono split: sum.split dest: assms(2))
qed

lemma lock_keeps:
  assumes "lock_inv K"
  shows "keepsM K (queryM f)" and "keepsM K time_Now" and "keepsM K (rand_Read n)"
proof -
  show "keepsM K (queryM f)"
    unfolding queryM_def by (rule lock_keeps_exec [OF assms]) simp
  show "keepsM K time_Now"
    by (rule keepsM_I) (auto simp: time_Now_def Let_def tick_mono intro: lock_invD [OF assms])
  show "keepsM K (rand_Read n)"
    by (rule keepsM_I) (auto simp: rand_Read_def intro: lock_invD [OF assms])
qed

lemma keeps_ready [keeps]: "keepsM I (ready s)"
  by (rule keepsM_I) (simp add: ready_def split: option.split)

lemma keeps_decrypt [keeps]: "keepsM I (decrypt s c)"
  unfolding decrypt_def by (intro keeps)

lemma lock_keeps_calls:
  assumes "lock_inv K"
  shows "keepsM K (activeLock tf)" and "keepsM K (validateTOTP s secret code)"
    and "keepsM K (consumeBackupCode s uid code)" and "keepsM K (TwoFactor_Get uid)"
    and "keepsM K (getConfigured s uid)" and "keepsM K (getEnabled s uid)"
    and "keepsM K generateBackupCodes" and "keepsM K (Users_GetByID uid)"
    and "keepsM K (ValidateLoginChallengeToken tm tok)" and "keepsM K (IssueStepUpToken tm uid m)"
    and "keepsM K (TwoFactor_issueTokens s u)"
proof -
  note base = keeps lock_keeps [OF assms] lock_keeps_exec [OF assms]
  show "keepsM K (activeLock tf)" "keepsM K (validateTOTP s secret code)" "keepsM K (TwoFactor_Get uid)"
    "keepsM K generateBackupCodes" "keepsM K (Users_GetByID uid)"
    "keepsM K (ValidateLoginChallengeToken tm tok)" "keepsM K (IssueStepUpToken tm uid m)"
    unfolding activeLock_def validateTOTP_def TwoFactor_Get_def generateBackupCodes_def randomBackupCode_def
      Users_GetByID_def ValidateLoginChallengeToken_def IssueStepUpToken_def uuid_New_def Let_def
    by (intro base; auto intro!: base split: sum.split jwt_failure.split)+
  show "keepsM K (consumeBackupCode s uid code)"
    unfolding consumeBackupCode_def TwoFactor_ListUnusedBackupCodes_def TwoFactor_MarkBackupCodeUsed_def Let_def
    by (intro base) auto
  show "keepsM K (getConfigured s uid)" "keepsM K (getEnabled s uid)"
    unfolding getEnabled_def getConfigured_def TwoFactor_Get_def by (intro base)+
  show "keepsM K (TwoFactor_issueTokens s u)"
    unfolding TwoFactor_issueTokens_def IssueAccessToken_def IssueRefreshToken_def uuid_New_def
      RefreshTokens_Save_def Let_def
    by (intro base) (auto simp: gen_random_uuid_def split: if_splits)
qed

text \<open>
  The counter of \<open>uid\<close> in the fifteen minutes from \<open>t0\<close> on, when it stood at \<open>f0\<close>: it has
  reached at most \<open>max f0 4\<close>, or one more and the account is locked to the end of them.
\<close>

definition counter_ok :: "time \<Rightarrow> int \<Rightarrow> two_factor \<Rightarrow> bool" where
  "counter_ok t0 f0 r \<longleftrightarrow> tf_failed_attempts r \<le> max f0 4 \<or>
     tf_failed_attempts r \<le> max (f0 + 1) 5 \<and>
     (case tf_locked_until r of None \<Rightarrow> False | Some until \<Rightarrow> t0 + twoFactorLockDuration \<le> until)"

definition window_inv :: "uuid \<Rightarrow> time \<Rightarrow> int \<Rightarrow> world \<Rightarrow> bool" where
  "window_inv uid t0 f0 w \<longleftrightarrow> t0 + twoFactorLockDuration \<le> now w \<or>
     t0 \<le> now w \<and> (\<forall>r. tf_row (db w) uid = Some r \<longrightarrow> counter_ok t0 f0 r)"

definition not_locked :: "two_factor \<Rightarrow> time \<Rightarrow> bool" where
  "not_locked tf t \<longleftrightarrow> (case tf_locked_until tf of None \<Rightarrow> True | Some until \<Rightarrow> until \<le> t)"

lemma lock_inv_window: "lock_inv (window_inv uid t0 f0)"
  unfolding lock_inv_def window_inv_def tf_row_def by fastforce

lemma lock_inv_row: "lock_inv (\<lambda>w. window_inv uid t0 f0 w \<and> tf_row (db w) uid' = Some tf)"
  using lock_inv_window unfolding lock_inv_def tf_row_def by metis

lemma not_locked_mono: "not_locked tf t \<Longrightarrow> t \<le> t' \<Longrightarrow> not_locked tf t'"
  by (auto simp: not_locked_def split: option.splits)

definition open_row :: "uuid \<Rightarrow> time \<Rightarrow> int \<Rightarrow> uuid \<Rightarrow> two_factor \<Rightarrow> world \<Rightarrow> bool" where
  "open_row uid t0 f0 uid' tf w \<longleftrightarrow> window_inv uid t0 f0 w \<and> tf_row (db w) uid' = Some tf \<and> not_locked tf (now w)"

lemma lock_inv_open: "lock_inv (open_row uid t0 f0 uid' tf)"
  using lock_inv_row [of uid t0 f0 uid' tf] not_locked_mono unfolding lock_inv_def open_row_def by metis

lemma tf_row_update:
  "tf_row (update_two_factor uid' f t d) uid =
     (if uid = uid' then map_option (\<lambda>r. (f r)\<lparr>tf_updated_at := t\<rparr>) (tf_row d uid) else tf_row d uid)"
  if "\<And>r. tf_user_id (f r) = tf_user_id r"
  using that unfolding tf_row_def update_two_factor_def
  by (simp add: find_update_key [of tf_user_id])

lemma counter_ok_updated [simp]: "counter_ok t0 f0 (r\<lparr>tf_updated_at := t\<rparr>) = counter_ok t0 f0 r"
  by (simp add: counter_ok_def)

text \<open>One more failure of an account that is not locked keeps the counter within its bound.\<close>

lemma count_failure_ok:
  assumes "counter_ok t0 f0 tf" and "not_locked tf t" and "t < t0 + twoFactorLockDuration"
    and "t0 + twoFactorLockDuration \<le> until"
  shows "counter_ok t0 f0 (count_failure twoFactorMaxFailures until tf)"
proof -
  have "tf_failed_attempts tf \<le> max f0 4"
    using assms(1-3) by (auto simp: counter_ok_def not_locked_def split: option.splits)
  then show ?thesis
    using assms(4) by (auto simp: counter_ok_def count_failure_def twoFactorMaxFailures_def)
qed

lemma hoare_weak: "hoareM P m (\<lambda>_. K) (\<lambda>_. K) \<Longrightarrow> (\<And>w. K w \<Longrightarrow> J w) \<Longrightarrow> hoareM P m (\<lambda>_. J) (\<lambda>_. J)"
  by (rule hoare_post)

lemma open_row_window: "open_row uid t0 f0 uid' tf w \<Longrightarrow> window_inv uid t0 f0 w"
  by (simp add: open_row_def)

text \<open>Every update of a two-factor row that resets the counter keeps the bound.\<close>

lemma keeps_reset_row:
  assumes "\<And>r. tf_user_id (f r) = tf_user_id r" and "\<And>r. tf_failed_attempts (f r) = 0"
  shows "keepsM (window_inv uid t0 f0) (execM (\<lambda>t d. Inr ((), update_two_factor uid' f t d)))"
proof (rule keepsM_I)
  fix w
  assume inv: "window_inv uid t0 f0 w"
  let ?w = "snd (execM (\<lambda>t d. Inr ((), update_two_factor uid' f t d)) w)"
  show "window_inv uid t0 f0 ?w"
  proof (cases "fault_next w")
    case True
    then show ?thesis
      using inv by (auto simp: execM_def Let_def tick_mono intro: lock_invD [OF lock_inv_window])
  next
    case False
    then have "db ?w = update_two_factor uid' f (now (tick w)) (db w)" "now w \<le> now ?w"
      by (simp_all add: execM_def Let_def tick_mono)
    moreover have "counter_ok t0 f0 (f r)" for r
      by (simp add: counter_ok_def assms(2) le_max_iff_disj)
    ultimately show ?thesis
      using inv assms(1) unfolding window_inv_def by (auto simp: tf_row_update split: if_splits)
  qed
qed

lemma keeps_record_success: "keepsM (window_inv uid t0 f0) (record_success uid')"
  unfolding record_success_def TwoFactor_RecordSuccess_def
  by (intro keeps lock_keeps(2) [OF lock_inv_window] keeps_reset_row) simp_all

lemma keeps_enable_row: "keepsM (window_inv uid t0 f0) (TwoFactor_Enable uid' at)"
  unfolding TwoFactor_Enable_def by (intro keeps keeps_reset_row) simp_all

lemma keeps_delete_row: "keepsM (window_inv uid t0 f0) (TwoFactor_DeleteByUser uid')"
proof -
  have "keepsM (window_inv uid t0 f0) (execM (\<lambda>t d. Inr ((), d\<lparr>backup_codes := b d,
      user_two_factor := delete_where (\<lambda>r. tf_user_id r = uid') (user_two_factor d)\<rparr>)))" for b
    by (rule keepsM_I)
      (auto simp: execM_def Let_def window_inv_def tf_row_def find_delete_key intro: order_trans [OF _ tick_mono]
        split: if_splits)
  then show ?thesis
    unfolding TwoFactor_DeleteByUser_def by (intro keeps)
qed

lemma recordInvalid_window:
  "hoareM (open_row uid t0 f0 uid' tf) (recordInvalid uid') (\<lambda>_. window_inv uid t0 f0) (\<lambda>_. window_inv uid t0 f0)"
proof -
  have failure: "hoareM (\<lambda>w. open_row uid t0 f0 uid' tf w \<and> at \<le> now w \<and> (t0 + twoFactorLockDuration \<le> at \<or> t0 \<le> at))
      (TwoFactor_RecordFailure uid' twoFactorMaxFailures (at + twoFactorLockDuration))
      (\<lambda>_. window_inv uid t0 f0) (\<lambda>_. window_inv uid t0 f0)" for at
  proof (rule hoareI)
    fix w
    assume w: "open_row uid t0 f0 uid' tf w \<and> at \<le> now w \<and> (t0 + twoFactorLockDuration \<le> at \<or> t0 \<le> at)"
    let ?w = "drop_fault (tick w)"
    let ?d = "update_two_factor uid' (count_failure twoFactorMaxFailures (at + twoFactorLockDuration)) (now ?w) (db w)"
    have quiet: "window_inv uid t0 f0 ?w"
      using w tick_mono [of w] by (intro lock_invD [OF lock_inv_window open_row_window]) auto
    have row: "tf_row (db w) uid' = Some tf" and lock: "not_locked tf (now ?w)"
      using w tick_mono [of w] not_locked_mono by (auto simp: open_row_def)
    have counted: "window_inv uid t0 f0 (?w\<lparr>db := ?d\<rparr>)"
    proof (cases "t0 + twoFactorLockDuration \<le> now ?w")
      case False
      with w have at: "t0 \<le> at"
        using tick_mono [of w] by auto
      have "counter_ok t0 f0 (count_failure twoFactorMaxFailures (at + twoFactorLockDuration) tf)" if "uid = uid'"
        using quiet False row lock at that by (intro count_failure_ok [where t = "now ?w"]) (auto simp: window_inv_def)
      then show ?thesis
        using quiet row unfolding window_inv_def by (auto simp: tf_row_update count_failure_def split: if_splits)
    qed (simp add: window_inv_def)
    show "wpM (TwoFactor_RecordFailure uid' twoFactorMaxFailures (at + twoFactorLockDuration))
        (\<lambda>_. window_inv uid t0 f0) (\<lambda>_. window_inv uid t0 f0) w"
      using quiet counted row by (simp add: TwoFactor_RecordFailure_def wp Let_def)
  qed
  have now: "hoareM (open_row uid t0 f0 uid' tf) time_Now
      (\<lambda>at w. open_row uid t0 f0 uid' tf w \<and> at \<le> now w \<and> (t0 + twoFactorLockDuration \<le> at \<or> t0 \<le> at))
      (\<lambda>_. window_inv uid t0 f0)"
  proof (rule hoareI)
    fix w
    assume "open_row uid t0 f0 uid' tf w"
    then have "open_row uid t0 f0 uid' tf (tick w)"
      by (rule lock_invD [OF lock_inv_open]) (simp_all add: tick_mono)
    then show "wpM time_Now (\<lambda>at w. open_row uid t0 f0 uid' tf w \<and> at \<le> now w \<and>
        (t0 + twoFactorLockDuration \<le> at \<or> t0 \<le> at)) (\<lambda>_. window_inv uid t0 f0) w"
      by (auto simp: wp open_row_def window_inv_def)
  qed
  have after: "hoareM (window_inv uid t0 f0) (case lockedUntil of
       None \<Rightarrow> errM (Sentinel ErrTwoFactorInvalidCode)
     | Some until \<Rightarrow> bindM time_Now (\<lambda>t.
         if t < until then errM (Sentinel ErrTwoFactorLocked) else errM (Sentinel ErrTwoFactorInvalidCode)))
      (\<lambda>_. window_inv uid t0 f0) (\<lambda>_. window_inv uid t0 f0)" for lockedUntil
    by (rule hoare_of_keeps) (intro keeps lock_keeps(2) [OF lock_inv_window])
  show ?thesis
    unfolding recordInvalid_def
    by (rule hoare_bind [OF now], rule hoare_bind [OF failure]) (use after in \<open>auto split: prod.split\<close>)
qed

lemma activeLock_window:
  "hoareM (\<lambda>w. window_inv uid t0 f0 w \<and> tf_row (db w) uid' = Some tf) (activeLock tf)
     (\<lambda>locked w. window_inv uid t0 f0 w \<and> (locked = None \<longrightarrow> open_row uid t0 f0 uid' tf w)) (\<lambda>_. window_inv uid t0 f0)"
proof (rule hoareI)
  fix w
  assume w: "window_inv uid t0 f0 w \<and> tf_row (db w) uid' = Some tf"
  then have "window_inv uid t0 f0 (tick w)"
    using lock_invD [OF lock_inv_window, of uid t0 f0 w "tick w"] tick_mono by simp
  with w show "wpM (activeLock tf) (\<lambda>locked w. window_inv uid t0 f0 w \<and> (locked = None \<longrightarrow> open_row uid t0 f0 uid' tf w))
      (\<lambda>_. window_inv uid t0 f0) w"
    by (auto simp: activeLock_def wp open_row_def not_locked_def split: option.split)
qed

text \<open>The check of a code, whatever its verdict, keeps the bound: it only counts for an account that is not locked.\<close>

lemma verify_window:
  assumes locked: "\<And>locked. locked \<noteq> None \<Longrightarrow> k locked = errM (Sentinel ErrTwoFactorLocked)"
    and unlocked: "hoareM (open_row uid t0 f0 uid' tf) (k None) (\<lambda>_. window_inv uid t0 f0) (\<lambda>_. window_inv uid t0 f0)"
  shows "hoareM (\<lambda>w. window_inv uid t0 f0 w \<and> tf_row (db w) uid' = Some tf) (bindM (activeLock tf) k)
    (\<lambda>_. window_inv uid t0 f0) (\<lambda>_. window_inv uid t0 f0)"
proof (rule hoare_bind [OF activeLock_window])
  fix locked
  show "hoareM (\<lambda>w. window_inv uid t0 f0 w \<and> (locked = None \<longrightarrow> open_row uid t0 f0 uid' tf w)) (k locked)
      (\<lambda>_. window_inv uid t0 f0) (\<lambda>_. window_inv uid t0 f0)"
  proof (cases "locked = None")
    case True
    then show ?thesis
      by (auto intro: hoare_pre [OF unlocked])
  next
    case False
    then show ?thesis
      unfolding locked [OF False] by (intro hoare_err) simp
  qed
qed

lemma open_row_step:
  assumes "keepsM (open_row uid t0 f0 uid' tf) m"
    and "\<And>x. hoareM (open_row uid t0 f0 uid' tf) (k x) (\<lambda>_. window_inv uid t0 f0) (\<lambda>_. window_inv uid t0 f0)"
  shows "hoareM (open_row uid t0 f0 uid' tf) (bindM m k) (\<lambda>_. window_inv uid t0 f0) (\<lambda>_. window_inv uid t0 f0)"
proof (rule hoare_bind)
  show "hoareM (open_row uid t0 f0 uid' tf) m (\<lambda>_. open_row uid t0 f0 uid' tf) (\<lambda>_. window_inv uid t0 f0)"
    by (rule hoare_post [OF hoare_of_keeps [OF assms(1)]]) (auto intro: open_row_window)
qed (rule assms(2))

lemma record_success_window:
  "hoareM (open_row uid t0 f0 uid' tf) (record_success u) (\<lambda>_. window_inv uid t0 f0) (\<lambda>_. window_inv uid t0 f0)"
  by (rule hoare_pre [OF hoare_of_keeps [OF keeps_record_success]]) (rule open_row_window)

lemma verifyTOTPOnly_window:
  assumes "tf_user_id tf = uid'"
  shows "hoareM (\<lambda>w. window_inv uid t0 f0 w \<and> tf_row (db w) uid' = Some tf) (verifyTOTPOnly s tf code)
    (\<lambda>_. window_inv uid t0 f0) (\<lambda>_. window_inv uid t0 f0)"
  unfolding verifyTOTPOnly_def assms
  by (rule verify_window)
    (simp_all, intro open_row_step keeps lock_keeps_calls lock_inv_open hoare_if recordInvalid_window record_success_window)

lemma verifyCode_window:
  assumes "tf_user_id tf = uid'"
  shows "hoareM (\<lambda>w. window_inv uid t0 f0 w \<and> tf_row (db w) uid' = Some tf) (verifyCode s tf code)
    (\<lambda>_. window_inv uid t0 f0) (\<lambda>_. window_inv uid t0 f0)"
  unfolding verifyCode_def assms
  by (rule verify_window)
    (simp_all, intro open_row_step keeps lock_keeps_calls lock_inv_open hoare_if recordInvalid_window record_success_window)

lemma tf_row_user: "tf_row d uid = Some tf \<Longrightarrow> tf_user_id tf = uid"
  unfolding tf_row_def using find_Some_in by fastforce

lemma TwoFactor_Get_window:
  "hoareM (window_inv uid t0 f0) (TwoFactor_Get uid')
     (\<lambda>found w. window_inv uid t0 f0 w \<and> tf_row (db w) uid' = found) (\<lambda>_. window_inv uid t0 f0)"
proof (rule hoareI)
  fix w
  assume "window_inv uid t0 f0 w"
  then have "window_inv uid t0 f0 (drop_fault (tick w))"
    by (rule lock_invD [OF lock_inv_window]) (simp_all add: tick_mono)
  then show "wpM (TwoFactor_Get uid') (\<lambda>found w. window_inv uid t0 f0 w \<and> tf_row (db w) uid' = found)
      (\<lambda>_. window_inv uid t0 f0) w"
    by (simp add: TwoFactor_Get_def queryM_def wp Let_def db_update_same)
qed

lemma getConfigured_window:
  "hoareM (window_inv uid t0 f0) (getConfigured s uid')
     (\<lambda>tf w. window_inv uid t0 f0 w \<and> tf_row (db w) uid' = Some tf) (\<lambda>_. window_inv uid t0 f0)"
  unfolding getConfigured_def
proof (rule hoare_bind [OF hoare_of_keeps [OF keeps_ready]], rule hoare_bind)
  show "hoareM (window_inv uid t0 f0) (wrapM ''get two factor'' (TwoFactor_Get uid'))
      (\<lambda>found w. window_inv uid t0 f0 w \<and> tf_row (db w) uid' = found) (\<lambda>_. window_inv uid t0 f0)"
    by (rule hoare_wrap) (rule TwoFactor_Get_window)
  fix found
  show "hoareM (\<lambda>w. window_inv uid t0 f0 w \<and> tf_row (db w) uid' = found)
      (case found of None \<Rightarrow> errM (Sentinel ErrTwoFactorNotEnabled) | Some r \<Rightarrow> retM r)
      (\<lambda>tf w. window_inv uid t0 f0 w \<and> tf_row (db w) uid' = Some tf) (\<lambda>_. window_inv uid t0 f0)"
    by (cases found) (auto intro: hoare_err hoare_ret)
qed

lemma getEnabled_window:
  "hoareM (window_inv uid t0 f0) (getEnabled s uid')
     (\<lambda>tf w. window_inv uid t0 f0 w \<and> tf_row (db w) uid' = Some tf) (\<lambda>_. window_inv uid t0 f0)"
  unfolding getEnabled_def
  by (rule hoare_bind [OF getConfigured_window]) (auto intro: hoare_if hoare_err hoare_ret)

text \<open>A call that reads the row, and a body that checks a code against it.\<close>

lemma checked_window:
  assumes get: "hoareM (window_inv uid t0 f0) get (\<lambda>tf w. window_inv uid t0 f0 w \<and> tf_row (db w) uid' = Some tf)
      (\<lambda>_. window_inv uid t0 f0)"
    and body: "\<And>tf. tf_user_id tf = uid' \<Longrightarrow> hoareM (\<lambda>w. window_inv uid t0 f0 w \<and> tf_row (db w) uid' = Some tf) (k tf)
      (\<lambda>_. window_inv uid t0 f0) (\<lambda>_. window_inv uid t0 f0)"
  shows "keepsM (window_inv uid t0 f0) (bindM get k)"
  unfolding hoare_keeps
proof (rule hoare_bind [OF get])
  fix tf
  show "hoareM (\<lambda>w. window_inv uid t0 f0 w \<and> tf_row (db w) uid' = Some tf) (k tf)
      (\<lambda>_. window_inv uid t0 f0) (\<lambda>_. window_inv uid t0 f0)"
    using body [of tf] tf_row_user by (cases "tf_user_id tf = uid'") (auto simp: hoareM_def)
qed

lemma then_window:
  assumes "hoareM P m (\<lambda>_. window_inv uid t0 f0) (\<lambda>_. window_inv uid t0 f0)" and "keepsM (window_inv uid t0 f0) k"
  shows "hoareM P (thenM m k) (\<lambda>_. window_inv uid t0 f0) (\<lambda>_. window_inv uid t0 f0)"
  by (rule hoare_then [OF assms(1)]) (rule hoare_of_keeps [OF assms(2)])

lemma keeps_replace_codes: "keepsM (window_inv uid t0 f0) (TwoFactor_ReplaceBackupCodes uid' hashes)"
proof -
  have codes: "insert_backup_codes u t hs d = Inr d' \<Longrightarrow> user_two_factor d' = user_two_factor d" for u t hs d d'
    by (induction u t hs d rule: insert_backup_codes.induct)
      (auto simp: gen_random_uuid_def Let_def split: if_splits)
  show ?thesis
    unfolding TwoFactor_ReplaceBackupCodes_def
    by (intro keeps lock_keeps_exec [OF lock_inv_window]) (auto dest: codes split: sum.splits)
qed

lemma keeps_try_getEnabled_verify:
  "keepsM (window_inv uid t0 f0) (bindM (tryM (getEnabled s uid')) (\<lambda>r. case r of
      Inl e \<Rightarrow> if errIs e ErrTwoFactorNotEnabled then errM (Sentinel ErrTwoFactorChallenge) else errM e
    | Inr tf \<Rightarrow> thenM (verifyCode s tf code) (TwoFactor_issueTokens s u)))"
  unfolding hoare_keeps
proof (rule hoare_bind)
  show "hoareM (window_inv uid t0 f0) (tryM (getEnabled s uid'))
      (\<lambda>r w. case r of Inl e \<Rightarrow> window_inv uid t0 f0 w
         | Inr tf \<Rightarrow> window_inv uid t0 f0 w \<and> tf_row (db w) uid' = Some tf) (\<lambda>_. window_inv uid t0 f0)"
    by (rule hoare_try) (simp add: getEnabled_window)
  fix r
  show "hoareM (\<lambda>w. case r of Inl e \<Rightarrow> window_inv uid t0 f0 w
         | Inr tf \<Rightarrow> window_inv uid t0 f0 w \<and> tf_row (db w) uid' = Some tf)
      (case r of
         Inl e \<Rightarrow> if errIs e ErrTwoFactorNotEnabled then errM (Sentinel ErrTwoFactorChallenge) else errM e
       | Inr tf \<Rightarrow> thenM (verifyCode s tf code) (TwoFactor_issueTokens s u))
      (\<lambda>_. window_inv uid t0 f0) (\<lambda>_. window_inv uid t0 f0)"
  proof (cases r)
    case (Inl e)
    then show ?thesis
      by (simp add: hoare_err)
  next
    case (Inr tf)
    then show ?thesis
      using then_window [OF verifyCode_window lock_keeps_calls(11) [OF lock_inv_window]] tf_row_user
      by (cases "tf_user_id tf = uid'") (auto simp: hoareM_def)
  qed
qed

lemma keeps_window_operations:
  "keepsM (window_inv uid t0 f0) (TwoFactor_Login s challenge code)"
  "keepsM (window_inv uid t0 f0) (TwoFactorService_Enable s uid' code)"
  "keepsM (window_inv uid t0 f0) (TwoFactorService_Disable s uid' code)"
  "keepsM (window_inv uid t0 f0) (RegenerateBackupCodes s uid' code)"
  "keepsM (window_inv uid t0 f0) (VerifyStepUp s uid' m code)"
proof -
  note calls = lock_keeps_calls [OF lock_inv_window, of uid t0 f0] lock_keeps(2) [OF lock_inv_window, of uid t0 f0]
  show "keepsM (window_inv uid t0 f0) (TwoFactor_Login s challenge code)"
    unfolding TwoFactor_Login_def by (intro keeps keeps_try_getEnabled_verify calls)
  show "keepsM (window_inv uid t0 f0) (TwoFactorService_Enable s uid' code)"
    unfolding TwoFactorService_Enable_def
    by (rule checked_window [OF getConfigured_window])
      (intro hoare_if hoare_err then_window verifyTOTPOnly_window keeps calls keeps_enable_row; simp)
  show "keepsM (window_inv uid t0 f0) (TwoFactorService_Disable s uid' code)"
    unfolding TwoFactorService_Disable_def
    by (rule checked_window [OF getEnabled_window]) (intro then_window verifyCode_window keeps_delete_row)
  show "keepsM (window_inv uid t0 f0) (RegenerateBackupCodes s uid' code)"
    unfolding RegenerateBackupCodes_def
    by (rule checked_window [OF getEnabled_window])
      (intro then_window verifyCode_window keeps calls keeps_replace_codes)
  show "keepsM (window_inv uid t0 f0) (VerifyStepUp s uid' m code)"
    unfolding VerifyStepUp_def Let_def
    by (intro keeps_if keeps_err checked_window [OF getEnabled_window] then_window verifyTOTPOnly_window keeps calls)
qed

text \<open>The requests that check a code, for any user and in any order.\<close>

inductive guess_step :: "two_factor_service \<Rightarrow> world \<Rightarrow> world \<Rightarrow> bool" for s where
  guess_login: "guess_step s w (snd (TwoFactor_Login s challenge code w))"
| guess_enable: "guess_step s w (snd (TwoFactorService_Enable s uid code w))"
| guess_disable: "guess_step s w (snd (TwoFactorService_Disable s uid code w))"
| guess_regenerate: "guess_step s w (snd (RegenerateBackupCodes s uid code w))"
| guess_step_up: "guess_step s w (snd (VerifyStepUp s uid m code w))"

lemma window_step: "guess_step s w w' \<Longrightarrow> window_inv uid t0 f0 w \<Longrightarrow> window_inv uid t0 f0 w'"
  by (induction rule: guess_step.induct) (auto intro: keeps_window_operations [THEN keepsM_snd])

lemma window_reach: "(guess_step s)\<^sup>*\<^sup>* w w' \<Longrightarrow> window_inv uid t0 f0 w \<Longrightarrow> window_inv uid t0 f0 w'"
  by (induction rule: rtranclp_induct) (auto intro: window_step)

lemma wp_rand [wp]: "wpM (rand_Read n) Q E w =
    (if fault_next w then E (DriverErr ''entropy source'') (drop_fault w)
     else Q (map (\<lambda>i. char_of (rand w (rand_ctr w + i) mod 256)) [0..<n]) ((drop_fault w)\<lparr>rand_ctr := rand_ctr w + n\<rparr>))"
  by (simp add: wpM_def rand_Read_def)

definition counted :: "uuid \<Rightarrow> two_factor \<Rightarrow> goerr \<Rightarrow> world \<Rightarrow> bool" where
  "counted uid r e w \<longleftrightarrow> e = Sentinel ErrTwoFactorInvalidCode \<longrightarrow>
     (\<exists>q. tf_row (db w) uid = Some q \<and> tf_failed_attempts q = tf_failed_attempts r + 1)"

lemma recordInvalid_counts:
  "hoareM (\<lambda>w. tf_row (db w) uid = Some r) (recordInvalid uid) (\<lambda>_ _. True) (counted uid r)"
proof (rule hoareI)
  fix w :: world
  assume "tf_row (db w) uid = Some r"
  then show "wpM (recordInvalid uid) (\<lambda>_ _. True) (counted uid r) w"
    by (auto simp: recordInvalid_def TwoFactor_RecordFailure_def wp Let_def counted_def out_of_range_def
        tf_row_update count_failure_def split: option.split)
qed

lemma counted_step:
  assumes "keepsM (\<lambda>w. tf_row (db w) uid = Some r) m" and "\<And>w w'. m w \<noteq> (Inl (Sentinel ErrTwoFactorInvalidCode), w')"
    and "\<And>x. hoareM (\<lambda>w. tf_row (db w) uid = Some r) (k x) (\<lambda>_ _. True) (counted uid r)"
  shows "hoareM (\<lambda>w. tf_row (db w) uid = Some r) (bindM m k) (\<lambda>_ _. True) (counted uid r)"
proof (rule hoare_bind)
  show "hoareM (\<lambda>w. tf_row (db w) uid = Some r) m (\<lambda>_ w. tf_row (db w) uid = Some r) (counted uid r)"
    using assms(1,2) by (fastforce simp: hoareM_def wpM_def keepsM_def counted_def split: prod.split sum.split)
qed (rule assms(3))

lemma lock_inv_tf_row: "lock_inv (\<lambda>w. tf_row (db w) uid = Some r)"
  unfolding lock_inv_def tf_row_def by simp

lemma quiet_calls:
  "activeLock tf w \<noteq> (Inl (Sentinel e), w')" "validateTOTP s secret code w \<noteq> (Inl (Sentinel e), w')"
  "consumeBackupCode s uid code w \<noteq> (Inl (Sentinel e), w')"
  by (auto simp: activeLock_def validateTOTP_def consumeBackupCode_def TwoFactor_ListUnusedBackupCodes_def
      TwoFactor_MarkBackupCodeUsed_def Let_def run_defs time_Now_def queryM_def execM_def
      split: option.splits if_splits sum.splits prod.splits)

lemma quiet_decrypt: "decrypt s c w \<noteq> (Inl (Sentinel ErrTwoFactorInvalidCode), w')"
  by (auto simp: decrypt_def ready_def bindM_def split: option.splits if_splits sum.splits prod.splits)

lemma record_success_quiet:
  "hoareM P (record_success uid) (\<lambda>_ _. True) (counted uid' r)"
  by (rule hoareI)
    (auto simp: record_success_def TwoFactor_RecordSuccess_def wp Let_def counted_def split: sum.split)

lemma verifyCode_counts:
  "hoareM (\<lambda>w. tf_row (db w) (tf_user_id r) = Some r) (verifyCode s r code) (\<lambda>_ _. True) (counted (tf_user_id r) r)"
  unfolding verifyCode_def
  by (intro counted_step hoare_if record_success_quiet recordInvalid_counts keeps
      lock_keeps_calls [OF lock_inv_tf_row] quiet_calls quiet_decrypt)
    (auto simp: hoareM_def wp counted_def)

lemma verifyTOTPOnly_counts:
  "hoareM (\<lambda>w. tf_row (db w) (tf_user_id r) = Some r) (verifyTOTPOnly s r code) (\<lambda>_ _. True) (counted (tf_user_id r) r)"
  unfolding verifyTOTPOnly_def
  by (intro counted_step hoare_if record_success_quiet recordInvalid_counts keeps
      lock_keeps_calls [OF lock_inv_tf_row] quiet_calls quiet_decrypt)
    (auto simp: hoareM_def wp counted_def)


section \<open>The second step of a login\<close>

lemma activeLock_ok:
  "activeLock tf w = (Inr None, w') \<Longrightarrow> not_locked tf (now w') \<and> db w' = db w \<and> now w \<le> now w'"
  using tick_mono [of w]
  by (auto simp: activeLock_def not_locked_def run_ok time_Now_ok split: option.splits if_splits)

lemma decrypt_ok:
  "decrypt s c w = (Inr secret, w') \<longleftrightarrow> w' = w \<and> tw_initErr s = None \<and>
     (\<exists>a. tw_aead s = Some a \<and> ae_NonceSize a < length c \<and>
        ae_Open a (take (ae_NonceSize a) c) (drop (ae_NonceSize a) c) = Some secret)"
  by (cases "tw_initErr s"; cases "tw_aead s") (auto simp: decrypt_def ready_def run_defs split: option.split)

definition clean_totp :: "string \<Rightarrow> string" where
  "clean_totp code = filter (\<lambda>c. c \<noteq> CHR '' '') (TrimSpace code)"

lemma validateTOTP_ok:
  "validateTOTP s secret code w = (Inr ok, w') \<Longrightarrow>
     db w' = db w \<and> now w \<le> now w' \<and> (ok \<longrightarrow> tw_Validate s secret (clean_totp code) (now w'))"
  using tick_mono [of w]
  by (auto simp: validateTOTP_def clean_totp_def Let_def run_ok time_Now_ok split: if_splits)

text \<open>The code was accepted as the TOTP code of the stored secret, at some instant of the request.\<close>

definition totp_accepted :: "two_factor_service \<Rightarrow> two_factor \<Rightarrow> string \<Rightarrow> time \<Rightarrow> time \<Rightarrow> bool" where
  "totp_accepted s tf code t0 t1 \<longleftrightarrow> (\<exists>a secret t. tw_aead s = Some a \<and> t0 \<le> t \<and> t \<le> t1 \<and>
     ae_Open a (take (ae_NonceSize a) (tf_secret_encrypted tf)) (drop (ae_NonceSize a) (tf_secret_encrypted tf)) = Some secret \<and>
     tw_Validate s secret (clean_totp code) t)"

text \<open>A backup code of the user with the digest of the given code was unused and is used now.\<close>

definition backup_code_spent :: "two_factor_service \<Rightarrow> uuid \<Rightarrow> string \<Rightarrow> db \<Rightarrow> db \<Rightarrow> bool" where
  "backup_code_spent s uid code d d' \<longleftrightarrow> (\<exists>n c. normalizeBackupCode code = Some n \<and> c \<in> set (backup_codes d) \<and>
     unused_code uid c \<and> bc_code_hash c = hashBackupCode s n \<and>
     (\<forall>q \<in> set (backup_codes d'). bc_id q = bc_id c \<longrightarrow> bc_used_at q \<noteq> None))"

lemma consumeBackupCode_ok:
  assumes "consumeBackupCode s uid code w = (Inr True, w')"
  shows "backup_code_spent s uid code (db w) (db w') \<and> now w \<le> now w' \<and>
    user_two_factor (db w') = user_two_factor (db w) \<and> users (db w') = users (db w) \<and>
    refresh_tokens (db w') = refresh_tokens (db w)"
proof -
  obtain n codes w1 c where n: "normalizeBackupCode code = Some n"
    and list: "TwoFactor_ListUnusedBackupCodes uid w = (Inr codes, w1)"
    and c: "find (\<lambda>stored. backupCodeHashMatches s n (bc_code_hash stored)) codes = Some c"
    and mark: "TwoFactor_MarkBackupCodeUsed (bc_id c) (now (tick w1)) (tick w1) = (Inr True, w')"
    using assms by (auto simp: consumeBackupCode_def run_ok time_Now_ok split: option.splits)
  have w1: "db w1 = db w" "now w \<le> now w1" and codes: "set codes = {r \<in> set (backup_codes (db w)). unused_code uid r}"
    using list tick_mono [of w] by (auto simp: TwoFactor_ListUnusedBackupCodes_def queryM_ok)
  have "c \<in> set (backup_codes (db w))" "unused_code uid c" "bc_code_hash c = hashBackupCode s n"
    using find_Some_in [OF c] codes by (auto simp: backupCodeHashMatches_def)
  moreover have "\<forall>q \<in> set (backup_codes (db w')). bc_id q = bc_id c \<longrightarrow> bc_used_at q \<noteq> None"
    using mark by (auto simp: TwoFactor_MarkBackupCodeUsed_def Let_def execM_ok elim!: in_update_whereE split: if_splits)
  moreover have "now w \<le> now w'" "user_two_factor (db w') = user_two_factor (db w)" "users (db w') = users (db w)"
    "refresh_tokens (db w') = refresh_tokens (db w)"
    using mark w1 tick_mono [of w1] tick_mono [of "tick w1"]
    by (auto simp: TwoFactor_MarkBackupCodeUsed_def Let_def execM_ok)
  ultimately show ?thesis
    using n by (auto simp: backup_code_spent_def)
qed

lemma record_success_ok:
  "record_success uid w = (Inr x, w') \<Longrightarrow> \<exists>at t. now w \<le> now w' \<and>
     db w' = update_two_factor uid (\<lambda>r. r\<lparr>tf_failed_attempts := 0, tf_locked_until := None, tf_last_used_at := Some at\<rparr>) t (db w)"
  using tick_mono [of w] tick_mono [of "tick w"]
  by (auto simp: record_success_def TwoFactor_RecordSuccess_def run_ok time_Now_ok execM_ok)

lemma getEnabled_ok:
  assumes "getEnabled s uid w = (Inr tf, w')"
  shows "db w' = db w \<and> now w \<le> now w' \<and> tf_row (db w) uid = Some tf \<and> tf_enabled tf"
proof -
  have "ready s w = (Inr a, v) \<Longrightarrow> v = w" for a v
    by (auto simp: ready_def split: option.splits)
  then obtain v where "TwoFactor_Get uid w = (Inr (Some tf), v)" and "tf_enabled tf" and "w' = v"
    using assms by (auto simp: getEnabled_def getConfigured_def run_ok split: option.splits if_splits)
  then show ?thesis
    using tick_mono [of w] by (auto simp: TwoFactor_Get_ok)
qed

lemma recordInvalid_never: "recordInvalid uid w \<noteq> (Inr x, w')"
  by (auto simp: recordInvalid_def run_defs time_Now_def Let_def split: sum.splits prod.splits option.splits)

text \<open>What a check that was passed leaves: a reset counter, possibly a used backup code.\<close>

definition checked :: "two_factor_service \<Rightarrow> two_factor \<Rightarrow> string \<Rightarrow> world \<Rightarrow> world \<Rightarrow> bool" where
  "checked s tf code w w' \<longleftrightarrow> not_locked tf (now w') \<and> now w \<le> now w' \<and>
     (totp_accepted s tf code (now w) (now w') \<or> backup_code_spent s (tf_user_id tf) code (db w) (db w')) \<and>
     users (db w') = users (db w) \<and> refresh_tokens (db w') = refresh_tokens (db w) \<and>
     (\<exists>t at. user_two_factor (db w') = user_two_factor (update_two_factor (tf_user_id tf)
        (\<lambda>r. r\<lparr>tf_failed_attempts := 0, tf_locked_until := None, tf_last_used_at := Some at\<rparr>) t (db w)))"

lemma totp_accepted_later:
  "totp_accepted s tf code t0 t1 \<Longrightarrow> t0' \<le> t0 \<Longrightarrow> t1 \<le> t1' \<Longrightarrow> totp_accepted s tf code t0' t1'"
  unfolding totp_accepted_def by (meson order_trans)

lemma backup_code_spent_db:
  "backup_code_spent s uid code d d1 \<Longrightarrow> backup_codes d2 = backup_codes d1 \<Longrightarrow> backup_code_spent s uid code d d2"
  unfolding backup_code_spent_def by simp

lemma checkedI:
  assumes "record_success (tf_user_id tf) v = (Inr x, w')" and "not_locked tf (now v)" and "now w \<le> now v"
    and "totp_accepted s tf code (now w) (now v) \<or> backup_code_spent s (tf_user_id tf) code (db w) (db v)"
    and "users (db v) = users (db w)" and "refresh_tokens (db v) = refresh_tokens (db w)"
    and "user_two_factor (db v) = user_two_factor (db w)"
  shows "checked s tf code w w'"
proof -
  obtain at t where w': "now v \<le> now w'" "db w' = update_two_factor (tf_user_id tf)
      (\<lambda>r. r\<lparr>tf_failed_attempts := 0, tf_locked_until := None, tf_last_used_at := Some at\<rparr>) t (db v)"
    using record_success_ok [OF assms(1)] by blast
  have "totp_accepted s tf code (now w) (now w') \<or> backup_code_spent s (tf_user_id tf) code (db w) (db w')"
    using assms(4) w'(1) unfolding w'(2) totp_accepted_def backup_code_spent_def update_two_factor_def
    by (auto intro: order_trans)
  moreover have "user_two_factor (db w') = user_two_factor (update_two_factor (tf_user_id tf)
      (\<lambda>r. r\<lparr>tf_failed_attempts := 0, tf_locked_until := None, tf_last_used_at := Some at\<rparr>) t (db w))"
    using assms(7) unfolding w'(2) by (simp add: update_two_factor_def)
  moreover have "users (db w') = users (db w)" "refresh_tokens (db w') = refresh_tokens (db w)"
    using assms(5,6) unfolding w'(2) by (simp_all add: update_two_factor_def)
  ultimately show ?thesis
    unfolding checked_def using not_locked_mono [OF assms(2) w'(1)] assms(3) w'(1) by fastforce
qed

lemma verifyCode_ok:
  assumes "verifyCode s tf code w = (Inr x, w')"
  shows "checked s tf code w w'"
proof -
  obtain w1 secret ok w2 where lock: "activeLock tf w = (Inr None, w1)"
    and dec: "decrypt s (tf_secret_encrypted tf) w1 = (Inr secret, w1)"
    and totp: "validateTOTP s secret code w1 = (Inr ok, w2)"
    and rest: "if ok then record_success (tf_user_id tf) w2 = (Inr x, w')
      else \<exists>w3. consumeBackupCode s (tf_user_id tf) code w2 = (Inr True, w3) \<and> record_success (tf_user_id tf) w3 = (Inr x, w')"
  proof -
    obtain w1 secret v ok w2 where "activeLock tf w = (Inr None, w1)"
      and dec: "decrypt s (tf_secret_encrypted tf) w1 = (Inr secret, v)"
      and "validateTOTP s secret code v = (Inr ok, w2)"
      and "if ok then record_success (tf_user_id tf) w2 = (Inr x, w')
        else \<exists>w3. consumeBackupCode s (tf_user_id tf) code w2 = (Inr True, w3) \<and> record_success (tf_user_id tf) w3 = (Inr x, w')"
      using assms unfolding verifyCode_def bindM_Inr_iff
      by (auto split: if_splits simp: recordInvalid_never run_ok)
    moreover have "v = w1"
      using dec unfolding decrypt_ok by simp
    ultimately show thesis
      using that by blast
  qed
  have first: "not_locked tf (now w2)" "db w2 = db w" "now w \<le> now w1" "now w1 \<le> now w2"
    using activeLock_ok [OF lock] validateTOTP_ok [OF totp] not_locked_mono by auto
  show ?thesis
  proof (cases ok)
    case True
    have "totp_accepted s tf code (now w) (now w2)"
      using True dec totp validateTOTP_ok [OF totp] first
      by (auto simp: totp_accepted_def decrypt_ok intro!: exI [of _ "now w2"])
    then show ?thesis
      using True rest first by (intro checkedI [of tf w2 x]) auto
  next
    case False
    then obtain w3 where spent: "consumeBackupCode s (tf_user_id tf) code w2 = (Inr True, w3)"
      and rec: "record_success (tf_user_id tf) w3 = (Inr x, w')"
      using rest by auto
    show ?thesis
      using consumeBackupCode_ok [OF spent] first by (intro checkedI [OF rec]) (auto intro: not_locked_mono)
  qed
qed

lemma TwoFactor_issueTokens_ok:
  assumes "TwoFactor_issueTokens s u w = (Inr r, w')" and "as_tm a = tw_tm s"
  shows "rg_User r = u \<and> session_row a u (rg_RefreshToken r) (now w) (db w) (db w') \<and>
    user_two_factor (db w') = user_two_factor (db w) \<and> backup_codes (db w') = backup_codes (db w) \<and> now w \<le> now w'"
proof -
  have same: "IssueRefreshToken (tw_tm s) (u_id u) = issueRefreshToken a (u_id u)"
    using assms(2) by (simp add: IssueRefreshToken_def issueRefreshToken_def hashToken_def)
  obtain access w1 refresh hash w2 where access: "IssueAccessToken (tw_tm s) (u_id u) (tier_string (u_tier u)) w = (Inr access, w1)"
    and refresh: "issueRefreshToken a (u_id u) w1 = (Inr (refresh, hash), w2)"
    and save: "RefreshTokens_Save (u_id u) hash '''' (now (tick w2) + refreshTokenTTL) (tick w2) = (Inr (), w')"
    and r: "r = session_result u access refresh ''''"
    using assms(1) unfolding TwoFactor_issueTokens_def same by (auto simp: run_ok time_Now_ok)
  have "db w1 = db w" and "db w2 = db w1"
    using db_kept [OF keeps_issue_db(1) access] db_kept [OF keeps_issue_db(3) refresh] by simp_all
  moreover have "now w \<le> now w2"
    using time_kept [OF keeps_issue_later(1) access] time_kept [OF keeps_issue_later(2) refresh] by simp
  moreover have "hash = hashToken a refresh"
    using refresh by (auto simp: issueRefreshToken_def run_ok Let_def)
  ultimately show ?thesis
    using r save tick_mono [of w2] tick_mono [of "tick w2"]
    by (auto simp: Save_ok session_row_def session_result_def intro!: exI)
qed

lemma challenge_db: "ValidateLoginChallengeToken tm tok w = (r, w') \<Longrightarrow> db w' = db w \<and> now w \<le> now w'"
  using tick_mono [of w]
  by (auto simp: ValidateLoginChallengeToken_def bindM_def time_Now_def Let_def split: sum.splits option.splits if_splits prod.splits)

lemma TwoFactor_Login_ok:
  assumes "TwoFactor_Login s challenge code w = (Inr r, w')"
  shows "\<exists>uid u tf v v'. fst (ValidateLoginChallengeToken (tw_tm s) challenge w) = Inr uid \<and>
    u \<in> set (users (db w)) \<and> u_id u = uid \<and> live_user u \<and> u_status u = StatusActive \<and>
    tf_row (db w) uid = Some tf \<and> tf_enabled tf \<and> db v = db w \<and> now w \<le> now v \<and>
    checked s tf code v v' \<and> TwoFactor_issueTokens s u v' = (Inr r, w')"
proof -
  obtain uid w1 u w2 tf w3 x v' where val: "ValidateLoginChallengeToken (tw_tm s) challenge w = (Inr uid, w1)"
    and user: "Users_GetByID uid w1 = (Inr (Some u), w2)" and active: "u_status u = StatusActive"
    and tf: "getEnabled s uid w2 = (Inr tf, w3)" and code: "verifyCode s tf code w3 = (Inr x, v')"
    and tokens: "TwoFactor_issueTokens s u v' = (Inr r, w')"
  proof -
    obtain uid w1 u w2 where "ValidateLoginChallengeToken (tw_tm s) challenge w = (Inr uid, w1)"
      and "Users_GetByID uid w1 = (Inr (Some u), w2)" and "u_status u = StatusActive"
      and "bindM (tryM (getEnabled s uid)) (\<lambda>r. case r of
          Inl e \<Rightarrow> if errIs e ErrTwoFactorNotEnabled then errM (Sentinel ErrTwoFactorChallenge) else errM e
        | Inr tf \<Rightarrow> thenM (verifyCode s tf code) (TwoFactor_issueTokens s u)) w2 = (Inr r, w')"
    proof -
      have "TrimSpace challenge \<noteq> ''''"
        using assms by (auto simp: TwoFactor_Login_def)
      note run = assms [unfolded TwoFactor_Login_def if_not_P [OF this] catch_Inr_iff]
      show thesis
        using run that by (auto simp: bindM_Inr_iff [of "wrapM m x" for m x] split: if_splits option.splits)
    qed
    then show thesis
      using that unfolding catch_Inr_iff by (auto simp: run_ok split: if_splits)
  qed
  have w1: "db w1 = db w" "now w \<le> now w1"
    using challenge_db [OF val] by simp_all
  have u: "u \<in> set (users (db w))" "u_id u = uid" "live_user u" "db w2 = db w" "now w \<le> now w2"
    using user w1 tick_mono [of w1]
    by (auto simp: Users_GetByID_def queryM_ok dest!: find_Some_in sym [of "Some _" "find _ _"])
  show ?thesis
    using val u active getEnabled_ok [OF tf] verifyCode_ok [OF code] tokens
    by (intro exI [of _ uid] exI [of _ u] exI [of _ tf] exI [of _ w3] exI [of _ v']) auto
qed

text \<open>
  C35. The second step of a login hands out a session only for a challenge that names a
  live, active account whose two-factor authentication is on and not locked, and only
  against the account's current TOTP code or an unused backup code, which is used up. The
  session is one new refresh token, whose digest is the one AuthService looks up and
  which is valid for 30 days, and the failure counter and the lock are cleared.
\<close>

theorem second_factor_login:
  assumes "TwoFactor_Login s challenge code w = (Inr r, w')" and "as_tm a = tw_tm s"
  shows "fst (ValidateLoginChallengeToken (tw_tm s) challenge w) = Inr (u_id (rg_User r)) \<and>
    rg_User r \<in> set (users (db w)) \<and> live_user (rg_User r) \<and> u_status (rg_User r) = StatusActive \<and>
    (\<exists>tf. tf_row (db w) (u_id (rg_User r)) = Some tf \<and> tf_enabled tf \<and> not_locked tf (now w') \<and>
       (totp_accepted s tf code (now w) (now w') \<or> backup_code_spent s (u_id (rg_User r)) code (db w) (db w'))) \<and>
    (\<exists>d. refresh_tokens d = refresh_tokens (db w) \<and> session_row a (rg_User r) (rg_RefreshToken r) (now w) d (db w')) \<and>
    (\<exists>q. tf_row (db w') (u_id (rg_User r)) = Some q \<and> tf_failed_attempts q = 0 \<and> tf_locked_until q = None)"
proof -
  obtain uid u tf v v' where challenge: "fst (ValidateLoginChallengeToken (tw_tm s) challenge w) = Inr uid"
    and u: "u \<in> set (users (db w))" "u_id u = uid" "live_user u" "u_status u = StatusActive"
    and tf: "tf_row (db w) uid = Some tf" "tf_enabled tf" and v: "db v = db w" "now w \<le> now v"
    and code: "checked s tf code v v'" and tokens: "TwoFactor_issueTokens s u v' = (Inr r, w')"
    using TwoFactor_Login_ok [OF assms(1)] by blast
  note session = TwoFactor_issueTokens_ok [OF tokens assms(2)]
  have key: "tf_user_id tf = uid"
    by (rule tf_row_user [OF tf(1)])
  have "not_locked tf (now w')"
    using code session not_locked_mono unfolding checked_def by blast
  moreover have "totp_accepted s tf code (now w) (now w') \<or> backup_code_spent s uid code (db w) (db w')"
  proof -
    have "totp_accepted s tf code (now v) (now v') \<or> backup_code_spent s uid code (db w) (db v')"
      using code unfolding checked_def key v(1) by blast
    moreover have "now v' \<le> now w'" "backup_codes (db w') = backup_codes (db v')"
      using session by simp_all
    ultimately show ?thesis
      using totp_accepted_later [OF _ v(2)] backup_code_spent_db by blast
  qed
  moreover have "\<exists>d. refresh_tokens d = refresh_tokens (db w) \<and> session_row a u (rg_RefreshToken r) (now w) d (db w')"
    using code session v session_row_later [of a u "rg_RefreshToken r" "now v'" "db v'" "db w'" "now w"]
    unfolding checked_def by (intro exI [of _ "db v'"]) auto
  moreover have "\<exists>q. tf_row (db w') uid = Some q \<and> tf_failed_attempts q = 0 \<and> tf_locked_until q = None"
  proof -
    obtain t at where "user_two_factor (db w') = user_two_factor (update_two_factor uid
        (\<lambda>r. r\<lparr>tf_failed_attempts := 0, tf_locked_until := None, tf_last_used_at := Some at\<rparr>) t (db w))"
      using code session v unfolding checked_def key by auto
    then have "tf_row (db w') uid = tf_row (update_two_factor uid
        (\<lambda>r. r\<lparr>tf_failed_attempts := 0, tf_locked_until := None, tf_last_used_at := Some at\<rparr>) t (db w)) uid"
      by (simp add: tf_row_def)
    then show ?thesis
      using tf by (simp add: tf_row_update)
  qed
  ultimately show ?thesis
    using challenge u tf session by auto
qed

section \<open>Witnesses\<close>

definition sample_two_factor :: two_factor_service where
  "sample_two_factor =
     \<lparr>tw_tm = (as_tm sample_auth)\<lparr>tm_Parse := (\<lambda>opts t tok. Inr (challenge_claims ''u1'' 100 ''j''))\<rparr>,
      tw_aead = Some \<lparr>ae_NonceSize = 1, ae_Seal = (\<lambda>n p. p), ae_Open = (\<lambda>n c. Some c)\<rparr>, tw_initErr = None,
      tw_HMAC = (\<lambda>bs. bs), tw_Generate = (\<lambda>name bs. Inr (''S'', ''otpauth'')),
      tw_Validate = (\<lambda>secret code t. secret = ''S'' \<and> code = ''123456'')\<rparr>"

definition two_factor_world :: world where
  "two_factor_world = world_of (sample_db\<lparr>user_two_factor :=
     [\<lparr>tf_user_id = ''u1'', tf_secret_encrypted = ''nS'', tf_enabled = True, tf_failed_attempts = 4,
       tf_locked_until = Some 50, tf_last_used_at = None, tf_enabled_at = Some 1, tf_created_at = 0, tf_updated_at = 0\<rparr>]\<rparr>) []"

lemma second_factor_login_witness:
  "\<exists>r w'. TwoFactor_Login sample_two_factor ''C'' ''123 456'' two_factor_world = (Inr r, w') \<and>
     (\<exists>q. tf_row (db w') (u_id (rg_User r)) = Some q \<and> tf_failed_attempts q = 0 \<and> tf_locked_until q = None)"
proof -
  have "succeeds (TwoFactor_Login sample_two_factor ''C'' ''123 456'' two_factor_world)"
    by code_simp
  then obtain r w' where run: "TwoFactor_Login sample_two_factor ''C'' ''123 456'' two_factor_world = (Inr r, w')"
    by (cases "TwoFactor_Login sample_two_factor ''C'' ''123 456'' two_factor_world") (auto simp: succeeds_def split: sum.splits)
  have "as_tm (sample_auth\<lparr>as_tm := tw_tm sample_two_factor\<rparr>) = tw_tm sample_two_factor"
    by simp
  from second_factor_login [OF run this] run show ?thesis
    by blast
qed


end
