(* ===== verification/Idempotency.thy ===== *)
theory Idempotency
  imports Sample
begin

text \<open>
  Request idempotency: IdempotencyRepo (pkg/repository/idempotency.go) and
  ExecuteIdempotent (pkg/service/idempotency.go) over the interface idempotencyStore. The
  interface is a record of its three operations; a locale states what the service relies
  on, and the repository is shown to provide it.
\<close>

section \<open>The interface\<close>

datatype claim_status = ClaimStarted | ClaimReplayed | ClaimConflict | ClaimProcessing

record claim_params =
  cp_Scope :: string
  cp_KeyHash :: string
  cp_Fingerprint :: string
  cp_Now :: time
  cp_LockedUntil :: time
  cp_ExpiresAt :: time

record claim_result =
  cr_Status :: claim_status
  cr_Record :: idempotency_record

record idempotency_store =
  is_Claim :: "claim_params \<Rightarrow> claim_result app"
  is_MarkSucceeded :: "uuid \<Rightarrow> int \<Rightarrow> bytes \<Rightarrow> time \<Rightarrow> unit app"
  is_MarkFailed :: "uuid \<Rightarrow> string \<Rightarrow> time \<Rightarrow> unit app"

section \<open>IdempotencyRepo\<close>

text \<open>\<open>INSERT ... ON CONFLICT (scope, idempotency_key_hash) DO NOTHING\<close>\<close>

definition insertProcessingIdempotency ::
  "claim_params \<Rightarrow> time \<Rightarrow> db \<Rightarrow> goerr + idempotency_record option \<times> db" where
  "insertProcessingIdempotency p t d =
     (if \<exists>r \<in> set (idempotency_records d). ir_scope r = cp_Scope p \<and> ir_key_hash r = cp_KeyHash p then Inr (None, d)
      else let (i, d') = gen_random_uuid d;
               row = \<lparr>ir_id = i, ir_scope = cp_Scope p, ir_key_hash = cp_KeyHash p,
                      ir_fingerprint = cp_Fingerprint p, ir_status = IdemProcessing,
                      ir_locked_until = Some (cp_LockedUntil p), ir_response_status = None,
                      ir_response_body = ''{}'', ir_error_reason = '''', ir_expires_at = cp_ExpiresAt p,
                      ir_created_at = t, ir_updated_at = t\<rparr> in
        if \<exists>r \<in> set (idempotency_records d). ir_id r = i then Inl unique_violation
        else Inr (Some row, d'\<lparr>idempotency_records := idempotency_records d @ [row]\<rparr>))"

definition getIdempotencyForUpdate :: "string \<Rightarrow> string \<Rightarrow> db \<Rightarrow> idempotency_record option" where
  "getIdempotencyForUpdate scope keyHash d =
     find (\<lambda>r. ir_scope r = scope \<and> ir_key_hash r = keyHash) (idempotency_records d)"

definition reclaimed :: "claim_params \<Rightarrow> time \<Rightarrow> idempotency_record \<Rightarrow> idempotency_record" where
  "reclaimed p t r = r\<lparr>ir_status := IdemProcessing, ir_locked_until := Some (cp_LockedUntil p),
     ir_expires_at := cp_ExpiresAt p, ir_response_status := None, ir_response_body := ''{}'',
     ir_error_reason := '''', ir_updated_at := t\<rparr>"

definition reclaimIdempotency ::
  "uuid \<Rightarrow> claim_params \<Rightarrow> time \<Rightarrow> db \<Rightarrow> goerr + idempotency_record \<times> db" where
  "reclaimIdempotency i p t d =
     (case returning (\<lambda>r. ir_id r = i) (reclaimed p t) (idempotency_records d) of
        [] \<Rightarrow> Inl (ErrMsg ''idempotency record not found while reclaiming'')
      | r # _ \<Rightarrow> Inr (r, d\<lparr>idempotency_records := update_where (\<lambda>r. ir_id r = i) (reclaimed p t) (idempotency_records d)\<rparr>))"

text \<open>A lock in force: \<open>LockedUntil != nil && LockedUntil.After(now)\<close>.\<close>

definition still_locked :: "idempotency_record \<Rightarrow> time \<Rightarrow> bool" where
  "still_locked r t \<longleftrightarrow> (case ir_locked_until r of None \<Rightarrow> False | Some until \<Rightarrow> t < until)"

text \<open>The transaction of \<open>Claim\<close>; the unique index and the row lock make it one step.\<close>

definition claim_tx :: "claim_params \<Rightarrow> time \<Rightarrow> db \<Rightarrow> goerr + claim_result \<times> db" where
  "claim_tx p t d = (case insertProcessingIdempotency p t d of
     Inl e \<Rightarrow> Inl e
   | Inr (Some r, d') \<Rightarrow> Inr (\<lparr>cr_Status = ClaimStarted, cr_Record = r\<rparr>, d')
   | Inr (None, d') \<Rightarrow> (case getIdempotencyForUpdate (cp_Scope p) (cp_KeyHash p) d' of
        None \<Rightarrow> Inl (ErrMsg ''idempotency record disappeared during claim'')
      | Some r \<Rightarrow>
          if ir_fingerprint r \<noteq> cp_Fingerprint p then Inr (\<lparr>cr_Status = ClaimConflict, cr_Record = r\<rparr>, d')
          else if ir_status r = IdemSucceeded then Inr (\<lparr>cr_Status = ClaimReplayed, cr_Record = r\<rparr>, d')
          else if ir_status r = IdemProcessing \<and> still_locked r (cp_Now p)
               then Inr (\<lparr>cr_Status = ClaimProcessing, cr_Record = r\<rparr>, d')
          else (case reclaimIdempotency (ir_id r) p t d' of
                  Inl e \<Rightarrow> Inl e
                | Inr (r', d'') \<Rightarrow> Inr (\<lparr>cr_Status = ClaimStarted, cr_Record = r'\<rparr>, d''))))"

definition Idempotency_Claim :: "claim_params \<Rightarrow> claim_result app" where
  "Idempotency_Claim p = execM (claim_tx p)"

definition update_record :: "uuid \<Rightarrow> (idempotency_record \<Rightarrow> idempotency_record) \<Rightarrow> time \<Rightarrow> db \<Rightarrow> db" where
  "update_record i f t d = d\<lparr>idempotency_records :=
     update_where (\<lambda>r. ir_id r = i) (\<lambda>r. (f r)\<lparr>ir_updated_at := t\<rparr>) (idempotency_records d)\<rparr>"

text \<open>
  \<open>jsonb\<close> is PostgreSQL's cast: the text it stores for a JSON text, or none if it rejects
  it. \<open>response_status\<close> is an INTEGER column.
\<close>

definition Idempotency_MarkSucceeded ::
  "(bytes \<Rightarrow> bytes option) \<Rightarrow> uuid \<Rightarrow> int \<Rightarrow> bytes \<Rightarrow> time \<Rightarrow> unit app" where
  "Idempotency_MarkSucceeded jsonb i responseStatus responseBody at =
     wrapM ''mark idempotency succeeded'' (execM (\<lambda>t d.
       case jsonb (if responseBody = [] then ''{}'' else responseBody) of
         None \<Rightarrow> Inl (DriverErr ''invalid input syntax for type json'')
       | Some body \<Rightarrow>
           if \<not> (- (2 ^ 31) \<le> responseStatus \<and> responseStatus < 2 ^ 31) then Inl out_of_range
           else Inr ((), update_record i (\<lambda>r. r\<lparr>ir_status := IdemSucceeded, ir_locked_until := None,
                  ir_response_status := Some responseStatus, ir_response_body := body, ir_error_reason := ''''\<rparr>) t d)))"

definition trimFailureReason :: "string \<Rightarrow> string" where
  "trimFailureReason reason = (if length reason \<le> 500 then reason else take 500 reason)"

definition Idempotency_MarkFailed :: "uuid \<Rightarrow> string \<Rightarrow> time \<Rightarrow> unit app" where
  "Idempotency_MarkFailed i reason at =
     wrapM ''mark idempotency failed'' (execM (\<lambda>t d.
       Inr ((), update_record i (\<lambda>r. r\<lparr>ir_status := IdemFailed, ir_locked_until := None,
              ir_error_reason := trimFailureReason reason\<rparr>) t d)))"

definition idempotency_repo :: "(bytes \<Rightarrow> bytes option) \<Rightarrow> idempotency_store" where
  "idempotency_repo jsonb = \<lparr>is_Claim = Idempotency_Claim,
     is_MarkSucceeded = Idempotency_MarkSucceeded jsonb, is_MarkFailed = Idempotency_MarkFailed\<rparr>"

section \<open>The service\<close>

text \<open>The payload of a request: the last case carries what json.Marshal makes of the value.\<close>

datatype payload = PayloadNil | PayloadBytes bytes | PayloadString string | PayloadValue "goerr + bytes"

record idempotency_options =
  io_Scope :: string
  io_IdempotencyKey :: string
  io_Payload :: payload
  io_RequireKey :: bool
  io_TTL :: duration
  io_LockTTL :: duration

record 'a idempotency_execution =
  ie_Data :: "'a option"
  ie_ResponseStatus :: int
  ie_Replayed :: bool

text \<open>\<open>store\<close> may be a nil interface; SHA-256 is a parameter.\<close>

record idempotency_service =
  iv_store :: "idempotency_store option"
  iv_Sum256 :: "bytes \<Rightarrow> bytes"

text \<open>Package encoding/json at the type of the response; \<open>jc_zero\<close> is its zero value.\<close>

record 'a json_codec =
  jc_Marshal :: "'a option \<Rightarrow> goerr + bytes"
  jc_Unmarshal :: "bytes \<Rightarrow> goerr + 'a"
  jc_zero :: 'a

definition DefaultWriteIdempotencyTTL :: duration where "DefaultWriteIdempotencyTTL = 24 * Hour"
definition DefaultWebhookIdempotencyTTL :: duration where "DefaultWebhookIdempotencyTTL = 7 * 24 * Hour"

text \<open>\<open>hex.EncodeToString\<close>\<close>

definition hex_digit :: "nat \<Rightarrow> char" where
  "hex_digit n = ''0123456789abcdef'' ! n"

definition HexEncode :: "bytes \<Rightarrow> string" where
  "HexEncode bs = concat (map (\<lambda>b. [hex_digit (of_char b div 16), hex_digit (of_char b mod 16)]) bs)"

definition HashIdempotencyKey :: "(bytes \<Rightarrow> bytes) \<Rightarrow> string \<Rightarrow> string" where
  "HashIdempotencyKey Sum256 key = HexEncode (Sum256 (TrimSpace key))"

definition FingerprintPayload :: "(bytes \<Rightarrow> bytes) \<Rightarrow> payload \<Rightarrow> goerr + string" where
  "FingerprintPayload Sum256 payload = (case payload of
     PayloadNil \<Rightarrow> Inr (HexEncode (Sum256 ''null''))
   | PayloadBytes typed \<Rightarrow> Inr (HexEncode (Sum256 typed))
   | PayloadString typed \<Rightarrow> Inr (HexEncode (Sum256 typed))
   | PayloadValue encoded \<Rightarrow> (case encoded of
        Inl e \<Rightarrow> Inl (Wrap ''fingerprint idempotency payload'' e)
      | Inr data \<Rightarrow> Inr (HexEncode (Sum256 data))))"

definition or_200 :: "int \<Rightarrow> int" where
  "or_200 status = (if status = 0 then 200 else status)"

definition fresh_execution :: "'a option \<Rightarrow> int \<Rightarrow> 'a idempotency_execution" where
  "fresh_execution data status = \<lparr>ie_Data = data, ie_ResponseStatus = status, ie_Replayed = False\<rparr>"

definition store_unavailable :: "goerr \<Rightarrow> 'a app" where
  "store_unavailable e = thenM (emit (RecordIdempotency ''store_unavailable''))
     (errM (WrapText (Sentinel ErrIdempotencyStoreUnavailable) (Error e)))"

text \<open>The case of a replay.\<close>

definition replay :: "'a json_codec \<Rightarrow> idempotency_record \<Rightarrow> 'a idempotency_execution app" where
  "replay c r = thenM (emit (RecordIdempotency ''replay''))
     (bindM (if 0 < length (ir_response_body r)
             then (case jc_Unmarshal c (ir_response_body r) of
                     Inl e \<Rightarrow> errM (Wrap ''decode idempotency replay'' e)
                   | Inr data \<Rightarrow> retM data)
             else retM (jc_zero c)) (\<lambda>data.
      let status = (case ir_response_status r of None \<Rightarrow> 200 | Some st \<Rightarrow> if 0 < st then st else 200) in
      retM \<lparr>ie_Data = Some data, ie_ResponseStatus = status, ie_Replayed = True\<rparr>))"

definition mark_failed :: "idempotency_store \<Rightarrow> uuid \<Rightarrow> goerr \<Rightarrow> unit app" where
  "mark_failed store i e = bindM time_Now (\<lambda>t. ignoreM (is_MarkFailed store i (Error e) t))"

text \<open>The part after the claim started: the guarded call and the record of its outcome.\<close>

definition run_claimed :: "idempotency_store \<Rightarrow> 'a json_codec \<Rightarrow> uuid \<Rightarrow> ('a option \<times> int) app \<Rightarrow>
    'a idempotency_execution app" where
  "run_claimed store c i execute =
     bindM (tryM execute) (\<lambda>r. case r of
       Inl e \<Rightarrow> thenM (mark_failed store i e) (errM e)
     | Inr (data, status0) \<Rightarrow>
         (case jc_Marshal c data of
            Inl e \<Rightarrow> thenM (mark_failed store i e) (errM (Wrap ''encode idempotency response'' e))
          | Inr responseBody \<Rightarrow>
              bindM time_Now (\<lambda>t.
              bindM (tryM (is_MarkSucceeded store i (or_200 status0) responseBody t)) (\<lambda>r. case r of
                Inl e \<Rightarrow> store_unavailable e
              | Inr u \<Rightarrow> retM (fresh_execution data (or_200 status0))))))"

definition claim_params_of :: "idempotency_service \<Rightarrow> idempotency_options \<Rightarrow> string \<Rightarrow> time \<Rightarrow> claim_params" where
  "claim_params_of svc opts fingerprint now0 =
     (let ttl = (if io_TTL opts \<le> 0 then DefaultWriteIdempotencyTTL else io_TTL opts);
          lockTTL = (if io_LockTTL opts \<le> 0 then 30 * Second else io_LockTTL opts) in
      \<lparr>cp_Scope = TrimSpace (io_Scope opts),
       cp_KeyHash = HashIdempotencyKey (iv_Sum256 svc) (TrimSpace (io_IdempotencyKey opts)),
       cp_Fingerprint = fingerprint, cp_Now = now0, cp_LockedUntil = now0 + lockTTL, cp_ExpiresAt = now0 + ttl\<rparr>)"

text \<open>The part from the fingerprint on, for a key that is not blank.\<close>

definition guarded :: "idempotency_service \<Rightarrow> idempotency_store \<Rightarrow> 'a json_codec \<Rightarrow> idempotency_options \<Rightarrow>
    ('a option \<times> int) app \<Rightarrow> 'a idempotency_execution app" where
  "guarded svc store c opts execute =
     (case FingerprintPayload (iv_Sum256 svc) (io_Payload opts) of
        Inl e \<Rightarrow> errM e
      | Inr fingerprint \<Rightarrow>
          bindM time_Now (\<lambda>now0.
          bindM (tryM (is_Claim store (claim_params_of svc opts fingerprint now0))) (\<lambda>r. case r of
            Inl e \<Rightarrow> store_unavailable e
          | Inr claim \<Rightarrow> (case cr_Status claim of
               ClaimReplayed \<Rightarrow> replay c (cr_Record claim)
             | ClaimConflict \<Rightarrow> thenM (emit (RecordIdempotency ''conflict'')) (errM (Sentinel ErrIdempotencyConflict))
             | ClaimProcessing \<Rightarrow> thenM (emit (RecordIdempotency ''in_progress'')) (errM (Sentinel ErrIdempotencyInProgress))
             | ClaimStarted \<Rightarrow> run_claimed store c (ir_id (cr_Record claim)) execute))))"

definition ExecuteIdempotent :: "idempotency_service option \<Rightarrow> 'a json_codec \<Rightarrow> idempotency_options \<Rightarrow>
    ('a option \<times> int) app \<Rightarrow> 'a idempotency_execution app" where
  "ExecuteIdempotent svc0 c opts execute =
     (case (svc0, Option.bind svc0 iv_store) of
        (Some svc, Some store) \<Rightarrow>
          if TrimSpace (io_IdempotencyKey opts) = '''' then
            if io_RequireKey opts then errM (Sentinel ErrIdempotencyKeyRequired)
            else bindM execute (\<lambda>(data, status). retM (fresh_execution data (or_200 status)))
          else if TrimSpace (io_Scope opts) = '''' then
            thenM (emit (RecordIdempotency ''store_unavailable''))
              (errM (WrapText (Sentinel ErrIdempotencyStoreUnavailable) ''scope is required''))
          else guarded svc store c opts execute
      | _ \<Rightarrow> thenM (emit (RecordIdempotency ''store_unavailable'')) (errM (Sentinel ErrIdempotencyStoreUnavailable)))"

section \<open>What the service relies on\<close>

text \<open>
  The decision of \<open>Claim\<close> for a request, given the record that is stored under its scope
  and key: the specification of the transaction.
\<close>

definition claim_decision :: "claim_params \<Rightarrow> idempotency_record option \<Rightarrow> claim_status" where
  "claim_decision p found = (case found of
     None \<Rightarrow> ClaimStarted
   | Some r \<Rightarrow>
       if ir_fingerprint r \<noteq> cp_Fingerprint p then ClaimConflict
       else if ir_status r = IdemSucceeded then ClaimReplayed
       else if ir_status r = IdemProcessing \<and> still_locked r (cp_Now p) then ClaimProcessing
       else ClaimStarted)"

text \<open>A record as a started claim leaves it, and as a successful execution leaves it.\<close>

definition started_by :: "claim_params \<Rightarrow> idempotency_record \<Rightarrow> bool" where
  "started_by p r \<longleftrightarrow> ir_status r = IdemProcessing \<and> ir_fingerprint r = cp_Fingerprint p \<and>
     ir_locked_until r = Some (cp_LockedUntil p)"

definition succeeded_with :: "string \<Rightarrow> int \<Rightarrow> bytes \<Rightarrow> idempotency_record \<Rightarrow> bool" where
  "succeeded_with fingerprint status body r \<longleftrightarrow> ir_status r = IdemSucceeded \<and>
     ir_fingerprint r = fingerprint \<and> ir_response_status r = Some status \<and> ir_response_body r = body"

text \<open>
  What other requests may do meanwhile: claim (if \<open>may p\<close>), complete executions of their own
  records, and anything that leaves the table alone. \<open>i\<close> is the record of this request.
\<close>

inductive store_step :: "idempotency_store \<Rightarrow> (claim_params \<Rightarrow> bool) \<Rightarrow> uuid \<Rightarrow> world \<Rightarrow> world \<Rightarrow> bool"
  for store may i where
  other_claim: "may p \<Longrightarrow> store_step store may i w (snd (is_Claim store p w))"
| other_succeeded: "j \<noteq> i \<Longrightarrow> store_step store may i w (snd (is_MarkSucceeded store j status body t w))"
| other_failed: "j \<noteq> i \<Longrightarrow> store_step store may i w (snd (is_MarkFailed store j reason t w))"
| elsewhere: "idempotency_records (db w') = idempotency_records (db w) \<Longrightarrow> store_step store may i w w'"

text \<open>
  Package encoding/json with the \<open>jsonb\<close> cast: an encoding is not empty, what is stored for it
  decodes to the value again, and a null leaves the zero value.
\<close>

definition codec_documented :: "(bytes \<Rightarrow> bytes option) \<Rightarrow> 'a json_codec \<Rightarrow> bool" where
  "codec_documented jsonb c \<longleftrightarrow> (\<forall>x body. jc_Marshal c x = Inr body \<longrightarrow> body \<noteq> [] \<and>
     (\<forall>b. jsonb body = Some b \<longrightarrow> b \<noteq> [] \<and>
        jc_Unmarshal c b = Inr (case x of None \<Rightarrow> jc_zero c | Some d \<Rightarrow> d)))"

definition data_or_zero :: "'a json_codec \<Rightarrow> 'a idempotency_execution \<Rightarrow> 'a" where
  "data_or_zero c x = (case ie_Data x of None \<Rightarrow> jc_zero c | Some d \<Rightarrow> d)"

definition key_hash :: "idempotency_service \<Rightarrow> idempotency_options \<Rightarrow> string" where
  "key_hash svc opts = HashIdempotencyKey (iv_Sum256 svc) (TrimSpace (io_IdempotencyKey opts))"

text \<open>
  The answer to a request whose key was completed with data \<open>d\<close> and \<open>status\<close>: the stored
  response if the payload is the same, an error otherwise, or that the store is unavailable.
\<close>

definition replay_answer :: "bool \<Rightarrow> 'a \<Rightarrow> int \<Rightarrow> goerr + 'a idempotency_execution \<Rightarrow> bool" where
  "replay_answer same d status res = (case res of
     Inl e \<Rightarrow> \<not> same \<or> errIs e ErrIdempotencyStoreUnavailable
   | Inr y \<Rightarrow> same \<and> ie_Replayed y \<and> ie_Data y = Some d \<and> ie_ResponseStatus y = (if 0 < status then status else 200))"

lemma run_claimed_ok:
  assumes "run_claimed store c i execute w = (Inr x, w')"
  shows "\<exists>data status0 v b u. execute w = (Inr (data, status0), v) \<and> jc_Marshal c data = Inr b \<and>
    is_MarkSucceeded store i (or_200 status0) b (now (tick v)) (tick v) = (Inr u, w') \<and>
    x = fresh_execution data (or_200 status0)"
proof -
  obtain data status0 v where ex: "execute w = (Inr (data, status0), v)"
    and rest: "(case jc_Marshal c data of
        Inl e \<Rightarrow> thenM (mark_failed store i e) (errM (Wrap ''encode idempotency response'' e))
      | Inr b \<Rightarrow> bindM time_Now (\<lambda>t.
          bindM (tryM (is_MarkSucceeded store i (or_200 status0) b t)) (\<lambda>r. case r of
            Inl e \<Rightarrow> store_unavailable e
          | Inr u \<Rightarrow> retM (fresh_execution data (or_200 status0))))) v = (Inr x, w')"
    using assms unfolding run_claimed_def catch_Inr_iff by (auto simp: thenM_Inr_iff)
  obtain b where b: "jc_Marshal c data = Inr b"
    using rest by (cases "jc_Marshal c data") (auto simp: thenM_Inr_iff)
  have "bindM (tryM (is_MarkSucceeded store i (or_200 status0) b (now (tick v)))) (\<lambda>r. case r of
      Inl e \<Rightarrow> store_unavailable e | Inr u \<Rightarrow> retM (fresh_execution data (or_200 status0))) (tick v) = (Inr x, w')"
    using rest by (simp add: b bindM_time_Now)
  then have "\<exists>u. is_MarkSucceeded store i (or_200 status0) b (now (tick v)) (tick v) = (Inr u, w') \<and> x = fresh_execution data (or_200 status0)"
    unfolding catch_Inr_iff by (auto simp: store_unavailable_def thenM_Inr_iff)
  with ex b show ?thesis
    by blast
qed

locale idempotency_contract =
  fixes store :: idempotency_store
    and entry :: "world \<Rightarrow> string \<Rightarrow> string \<Rightarrow> idempotency_record option"
    and invar :: "world \<Rightarrow> bool"
    and stored_body :: "bytes \<Rightarrow> bytes option"
  assumes frame: "idempotency_records (db w') = idempotency_records (db w) \<Longrightarrow> entry w' = entry w \<and> invar w' = invar w"
    and invar_claim: "invar w \<Longrightarrow> invar (snd (is_Claim store p w))"
    and invar_succeeded: "invar w \<Longrightarrow> invar (snd (is_MarkSucceeded store i status body t w))"
    and invar_failed: "invar w \<Longrightarrow> invar (snd (is_MarkFailed store i reason t w))"
    and claim_decides: "invar w \<Longrightarrow> is_Claim store p w = (Inr res, w') \<Longrightarrow>
      cr_Status res = claim_decision p (entry w (cp_Scope p) (cp_KeyHash p)) \<and>
      (if cr_Status res = ClaimStarted then started_by p (cr_Record res)
       else entry w (cp_Scope p) (cp_KeyHash p) = Some (cr_Record res) \<and> db w' = db w)"
    and claim_entry: "invar w \<Longrightarrow> is_Claim store p w = (Inr res, w') \<Longrightarrow>
      entry w' scope hash = (if scope = cp_Scope p \<and> hash = cp_KeyHash p then Some (cr_Record res) else entry w scope hash)"
    and claim_error: "is_Claim store p w = (Inl e, w') \<Longrightarrow> db w' = db w"
    and succeeded_entry: "is_MarkSucceeded store i status body t w = (Inr u, w') \<Longrightarrow> entry w scope hash = Some r \<Longrightarrow> ir_id r = i \<Longrightarrow>
      body \<noteq> [] \<Longrightarrow> \<exists>b r'. stored_body body = Some b \<and> entry w' scope hash = Some r' \<and> ir_id r' = i \<and> succeeded_with (ir_fingerprint r) status b r'"
    and mark_other: "entry w scope hash = Some r \<Longrightarrow> ir_id r \<noteq> i \<Longrightarrow>
      entry (snd (is_MarkSucceeded store i status body t w)) scope hash = Some r \<and>
      entry (snd (is_MarkFailed store i reason t w)) scope hash = Some r"
begin

text \<open>A record that every step of the others keeps, as long as their claims leave it.\<close>

lemma entry_kept:
  assumes "store_step store may i w w'" and "invar w" and "entry w scope hash = Some r" and "ir_id r = i"
    and "\<And>p. may p \<Longrightarrow> cp_Scope p = scope \<Longrightarrow> cp_KeyHash p = hash \<Longrightarrow> claim_decision p (Some r) \<noteq> ClaimStarted"
  shows "invar w' \<and> entry w' scope hash = Some r"
  using assms(1)
proof (cases rule: store_step.cases)
  case (other_claim p)
  obtain res v where run: "is_Claim store p w = (res, v)"
    by (cases "is_Claim store p w")
  show ?thesis
  proof (cases res)
    case (Inl e)
    then have "db v = db w"
      using claim_error run by simp
    with run other_claim assms(2,3) show ?thesis
      using frame [of v w] by simp
  next
    case (Inr c)
    with run have ok: "is_Claim store p w = (Inr c, v)"
      by simp
    have "entry v scope hash = Some r"
    proof (cases "scope = cp_Scope p \<and> hash = cp_KeyHash p")
      case True
      with assms(3,5) other_claim have "claim_decision p (entry w (cp_Scope p) (cp_KeyHash p)) \<noteq> ClaimStarted"
        by auto
      with True assms(2,3) show ?thesis
        using claim_decides [OF _ ok] claim_entry [OF _ ok] by auto
    next
      case False
      with assms(2,3) show ?thesis
        using claim_entry [OF _ ok] by auto
    qed
    with ok other_claim assms(2) show ?thesis
      using invar_claim [of w p] by simp
  qed
next
  case elsewhere
  from frame [OF this] assms(2,3) show ?thesis
    by simp
next
  case (other_succeeded j status body t)
  have "entry w' scope hash = Some r"
    unfolding other_succeeded(1) by (rule mark_other [OF assms(3), THEN conjunct1]) (simp add: other_succeeded(2) [symmetric] assms(4))
  moreover have "invar w'"
    unfolding other_succeeded(1) by (rule invar_succeeded [OF assms(2)])
  ultimately show ?thesis
    by simp
next
  case (other_failed j reason t)
  have "entry w' scope hash = Some r"
    unfolding other_failed(1) by (rule mark_other [OF assms(3), THEN conjunct2]) (simp add: other_failed(2) [symmetric] assms(4))
  moreover have "invar w'"
    unfolding other_failed(1) by (rule invar_failed [OF assms(2)])
  ultimately show ?thesis
    by simp
qed

lemma entry_kept_reach:
  assumes "(store_step store may i)\<^sup>*\<^sup>* w w'" and "invar w" and "entry w scope hash = Some r" and "ir_id r = i"
    and "\<And>p. may p \<Longrightarrow> cp_Scope p = scope \<Longrightarrow> cp_KeyHash p = hash \<Longrightarrow> claim_decision p (Some r) \<noteq> ClaimStarted"
  shows "invar w' \<and> entry w' scope hash = Some r"
  using assms(1) by (induction rule: rtranclp_induct) (use assms(2-) entry_kept in blast)+

text \<open>While the lock of a started claim holds, nobody else starts on the same scope and key.\<close>

lemma running_excludes:
  assumes "invar w" and "is_Claim store p w = (Inr res, w1)" and "cr_Status res = ClaimStarted"
    and "(store_step store (\<lambda>q. cp_Now q < cp_LockedUntil p) (ir_id (cr_Record res)))\<^sup>*\<^sup>* w1 w2"
    and "cp_Scope q = cp_Scope p" and "cp_KeyHash q = cp_KeyHash p" and "cp_Now q < cp_LockedUntil p"
    and "is_Claim store q w2 = (Inr res', w3)"
  shows "cr_Status res' = (if cp_Fingerprint q = cp_Fingerprint p then ClaimProcessing else ClaimConflict)"
proof -
  let ?r = "cr_Record res"
  have r: "started_by p ?r" "entry w1 (cp_Scope p) (cp_KeyHash p) = Some ?r" "invar w1"
    using claim_decides [OF assms(1,2)] claim_entry [OF assms(1,2)] invar_claim [OF assms(1), of p] assms(2,3) by auto
  have "claim_decision p' (Some ?r) \<noteq> ClaimStarted" if "cp_Now p' < cp_LockedUntil p" for p'
    using r(1) that by (simp add: claim_decision_def started_by_def still_locked_def)
  from entry_kept_reach [OF assms(4) r(3,2) refl this] have "invar w2" and row: "entry w2 (cp_Scope p) (cp_KeyHash p) = Some ?r"
    by auto
  have "claim_decision q (Some ?r) = (if cp_Fingerprint q = cp_Fingerprint p then ClaimProcessing else ClaimConflict)"
    using r(1) assms(7) by (simp add: claim_decision_def started_by_def still_locked_def)
  with claim_decides [OF \<open>invar w2\<close> assms(8)] row assms(5,6) show ?thesis
    by simp
qed

text \<open>A completed execution decides every later claim.\<close>

lemma finished_claims:
  assumes "invar w" and "entry w (cp_Scope q) (cp_KeyHash q) = Some r" and "succeeded_with fingerprint status body r"
    and "(store_step store may (ir_id r))\<^sup>*\<^sup>* w w2" and "is_Claim store q w2 = (Inr res, w3)"
  shows "cr_Status res = (if cp_Fingerprint q = fingerprint then ClaimReplayed else ClaimConflict) \<and>
    cr_Record res = r \<and> db w3 = db w2"
proof -
  have "claim_decision p' (Some r) \<noteq> ClaimStarted" for p'
    using assms(3) by (simp add: claim_decision_def succeeded_with_def)
  from entry_kept_reach [OF assms(4,1,2) refl this] have "invar w2" and row: "entry w2 (cp_Scope q) (cp_KeyHash q) = Some r"
    by auto
  have "claim_decision q (Some r) = (if cp_Fingerprint q = fingerprint then ClaimReplayed else ClaimConflict)"
    using assms(3) by (simp add: claim_decision_def succeeded_with_def)
  with claim_decides [OF \<open>invar w2\<close> assms(5)] row show ?thesis
    by (simp split: if_splits)
qed

text \<open>The client: what \<open>ExecuteIdempotent\<close> leaves after a fresh execution, and what it answers then.\<close>

lemma executed_entry:
  assumes "invar w" and "codec_documented stored_body c"
    and keeps: "\<And>v. idempotency_records (db (snd (execute v))) = idempotency_records (db v)"
    and run: "guarded svc store c opts execute w = (Inr x, w1)" and "\<not> ie_Replayed x"
    and fp: "FingerprintPayload (iv_Sum256 svc) (io_Payload opts) = Inr f"
  shows "\<exists>body r. invar w1 \<and> entry w1 (TrimSpace (io_Scope opts)) (key_hash svc opts) = Some r \<and>
    succeeded_with f (ie_ResponseStatus x) body r \<and> body \<noteq> [] \<and> jc_Unmarshal c body = Inr (data_or_zero c x)"
proof -
  let ?p = "claim_params_of svc opts f (now (tick w))"
  obtain claim v where claim: "is_Claim store ?p (tick w) = (Inr claim, v)"
    and started: "cr_Status claim = ClaimStarted" and body: "run_claimed store c (ir_id (cr_Record claim)) execute v = (Inr x, w1)"
  proof -
    have "bindM (tryM (is_Claim store ?p)) (\<lambda>r. case r of
        Inl e \<Rightarrow> store_unavailable e
      | Inr claim \<Rightarrow> (case cr_Status claim of
           ClaimReplayed \<Rightarrow> replay c (cr_Record claim)
         | ClaimConflict \<Rightarrow> thenM (emit (RecordIdempotency ''conflict'')) (errM (Sentinel ErrIdempotencyConflict))
         | ClaimProcessing \<Rightarrow> thenM (emit (RecordIdempotency ''in_progress'')) (errM (Sentinel ErrIdempotencyInProgress))
         | ClaimStarted \<Rightarrow> run_claimed store c (ir_id (cr_Record claim)) execute)) (tick w) = (Inr x, w1)"
      using run unfolding guarded_def fp sum.case by (simp add: bindM_time_Now)
    then obtain claim v where claim: "is_Claim store ?p (tick w) = (Inr claim, v)"
      and answer: "(case cr_Status claim of
           ClaimReplayed \<Rightarrow> replay c (cr_Record claim)
         | ClaimConflict \<Rightarrow> thenM (emit (RecordIdempotency ''conflict'')) (errM (Sentinel ErrIdempotencyConflict))
         | ClaimProcessing \<Rightarrow> thenM (emit (RecordIdempotency ''in_progress'')) (errM (Sentinel ErrIdempotencyInProgress))
         | ClaimStarted \<Rightarrow> run_claimed store c (ir_id (cr_Record claim)) execute) v = (Inr x, w1)"
      unfolding catch_Inr_iff by (auto simp: thenM_Inr_iff store_unavailable_def)
    show thesis
      using that claim answer assms(5) by (cases "cr_Status claim") (auto simp: run_ok replay_def)
  qed
  have "invar (tick w)"
    using assms(1) frame [of "tick w" w] by simp
  note decided = claim_decides [OF this claim] claim_entry [OF this claim] invar_claim [OF this, of ?p]
  have v: "invar v" "entry v (TrimSpace (io_Scope opts)) (key_hash svc opts) = Some (cr_Record claim)" "ir_fingerprint (cr_Record claim) = f"
    using decided claim started by (auto simp: started_by_def claim_params_of_def Let_def key_hash_def)
  obtain data status0 v1 b u where ex: "execute v = (Inr (data, status0), v1)" and enc: "jc_Marshal c data = Inr b"
    and mark: "is_MarkSucceeded store (ir_id (cr_Record claim)) (or_200 status0) b (now (tick v1)) (tick v1) = (Inr u, w1)"
    and x: "x = fresh_execution data (or_200 status0)"
    using run_claimed_ok [OF body] by blast
  have "idempotency_records (db (tick v1)) = idempotency_records (db v)"
    using keeps [of v] ex by simp
  from frame [OF this] v have v1: "invar (tick v1)" "entry (tick v1) (TrimSpace (io_Scope opts)) (key_hash svc opts) = Some (cr_Record claim)"
    by simp_all
  have "b \<noteq> []"
    using assms(2) enc by (auto simp: codec_documented_def)
  from succeeded_entry [OF mark v1(2) refl this] obtain b' r where b': "stored_body b = Some b'"
    "entry w1 (TrimSpace (io_Scope opts)) (key_hash svc opts) = Some r" "succeeded_with (ir_fingerprint (cr_Record claim)) (or_200 status0) b' r"
    by blast
  moreover have "invar w1"
    using invar_succeeded [OF v1(1)] mark by (metis snd_conv)
  moreover have "b' \<noteq> [] \<and> jc_Unmarshal c b' = Inr (data_or_zero c x)"
    using assms(2) enc b'(1) unfolding codec_documented_def x fresh_execution_def data_or_zero_def
    by (cases data) auto
  ultimately show ?thesis
    using v(3) x by (auto simp: fresh_execution_def)
qed

lemma guarded_replays:
  assumes "invar w" and "entry w (TrimSpace (io_Scope opts)) (key_hash svc opts) = Some r"
    and "succeeded_with f status body r" and "body \<noteq> []" and "jc_Unmarshal c body = Inr d"
    and "(store_step store may (ir_id r))\<^sup>*\<^sup>* w w2"
  shows "\<exists>res w3. (\<forall>execute. guarded svc store c opts execute w2 = (res, w3)) \<and> db w3 = db w2 \<and>
    replay_answer (FingerprintPayload (iv_Sum256 svc) (io_Payload opts) = Inr f) d status res"
proof (cases "FingerprintPayload (iv_Sum256 svc) (io_Payload opts)")
  case (Inl e)
  then show ?thesis
    by (auto simp: guarded_def replay_answer_def)
next
  case (Inr f')
  let ?p = "claim_params_of svc opts f' (now (tick w2))"
  have params: "cp_Scope ?p = TrimSpace (io_Scope opts)" "cp_KeyHash ?p = key_hash svc opts" "cp_Fingerprint ?p = f'"
    by (simp_all add: claim_params_of_def Let_def key_hash_def)
  have reach: "(store_step store may (ir_id r))\<^sup>*\<^sup>* w (tick w2)"
    using assms(6) by (rule rtranclp.rtrancl_into_rtrancl) (rule elsewhere, simp)
  obtain ans v where claim: "is_Claim store ?p (tick w2) = (ans, v)"
    by (cases "is_Claim store ?p (tick w2)")
  have run: "guarded svc store c opts execute w2 = (case ans of
      Inl e \<Rightarrow> store_unavailable e v
    | Inr cl \<Rightarrow> (case cr_Status cl of
         ClaimReplayed \<Rightarrow> replay c (cr_Record cl) v
       | ClaimConflict \<Rightarrow> thenM (emit (RecordIdempotency ''conflict'')) (errM (Sentinel ErrIdempotencyConflict)) v
       | ClaimProcessing \<Rightarrow> thenM (emit (RecordIdempotency ''in_progress'')) (errM (Sentinel ErrIdempotencyInProgress)) v
       | ClaimStarted \<Rightarrow> run_claimed store c (ir_id (cr_Record cl)) execute v))" for execute
    unfolding guarded_def Inr sum.case bindM_time_Now bindM_tryM [where m = "is_Claim store ?p" and s = "tick w2", OF claim]
    by (simp split: sum.split claim_status.split)
  show ?thesis
  proof (cases ans)
    case (Inl e)
    then show ?thesis
      unfolding run using claim_error claim
      by (auto simp: store_unavailable_def run_defs emit_def replay_answer_def)
  next
    case (Inr cl)
    with claim have ok: "is_Claim store ?p (tick w2) = (Inr cl, v)"
      by simp
    have row: "entry w (cp_Scope ?p) (cp_KeyHash ?p) = Some r"
      using assms(2) params by simp
    from finished_claims [OF assms(1) row assms(3) reach ok]
    have "cr_Status cl = (if f' = f then ClaimReplayed else ClaimConflict)" "cr_Record cl = r" "db v = db w2"
      using params(3) by simp_all
    then show ?thesis
      unfolding run Inr sum.case using assms(3-5) \<open>FingerprintPayload _ _ = Inr f'\<close>
      by (auto simp: replay_def run_defs emit_def replay_answer_def succeeded_with_def)
  qed
qed

end

section \<open>The repository provides it\<close>

definition idem_wf :: "db \<Rightarrow> bool" where
  "idem_wf d \<longleftrightarrow> distinct (map ir_id (idempotency_records d)) \<and>
     distinct (map (\<lambda>r. (ir_scope r, ir_key_hash r)) (idempotency_records d))"

lemma stored_update:
  assumes "\<And>r. ir_scope (f r) = ir_scope r" and "\<And>r. ir_key_hash (f r) = ir_key_hash r"
  shows "getIdempotencyForUpdate scope hash (d\<lparr>idempotency_records := update_where (\<lambda>r. ir_id r = i) f (idempotency_records d)\<rparr>) =
    map_option (\<lambda>r. if ir_id r = i then f r else r) (getIdempotencyForUpdate scope hash d)"
  unfolding getIdempotencyForUpdate_def update_where_def using assms by (simp add: find_map_other)

lemma idem_wf_update:
  assumes "idem_wf d" and "\<And>r. ir_id (f r) = ir_id r \<and> ir_scope (f r) = ir_scope r \<and> ir_key_hash (f r) = ir_key_hash r"
  shows "idem_wf (d\<lparr>idempotency_records := update_where P f (idempotency_records d)\<rparr>)"
proof -
  have "map ir_id (update_where P f rows) = map ir_id rows"
    and "map (\<lambda>r. (ir_scope r, ir_key_hash r)) (update_where P f rows) = map (\<lambda>r. (ir_scope r, ir_key_hash r)) rows" for rows
    using assms(2) by (auto intro!: map_update_where)
  with assms(1) show ?thesis
    by (simp add: idem_wf_def)
qed

lemma reclaim_stored:
  assumes "idem_wf d" and r: "getIdempotencyForUpdate scope0 hash0 d = Some r"
    and reclaim: "reclaimIdempotency (ir_id r) p t d = Inr (r', d')"
  shows "r' = reclaimed p t r \<and> idem_wf d' \<and>
    getIdempotencyForUpdate scope hash d' =
      (if scope = scope0 \<and> hash = hash0 then Some r' else getIdempotencyForUpdate scope hash d)"
proof -
  have in_r: "r \<in> set (idempotency_records d)" "ir_scope r = scope0" "ir_key_hash r = hash0"
    using find_Some_in [OF r [unfolded getIdempotencyForUpdate_def]] by auto
  have same: "x = r" if "x \<in> set (idempotency_records d)" "ir_id x = ir_id r" for x
    using that in_r(1) assms(1) by (auto simp: idem_wf_def distinct_map inj_on_def)
  have "filter (\<lambda>x. ir_id x = ir_id r) (idempotency_records d) \<noteq> []"
    using in_r(1) by (auto simp: filter_empty_conv)
  then obtain x xs where hits: "filter (\<lambda>x. ir_id x = ir_id r) (idempotency_records d) = x # xs"
    by (cases "filter (\<lambda>x. ir_id x = ir_id r) (idempotency_records d)") auto
  then have "x \<in> set (filter (\<lambda>x. ir_id x = ir_id r) (idempotency_records d))"
    by simp
  then have "x = r"
    using same [of x] by simp
  then have r': "r' = reclaimed p t r"
    and d': "d' = d\<lparr>idempotency_records := update_where (\<lambda>x. ir_id x = ir_id r) (reclaimed p t) (idempotency_records d)\<rparr>"
    using reclaim hits by (simp_all add: reclaimIdempotency_def returning_def)
  have "getIdempotencyForUpdate scope hash d' =
      map_option (\<lambda>x. if ir_id x = ir_id r then reclaimed p t x else x) (getIdempotencyForUpdate scope hash d)"
    unfolding d' by (rule stored_update) (simp_all add: reclaimed_def)
  moreover have "ir_id x = ir_id r \<longleftrightarrow> scope = scope0 \<and> hash = hash0" if "getIdempotencyForUpdate scope hash d = Some x" for x
  proof
    have x: "x \<in> set (idempotency_records d)" "ir_scope x = scope" "ir_key_hash x = hash"
      using find_Some_in [OF that [unfolded getIdempotencyForUpdate_def]] by auto
    show "scope = scope0 \<and> hash = hash0" if "ir_id x = ir_id r"
      using same [OF x(1) that] x in_r by simp
    show "ir_id x = ir_id r" if "scope = scope0 \<and> hash = hash0"
      using that r \<open>getIdempotencyForUpdate scope hash d = Some x\<close> by simp
  qed
  ultimately have "getIdempotencyForUpdate scope hash d' =
      (if scope = scope0 \<and> hash = hash0 then Some r' else getIdempotencyForUpdate scope hash d)"
    using r r' by (cases "getIdempotencyForUpdate scope hash d") auto
  moreover have "idem_wf d'"
    unfolding d' by (rule idem_wf_update [OF assms(1)]) (simp add: reclaimed_def)
  ultimately show ?thesis
    using r' by simp
qed

lemma insert_stored:
  assumes "idem_wf d" and "insertProcessingIdempotency p t d = Inr (found, d')"
  shows "case found of
      None \<Rightarrow> d' = d \<and> getIdempotencyForUpdate (cp_Scope p) (cp_KeyHash p) d \<noteq> None
    | Some r \<Rightarrow> started_by p r \<and> idem_wf d' \<and> getIdempotencyForUpdate (cp_Scope p) (cp_KeyHash p) d = None \<and>
        (\<forall>scope hash. getIdempotencyForUpdate scope hash d' =
           (if scope = cp_Scope p \<and> hash = cp_KeyHash p then Some r else getIdempotencyForUpdate scope hash d))"
proof (cases "\<exists>r \<in> set (idempotency_records d). ir_scope r = cp_Scope p \<and> ir_key_hash r = cp_KeyHash p")
  case True
  with assms(2) have "found = None" "d' = d"
    by (simp_all add: insertProcessingIdempotency_def)
  with True show ?thesis
    by (auto simp: getIdempotencyForUpdate_def find_None_iff)
next
  case False
  then have none: "getIdempotencyForUpdate (cp_Scope p) (cp_KeyHash p) d = None"
    by (auto simp: getIdempotencyForUpdate_def find_None_iff)
  obtain r where r: "found = Some r" "started_by p r" "ir_scope r = cp_Scope p" "ir_key_hash r = cp_KeyHash p"
    and rows: "idempotency_records d' = idempotency_records d @ [r]" and fresh: "\<forall>x \<in> set (idempotency_records d). ir_id x \<noteq> ir_id r"
    using assms(2) False
    by (auto simp: insertProcessingIdempotency_def gen_random_uuid_def Let_def started_by_def split: if_splits)
  have "getIdempotencyForUpdate scope hash d' =
      (if scope = cp_Scope p \<and> hash = cp_KeyHash p then Some r else getIdempotencyForUpdate scope hash d)" for scope hash
    using none r by (auto simp: getIdempotencyForUpdate_def rows find_append split: option.split)
  moreover have "idem_wf d'"
    using assms(1) fresh False r by (auto simp: idem_wf_def rows)
  ultimately show ?thesis
    using r none by simp
qed

lemma claim_tx_stored:
  assumes "idem_wf d" and "claim_tx p t d = Inr (res, d')"
  shows "cr_Status res = claim_decision p (getIdempotencyForUpdate (cp_Scope p) (cp_KeyHash p) d) \<and>
    (if cr_Status res = ClaimStarted then started_by p (cr_Record res)
     else getIdempotencyForUpdate (cp_Scope p) (cp_KeyHash p) d = Some (cr_Record res) \<and> d' = d) \<and>
    idem_wf d' \<and> (\<forall>scope hash. getIdempotencyForUpdate scope hash d' =
       (if scope = cp_Scope p \<and> hash = cp_KeyHash p then Some (cr_Record res) else getIdempotencyForUpdate scope hash d))"
proof -
  obtain found d1 where ins: "insertProcessingIdempotency p t d = Inr (found, d1)"
    using assms(2) by (auto simp: claim_tx_def split: sum.splits)
  show ?thesis
  proof (cases found)
    case (Some r)
    then have "res = \<lparr>cr_Status = ClaimStarted, cr_Record = r\<rparr>" and "d' = d1"
      using assms(2) ins by (simp_all add: claim_tx_def)
    with insert_stored [OF assms(1) ins] Some show ?thesis
      by (simp add: claim_decision_def)
  next
    case None
    then obtain r where d1: "d1 = d" and r: "getIdempotencyForUpdate (cp_Scope p) (cp_KeyHash p) d = Some r"
      using insert_stored [OF assms(1) ins] by auto
    note tx = assms(2) [unfolded claim_tx_def ins None d1, simplified, unfolded r, simplified]
    show ?thesis
    proof (cases "claim_decision p (Some r) = ClaimStarted")
      case False
      then have "res = \<lparr>cr_Status = claim_decision p (Some r), cr_Record = r\<rparr>" and "d' = d"
        using tx by (auto simp: claim_decision_def split: if_splits)
      with False r assms(1) show ?thesis
        by simp
    next
      case True
      then obtain r' where re: "reclaimIdempotency (ir_id r) p t d = Inr (r', d')"
        and res: "res = \<lparr>cr_Status = ClaimStarted, cr_Record = r'\<rparr>" and fp: "ir_fingerprint r = cp_Fingerprint p"
        using tx by (auto simp: claim_decision_def split: if_splits sum.splits)
      have "started_by p r'"
        using reclaim_stored [OF assms(1) r re] fp by (simp add: reclaimed_def started_by_def)
      then show ?thesis
        using reclaim_stored [OF assms(1) r re] res r True by simp
    qed
  qed
qed

lemma MarkSucceeded_run:
  "Idempotency_MarkSucceeded jsonb i status body t w = (Inr u, w') \<Longrightarrow>
     \<exists>b t'. jsonb (if body = [] then ''{}'' else body) = Some b \<and>
       db w' = update_record i (\<lambda>r. r\<lparr>ir_status := IdemSucceeded, ir_locked_until := None,
         ir_response_status := Some status, ir_response_body := b, ir_error_reason := ''''\<rparr>) t' (db w)"
  by (auto simp: Idempotency_MarkSucceeded_def execM_ok split: option.splits if_splits)

lemma mark_update:
  "\<exists>f t'. db (snd (Idempotency_MarkSucceeded jsonb i status body t w)) \<in> {db w, update_record i f t' (db w)} \<and>
     (\<forall>r. ir_id (f r) = ir_id r \<and> ir_scope (f r) = ir_scope r \<and> ir_key_hash (f r) = ir_key_hash r)"
  "\<exists>f t'. db (snd (Idempotency_MarkFailed i reason t w)) \<in> {db w, update_record i f t' (db w)} \<and>
     (\<forall>r. ir_id (f r) = ir_id r \<and> ir_scope (f r) = ir_scope r \<and> ir_key_hash (f r) = ir_key_hash r)"
proof -
  show "\<exists>f t'. db (snd (Idempotency_MarkFailed i reason t w)) \<in> {db w, update_record i f t' (db w)} \<and>
     (\<forall>r. ir_id (f r) = ir_id r \<and> ir_scope (f r) = ir_scope r \<and> ir_key_hash (f r) = ir_key_hash r)"
    by (rule exI [of _ "\<lambda>r. r\<lparr>ir_status := IdemFailed, ir_locked_until := None, ir_error_reason := trimFailureReason reason\<rparr>"])
      (auto simp: Idempotency_MarkFailed_def wrapM_def execM_def Let_def)
  let ?body = "if body = [] then ''{}'' else body"
  show "\<exists>f t'. db (snd (Idempotency_MarkSucceeded jsonb i status body t w)) \<in> {db w, update_record i f t' (db w)} \<and>
     (\<forall>r. ir_id (f r) = ir_id r \<and> ir_scope (f r) = ir_scope r \<and> ir_key_hash (f r) = ir_key_hash r)"
    by (rule exI [of _ "\<lambda>r. r\<lparr>ir_status := IdemSucceeded, ir_locked_until := None, ir_response_status := Some status,
        ir_response_body := the (jsonb ?body), ir_error_reason := ''''\<rparr>"])
      (auto simp: Idempotency_MarkSucceeded_def wrapM_def execM_def Let_def split: option.split)
qed

definition stored_entry :: "world \<Rightarrow> string \<Rightarrow> string \<Rightarrow> idempotency_record option" where
  "stored_entry w scope hash = getIdempotencyForUpdate scope hash (db w)"

lemma stored_entry_update:
  assumes "\<forall>r. ir_id (f r) = ir_id r \<and> ir_scope (f r) = ir_scope r \<and> ir_key_hash (f r) = ir_key_hash r"
  shows "getIdempotencyForUpdate scope hash (update_record i f t d) =
    map_option (\<lambda>r. if ir_id r = i then (f r)\<lparr>ir_updated_at := t\<rparr> else r) (getIdempotencyForUpdate scope hash d)"
  unfolding update_record_def by (rule stored_update) (simp_all add: assms)

lemma idem_wf_update_record:
  assumes "idem_wf d" and "\<forall>r. ir_id (f r) = ir_id r \<and> ir_scope (f r) = ir_scope r \<and> ir_key_hash (f r) = ir_key_hash r"
  shows "idem_wf (update_record i f t d)"
  unfolding update_record_def by (rule idem_wf_update [OF assms(1)]) (simp add: assms(2))

lemma mark_wf:
  "idem_wf (db w) \<Longrightarrow> idem_wf (db (snd (Idempotency_MarkSucceeded jsonb i status body t w)))"
  "idem_wf (db w) \<Longrightarrow> idem_wf (db (snd (Idempotency_MarkFailed i reason t w)))"
  using mark_update(1) [of jsonb i status body t w] mark_update(2) [of i reason t w] idem_wf_update_record by auto

lemma mark_spares:
  assumes "stored_entry w scope hash = Some r" and "ir_id r \<noteq> i"
  shows "stored_entry (snd (Idempotency_MarkSucceeded jsonb i status body t w)) scope hash = Some r"
    and "stored_entry (snd (Idempotency_MarkFailed i reason t w)) scope hash = Some r"
  using mark_update(1) [of jsonb i status body t w] mark_update(2) [of i reason t w] assms
  by (auto simp: stored_entry_def stored_entry_update)

interpretation repo: idempotency_contract "idempotency_repo jsonb" stored_entry "\<lambda>w. idem_wf (db w)"
    "\<lambda>b. jsonb b" for jsonb
proof unfold_locales
  fix w w' :: world and p :: claim_params and i t reason scope hash r status body u e
    and res :: claim_result
  note repo_ops = idempotency_repo_def idempotency_store.simps
  show "stored_entry w' = stored_entry w \<and> idem_wf (db w') = idem_wf (db w)"
    if "idempotency_records (db w') = idempotency_records (db w)"
    using that by (simp add: stored_entry_def getIdempotencyForUpdate_def idem_wf_def fun_eq_iff)
  have claim: "idem_wf (db v')" if "idem_wf (db v)" "Idempotency_Claim p v = (x, v')" for x v v'
  proof (cases x)
    case (Inl e)
    with that show ?thesis
      using exec_error_db [of "claim_tx p" v e v'] by (simp add: Idempotency_Claim_def)
  next
    case (Inr c)
    with that obtain d' where "claim_tx p (now (tick v)) (db v) = Inr (c, d')" and "db v' = d'"
      by (auto simp: Idempotency_Claim_def execM_ok)
    with claim_tx_stored [OF that(1)] show ?thesis
      by simp
  qed
  show "idem_wf (db (snd (is_Claim (idempotency_repo jsonb) p w)))" if "idem_wf (db w)"
    unfolding repo_ops by (rule claim [OF that prod.collapse [symmetric]])
  show "idem_wf (db (snd (is_MarkSucceeded (idempotency_repo jsonb) i status body t w)))" if "idem_wf (db w)"
    unfolding repo_ops by (rule mark_wf(1) [OF that])
  show "idem_wf (db (snd (is_MarkFailed (idempotency_repo jsonb) i reason t w)))" if "idem_wf (db w)"
    unfolding repo_ops by (rule mark_wf(2) [OF that])
  show "stored_entry (snd (is_MarkSucceeded (idempotency_repo jsonb) i status body t w)) scope hash = Some r \<and>
      stored_entry (snd (is_MarkFailed (idempotency_repo jsonb) i reason t w)) scope hash = Some r"
    if "stored_entry w scope hash = Some r" "ir_id r \<noteq> i"
    unfolding repo_ops using mark_spares [OF that] by blast
  show "db w' = db w" if "is_Claim (idempotency_repo jsonb) p w = (Inl e, w')"
    using that unfolding repo_ops Idempotency_Claim_def by (rule exec_error_db)
  show "cr_Status res = claim_decision p (stored_entry w (cp_Scope p) (cp_KeyHash p)) \<and>
      (if cr_Status res = ClaimStarted then started_by p (cr_Record res)
       else stored_entry w (cp_Scope p) (cp_KeyHash p) = Some (cr_Record res) \<and> db w' = db w)"
    if "idem_wf (db w)" "is_Claim (idempotency_repo jsonb) p w = (Inr res, w')"
    using that claim_tx_stored [OF that(1)]
    by (auto simp: repo_ops Idempotency_Claim_def execM_ok stored_entry_def)
  show "stored_entry w' scope hash =
      (if scope = cp_Scope p \<and> hash = cp_KeyHash p then Some (cr_Record res) else stored_entry w scope hash)"
    if "idem_wf (db w)" "is_Claim (idempotency_repo jsonb) p w = (Inr res, w')"
    using that claim_tx_stored [OF that(1)]
    by (auto simp: repo_ops Idempotency_Claim_def execM_ok stored_entry_def)
  show "\<exists>b r'. jsonb body = Some b \<and> stored_entry w' scope hash = Some r' \<and> ir_id r' = i \<and>
      succeeded_with (ir_fingerprint r) status b r'"
    if "is_MarkSucceeded (idempotency_repo jsonb) i status body t w = (Inr u, w')"
      "stored_entry w scope hash = Some r" "ir_id r = i" "body \<noteq> []"
    using that unfolding repo_ops
    by (auto simp: stored_entry_def stored_entry_update succeeded_with_def dest!: MarkSucceeded_run)
qed

section \<open>Requests under a key\<close>



section \<open>Witnesses, and where the guarantees end\<close>

definition sample_codec :: "string json_codec" where
  "sample_codec = \<lparr>jc_Marshal = (\<lambda>x. Inr (case x of None \<Rightarrow> ''null'' | Some s \<Rightarrow> CHR 0x22 # s)),
     jc_Unmarshal = (\<lambda>b. if b = ''null'' then Inr '''' else Inr (tl b)), jc_zero = ''''\<rparr>"

lemma codec_documented_sample: "codec_documented Some sample_codec"
  by (auto simp: codec_documented_def sample_codec_def split: option.split)

definition sample_idempotency :: idempotency_service where
  "sample_idempotency = \<lparr>iv_store = Some (idempotency_repo Some), iv_Sum256 = (\<lambda>bs. bs)\<rparr>"

definition sample_options :: idempotency_options where
  "sample_options = \<lparr>io_Scope = ''refund'', io_IdempotencyKey = '' k1 '', io_Payload = PayloadString ''p'',
     io_RequireKey = True, io_TTL = 0, io_LockTTL = 0\<rparr>"

definition sample_execute :: "(string option \<times> int) app" where
  "sample_execute = retM (Some ''ok'', 0)"

definition sample_claim :: "time \<Rightarrow> string \<Rightarrow> claim_params" where
  "sample_claim at fp = \<lparr>cp_Scope = ''refund'', cp_KeyHash = ''h'', cp_Fingerprint = fp, cp_Now = at,
     cp_LockedUntil = at + 30, cp_ExpiresAt = at + 1000\<rparr>"

lemma sample_wf: "idem_wf (db sample_world)"
  by code_simp



text \<open>
  The lock does not fence: an execution that outlives its lock is started a second time, and
  when the late one then fails, it reopens the record that the second one completed.
\<close>

lemma late_failure_reopens:
  "let w1 = snd (Idempotency_Claim (sample_claim 100 ''p'') sample_world);
       w2 = snd (Idempotency_Claim (sample_claim 140 ''p'') w1);
       i = ir_id (hd (idempotency_records (db w2)));
       w3 = snd (Idempotency_MarkSucceeded Some i 200 ''1'' 150 w2);
       w4 = snd (Idempotency_MarkFailed i ''late'' 160 w3) in
   map_option cr_Status (case fst (Idempotency_Claim (sample_claim 140 ''p'') w1) of Inl e \<Rightarrow> None | Inr r \<Rightarrow> Some r) = Some ClaimStarted \<and>
   map_option cr_Status (case fst (Idempotency_Claim (sample_claim 170 ''p'') w4) of Inl e \<Rightarrow> None | Inr r \<Rightarrow> Some r) = Some ClaimStarted"
  by code_simp

end
