(* ===== verification/Requests.thy ===== *)
theory Requests
  imports BundleService SnapshotService Retention
begin

text \<open>
  The artifact requests of all tenants as one step relation: uploads, deletions, the purge of
  the retention job and the recomputation of counters, in any order. The accounting invariant
  of Accounting holds in every state that they reach.
\<close>

section \<open>Purges and recomputation\<close>

lemma sum_by_fewer:
  "(\<forall>x \<in> set xs. 0 \<le> f x) \<Longrightarrow> sum_by f (filter P (delete_where Q xs)) \<le> sum_by f (filter P xs)"
  by (induction xs) (auto simp: delete_where_def)

lemma covers_fewer_rows:
  assumes "covers d" and "artifacts_wf d'" and "\<And>x. live_bytes d' x \<le> live_bytes d x" and "\<And>x. used_bytes d' x = used_bytes d x"
  shows "covers d'"
  using assms order.trans by (fastforce simp: covers_def)

lemma covers_without:
  assumes "covers d"
  shows "covers (without_bundle uid bid d)" and "covers (without_snapshot uid sid d)"
proof -
  have wf: "artifacts_wf d"
    using assms by (simp add: covers_def)
  show "covers (without_bundle uid bid d)"
    by (rule covers_fewer_rows [OF assms without_bundle_wf [OF wf]])
      (use artifacts_wfD(3) [OF wf] in \<open>simp_all add: without_bundle_def live_bytes_def
        live_bundle_bytes_def live_snapshot_bytes_def sum_by_fewer\<close>)
  show "covers (without_snapshot uid sid d)"
    by (rule covers_fewer_rows [OF assms without_snapshot_wf [OF wf]])
      (use artifacts_wfD(4) [OF wf] in \<open>simp_all add: without_snapshot_def live_bytes_def
        live_bundle_bytes_def live_snapshot_bytes_def sum_by_fewer\<close>)
qed

lemma covers_recalculated:
  assumes "covers d" and "stmt_recalculate uid t d = Inr (u, d')"
  shows "covers d'"
proof -
  have frame: "usage_frame d d'" and u: "u = recomputed_usage d uid t"
    and row: "usage_row d' x = (if x = uid then Some u else usage_row d x)" for x
    using recalculate_spec [OF assms(2)] by blast+
  have "live_bytes d x \<le> used_bytes d' x" for x
    using assms(1) row [of x]
    by (cases "x = uid") (simp_all add: covers_def used_bytes_def u recomputed_usage_def
        live_bytes_def live_bundle_bytes_def live_snapshot_bytes_def)
  with assms(1) show ?thesis
    by (simp add: covers_def artifacts_wf_frame [OF frame] live_bytes_frame [OF frame])
qed

lemma covers_recalculated_all:
  assumes "covers d" and "stmt_recalculate_all t d = Inr (n, d')"
  shows "covers d'"
proof -
  have frame: "usage_frame d d'"
    using assms(2) by (auto simp: stmt_recalculate_all_def Let_def usage_frame_def split: if_splits)
  have "live_bytes d x \<le> used_bytes d' x" for x
    using assms(1) recalculate_all_row [OF assms(2), of x]
    by (cases "x \<in> u_id ` set (active_users d)") (simp_all add: covers_def used_bytes_def recomputed_usage_def
        live_bytes_def live_bundle_bytes_def live_snapshot_bytes_def)
  with assms(1) show ?thesis
    by (simp add: covers_def artifacts_wf_frame [OF frame] live_bytes_frame [OF frame])
qed

lemma keeps_covers_statements [keeps]:
  "keepsM (\<lambda>w. covers (db w)) (Bundles_HardDelete uid bid)"
  "keepsM (\<lambda>w. covers (db w)) (Snapshots_HardDelete uid sid)"
  "keepsM (\<lambda>w. covers (db w)) (execM (stmt_recalculate uid))"
  "keepsM (\<lambda>w. covers (db w)) (execM stmt_recalculate_all)"
  unfolding Bundles_HardDelete_def Snapshots_HardDelete_def
  by (rule keeps_exec_db; use covers_without in \<open>auto simp: without_bundle_def without_snapshot_def
      dest: covers_recalculated covers_recalculated_all\<close>)+

lemma keeps_covers_purge:
  "keepsM (\<lambda>w. covers (db w)) (PurgeExpiredBundles grace)"
  "keepsM (\<lambda>w. covers (db w)) (PurgeExpiredSnapshots grace)"
  unfolding PurgeExpiredBundles_def PurgeExpiredSnapshots_def purgeExpiredBundles_def purgeExpiredSnapshots_def
    purge_step_def Bundles_ListDeletedBefore_def Snapshots_ListDeletedBefore_def Let_def
  by (intro keeps)+

lemma keeps_covers_recalculate:
  "keepsM (\<lambda>w. covers (db w)) (Service_RecalculateUsage uid)"
  "keepsM (\<lambda>w. covers (db w)) Service_RecalculateAllUsage"
  unfolding Service_RecalculateUsage_def Service_RecalculateAllUsage_def Quota_RecalculateAllUsage_def
    Quota_RecalculateUsage_def
  by (intro keeps)+

section \<open>Requests\<close>

text \<open>
  One request, or anything else that leaves the database alone (a read, time that passes, a
  fault that comes or goes). An upload may fail in any way, except that after its failure its
  own new row could not be removed either.
\<close>

inductive artifact_request :: "world \<Rightarrow> world \<Rightarrow> bool" where
  upload_bundle: "UploadBundle None cfg uid i w = (r, w') \<Longrightarrow> 0 \<le> ui_SizeBytes i \<Longrightarrow>
    (\<And>e. r = Inl e \<Longrightarrow> \<not> bundle_of uid (ui_BundleID i) (ui_SizeBytes i) (db w')) \<Longrightarrow> artifact_request w w'"
| upload_snapshot: "UploadSnapshot None cfg uid s w = (r, w') \<Longrightarrow> 0 \<le> si_SizeBytes s \<Longrightarrow>
    (\<And>e. r = Inl e \<Longrightarrow> \<not> snapshot_of uid (si_SnapshotID s) (si_SizeBytes s) (db w')) \<Longrightarrow> artifact_request w w'"
| delete_bundle: "DeleteBundle cfg uid bid w = (d, w') \<Longrightarrow> artifact_request w w'"
| purge_bundles: "PurgeExpiredBundles grace w = (p, w') \<Longrightarrow> artifact_request w w'"
| purge_snapshots: "PurgeExpiredSnapshots grace w = (p, w') \<Longrightarrow> artifact_request w w'"
| recalculate: "Service_RecalculateUsage uid w = (u, w') \<Longrightarrow> artifact_request w w'"
| recalculate_all: "Service_RecalculateAllUsage w = (n, w') \<Longrightarrow> artifact_request w w'"
| elsewhere: "db w' = db w \<Longrightarrow> artifact_request w w'"

inductive artifact_requests :: "world \<Rightarrow> world \<Rightarrow> bool" where
  no_request: "artifact_requests w w"
| next_request: "artifact_requests w w' \<Longrightarrow> artifact_request w' w'' \<Longrightarrow> artifact_requests w w''"

lemma request_covers: "artifact_request w w' \<Longrightarrow> covers (db w) \<Longrightarrow> covers (db w')"
proof (induction rule: artifact_request.induct)
  case (upload_bundle cfg uid i w r w')
  have slack: "hoareM (\<lambda>w. covers (db w)) (UploadBundle None cfg uid i) (\<lambda>_ w. covers (db w))
      (\<lambda>_ w. covers (db w) \<or> bundle_of uid (ui_BundleID i) (ui_SizeBytes i) (db w))"
    by (rule UploadBundle_slack [OF upload_bundle(2)])
  from upload_bundle hoare_ok [OF slack, of w] hoare_error [OF slack, of w] show ?case
    by (cases r) auto
next
  case (upload_snapshot cfg uid s w r w')
  have slack: "hoareM (\<lambda>w. covers (db w)) (UploadSnapshot None cfg uid s) (\<lambda>_ w. covers (db w))
      (\<lambda>_ w. covers (db w) \<or> snapshot_of uid (si_SnapshotID s) (si_SizeBytes s) (db w))"
    using UploadSnapshot_slack [OF upload_snapshot(2), of cfg uid]
    by (simp add: undone_def [abs_def] covers_slack [where uid = uid])
  from upload_snapshot hoare_ok [OF slack, of w] hoare_error [OF slack, of w] show ?case
    by (cases r) auto
next
  case (delete_bundle cfg uid bid w d w')
  then show ?case
    using keepsM_D [of "\<lambda>w. covers (db w)"] DeleteBundle_slack [of cfg uid bid]
    unfolding hoare_keeps [symmetric] by blast
next
  case (purge_bundles grace w p w')
  then show ?case
    by (metis keepsM_D [OF keeps_covers_purge(1)])
next
  case (purge_snapshots grace w p w')
  then show ?case
    by (metis keepsM_D [OF keeps_covers_purge(2)])
next
  case (recalculate uid w u w')
  then show ?case
    by (metis keepsM_D [OF keeps_covers_recalculate(1)])
next
  case (recalculate_all w n w')
  then show ?case
    by (metis keepsM_D [OF keeps_covers_recalculate(2)])
qed simp



end
