(* ===== verification/RateLimit.thy ===== *)
theory RateLimit
  imports Idempotency Password
begin

text \<open>
  Rate limiting (pkg/middleware/ratelimit.go, auth_ratelimit.go): the fixed-window limiters
  behind the interface Limiter, the fail modes, and the middleware that asks them. A locale
  states what a fixed-window limiter promises about one key; MemoryLimiter provides it.
\<close>

section \<open>Fail modes and fallbacks\<close>

text \<open>Both are Go strings, of which the empty one means unset.\<close>

type_synonym fail_mode = string
type_synonym redis_fallback = string

definition RateLimitFailOpen :: fail_mode where "RateLimitFailOpen = ''fail_open''"
definition RateLimitFailClosed :: fail_mode where "RateLimitFailClosed = ''fail_closed''"
definition RedisFallbackMemory :: redis_fallback where "RedisFallbackMemory = ''memory''"
definition RedisFallbackDeny :: redis_fallback where "RedisFallbackDeny = ''deny''"
definition RedisFallbackDisable :: redis_fallback where "RedisFallbackDisable = ''disable''"

definition NormalizeRateLimitFailMode :: "string \<Rightarrow> fail_mode" where
  "NormalizeRateLimitFailMode raw =
     (if ToLower (TrimSpace raw) = RateLimitFailClosed then RateLimitFailClosed else RateLimitFailOpen)"

definition ValidRateLimitFailMode :: "string \<Rightarrow> bool" where
  "ValidRateLimitFailMode raw \<longleftrightarrow> ToLower (TrimSpace raw) \<in> {RateLimitFailOpen, RateLimitFailClosed}"

definition NormalizeRedisUnavailableFallback :: "string \<Rightarrow> redis_fallback" where
  "NormalizeRedisUnavailableFallback raw =
     (let mode = ToLower (TrimSpace raw) in
      if mode = RedisFallbackDeny then RedisFallbackDeny
      else if mode = RedisFallbackDisable then RedisFallbackDisable else RedisFallbackMemory)"

definition ValidRedisUnavailableFallback :: "string \<Rightarrow> bool" where
  "ValidRedisUnavailableFallback raw \<longleftrightarrow>
     ToLower (TrimSpace raw) \<in> {RedisFallbackMemory, RedisFallbackDeny, RedisFallbackDisable}"

record rate_limit_config =
  rc_FailMode :: fail_mode
  rc_PublicAuthMode :: fail_mode
  rc_EnterpriseAdminMode :: fail_mode
  rc_EnterpriseBillingMode :: fail_mode
  rc_RedisUnavailableFallback :: redis_fallback

definition normalizeBucketFailMode :: "string \<Rightarrow> fail_mode \<Rightarrow> fail_mode" where
  "normalizeBucketFailMode raw fallback =
     (if TrimSpace raw = '''' then fallback else NormalizeRateLimitFailMode (TrimSpace raw))"

definition NewRateLimitRuntimeConfig :: "string \<Rightarrow> string \<Rightarrow> string \<Rightarrow> string \<Rightarrow> string \<Rightarrow> rate_limit_config" where
  "NewRateLimitRuntimeConfig defaultMode publicAuth admin billing redisFallback =
     (let mode = NormalizeRateLimitFailMode defaultMode in
      \<lparr>rc_FailMode = mode, rc_PublicAuthMode = normalizeBucketFailMode publicAuth mode,
       rc_EnterpriseAdminMode = normalizeBucketFailMode admin mode,
       rc_EnterpriseBillingMode = normalizeBucketFailMode billing mode,
       rc_RedisUnavailableFallback = NormalizeRedisUnavailableFallback redisFallback\<rparr>)"

definition DefaultFailMode :: "rate_limit_config \<Rightarrow> fail_mode" where
  "DefaultFailMode cfg = (if rc_FailMode cfg = '''' then RateLimitFailOpen else rc_FailMode cfg)"

definition PublicAuthFailMode :: "rate_limit_config \<Rightarrow> fail_mode" where
  "PublicAuthFailMode cfg = (if rc_PublicAuthMode cfg = '''' then DefaultFailMode cfg else rc_PublicAuthMode cfg)"

definition EnterpriseAdminFailModeValue :: "rate_limit_config \<Rightarrow> fail_mode" where
  "EnterpriseAdminFailModeValue cfg =
     (if rc_EnterpriseAdminMode cfg = '''' then DefaultFailMode cfg else rc_EnterpriseAdminMode cfg)"

definition EnterpriseBillingFailModeValue :: "rate_limit_config \<Rightarrow> fail_mode" where
  "EnterpriseBillingFailModeValue cfg =
     (if rc_EnterpriseBillingMode cfg = '''' then DefaultFailMode cfg else rc_EnterpriseBillingMode cfg)"

definition RedisFallback :: "rate_limit_config \<Rightarrow> redis_fallback" where
  "RedisFallback cfg =
     (if rc_RedisUnavailableFallback cfg = '''' then RedisFallbackMemory else rc_RedisUnavailableFallback cfg)"

section \<open>Limiters\<close>

record rate_result =
  rr_Allowed :: bool
  rr_Limit :: int
  rr_Remaining :: int
  rr_RetryAfter :: duration

text \<open>The interface: \<open>Allow(key, limit, window)\<close> over the state \<open>'w\<close> behind the limiter.\<close>

type_synonym 'w limiter = "string \<Rightarrow> int \<Rightarrow> duration \<Rightarrow> ('w, rate_result) gom"

text \<open>\<open>t.Unix()\<close>\<close>

definition Unix :: "time \<Rightarrow> int" where
  "Unix t = t div Second"

definition decide :: "int \<Rightarrow> int \<Rightarrow> int \<Rightarrow> int \<Rightarrow> time \<Rightarrow> rate_result" where
  "decide cnt limit bucket windowSecs t =
     (let retryAfter = ((bucket + 1) * windowSecs - Unix t) * Second in
      \<lparr>rr_Allowed = (cnt \<le> limit), rr_Limit = limit, rr_Remaining = max 0 (limit - cnt),
       rr_RetryAfter = max 0 retryAfter\<rparr>)"

definition allowed_unconditionally :: "int \<Rightarrow> rate_result" where
  "allowed_unconditionally limit = \<lparr>rr_Allowed = True, rr_Limit = limit, rr_Remaining = 0, rr_RetryAfter = 0\<rparr>"

definition DenyLimiter_Allow :: "'w limiter" where
  "DenyLimiter_Allow key limit window =
     (if limit \<le> 0 \<or> window \<le> 0 then retM (allowed_unconditionally limit)
      else retM \<lparr>rr_Allowed = False, rr_Limit = limit, rr_Remaining = 0, rr_RetryAfter = window\<rparr>)"

definition windowSeconds :: "duration \<Rightarrow> int" where
  "windowSeconds window = (let secs = quot_go window Second in if secs \<le> 0 then 1 else secs)"

record memory_bucket =
  mb_bucket :: int
  mb_count :: int
  mb_expiresAt :: time

text \<open>
  What the limiters of one process see: the clock, which moves on by the next of \<open>lw_ticks\<close>
  whenever it is read, the buckets of the MemoryLimiter, and \<open>lw_shared\<close>, what is behind the
  Redis client.
\<close>

record 'r limiter_world =
  lw_now :: time
  lw_ticks :: "nat list"
  lw_buckets :: "string \<rightharpoonup> memory_bucket"
  lw_shared :: 'r

definition limiter_now :: "('r limiter_world, time) gom" where
  "limiter_now = (\<lambda>w.
     let t = lw_now w + (case lw_ticks w of [] \<Rightarrow> 0 | n # _ \<Rightarrow> int n) in
     (Inr t, w\<lparr>lw_now := t, lw_ticks := tl (lw_ticks w)\<rparr>))"

text \<open>The section of \<open>Allow\<close> under the mutex, given the instant read before it.\<close>

definition count_request :: "string \<Rightarrow> int \<Rightarrow> int \<Rightarrow> ('r limiter_world, int) gom" where
  "count_request key bucket secs = (\<lambda>w.
     let b = (case lw_buckets w key of
                None \<Rightarrow> \<lparr>mb_bucket = bucket, mb_count = 0, mb_expiresAt = 0\<rparr>
              | Some b \<Rightarrow> if mb_bucket b \<noteq> bucket then \<lparr>mb_bucket = bucket, mb_count = 0, mb_expiresAt = 0\<rparr> else b);
         b' = b\<lparr>mb_count := mb_count b + 1, mb_expiresAt := (bucket + 1) * secs * Second\<rparr> in
     (Inr (mb_count b'), w\<lparr>lw_buckets := (lw_buckets w)(key \<mapsto> b')\<rparr>))"

definition MemoryLimiter_Allow :: "'r limiter_world limiter" where
  "MemoryLimiter_Allow key limit window =
     (if limit \<le> 0 \<or> window \<le> 0 then retM (allowed_unconditionally limit)
      else bindM limiter_now (\<lambda>t.
        let secs = windowSeconds window; bucket = quot_go (Unix t) secs in
        bindM (count_request key bucket secs) (\<lambda>cnt. retM (decide cnt limit bucket secs t))))"

definition sweep :: "'r limiter_world \<Rightarrow> 'r limiter_world" where
  "sweep w = (let t = lw_now w + (case lw_ticks w of [] \<Rightarrow> 0 | n # _ \<Rightarrow> int n) in
     w\<lparr>lw_now := t, lw_ticks := tl (lw_ticks w),
       lw_buckets := (\<lambda>key. case lw_buckets w key of
          None \<Rightarrow> None
        | Some b \<Rightarrow> if mb_expiresAt b < t then None else Some b)\<rparr>)"

text \<open>\<open>strconv.FormatInt\<close> and \<open>strconv.Itoa\<close> on signed numbers.\<close>

definition Itoa_int :: "int \<Rightarrow> string" where
  "Itoa_int n = (if n < 0 then CHR ''-'' # Itoa (nat (- n)) else Itoa (nat n))"

text \<open>
  The pipeline INCR, EXPIRE is a parameter: it takes the key, the time to live and the
  instant, and gives the incremented counter or an error.
\<close>

definition RedisLimiter_Allow ::
  "(string \<Rightarrow> duration \<Rightarrow> time \<Rightarrow> 'r \<Rightarrow> (goerr + int) \<times> 'r) \<Rightarrow> 'r limiter_world limiter" where
  "RedisLimiter_Allow pipeline key limit window =
     (if limit \<le> 0 \<or> window \<le> 0 then retM (allowed_unconditionally limit)
      else bindM limiter_now (\<lambda>t.
        let secs = windowSeconds window; bucket = quot_go (Unix t) secs;
            rkey = ''ratelimit:'' @ key @ '':'' @ Itoa_int bucket in
        bindM (\<lambda>w. case pipeline rkey (window + Second) t (lw_shared w) of
                     (r, shared) \<Rightarrow> (r, w\<lparr>lw_shared := shared\<rparr>)) (\<lambda>cnt.
        retM (decide cnt limit bucket secs t))))"

text \<open>\<open>NewLimiterForRedisUnavailable\<close>: no limiter at all for the mode disable.\<close>

definition NewLimiterForRedisUnavailable :: "redis_fallback \<Rightarrow> 'r limiter_world limiter option \<times> redis_fallback" where
  "NewLimiterForRedisUnavailable fallback =
     (let mode = (if fallback = '''' then RedisFallbackMemory else fallback) in
      if mode = RedisFallbackDeny then (Some DenyLimiter_Allow, mode)
      else if mode = RedisFallbackDisable then (None, mode)
      else (Some MemoryLimiter_Allow, RedisFallbackMemory))"

section \<open>The middleware\<close>

record rate_decision =
  rd_Key :: string
  rd_Limit :: int
  rd_Skip :: bool
  rd_Policy :: string
  rd_FailMode :: fail_mode

text \<open>
  What the middleware does to the response: whether the request goes on, the headers set, and
  the status and message of the refusal.
\<close>

record rate_outcome =
  ro_Allowed :: bool
  ro_Headers :: "(string \<times> string) list"
  ro_Reply :: "(nat \<times> string) option"

definition goes_on :: rate_outcome where
  "goes_on = \<lparr>ro_Allowed = True, ro_Headers = [], ro_Reply = None\<rparr>"

definition rateLimitUnavailableResponse :: "nat \<times> string" where
  "rateLimitUnavailableResponse = (429, ''rate limiter unavailable, request denied'')"

definition normalizeRateLimitPolicy :: "string \<Rightarrow> string" where
  "normalizeRateLimitPolicy policy =
     (let p = ToLower (TrimSpace policy) in if p = '''' then ''default'' else p)"

definition mergeRateDecisionDefaults :: "rate_decision \<Rightarrow> string \<Rightarrow> fail_mode \<Rightarrow> rate_decision" where
  "mergeRateDecisionDefaults d policy failMode =
     (let d' = (if rd_Policy d = '''' then d\<lparr>rd_Policy := policy\<rparr> else d) in
      if rd_FailMode d' = '''' then d'\<lparr>rd_FailMode := failMode\<rparr> else d')"

definition answer :: "rate_result \<Rightarrow> rate_outcome" where
  "answer res =
     (let headers = [(''X-RateLimit-Limit'', Itoa_int (rr_Limit res)), (''X-RateLimit-Remaining'', Itoa_int (rr_Remaining res))] in
      if rr_Allowed res then \<lparr>ro_Allowed = True, ro_Headers = headers, ro_Reply = None\<rparr>
      else let secs = quot_go (rr_RetryAfter res) Second;
               retry = (if secs < 1 then 1 else secs) in
        \<lparr>ro_Allowed = False, ro_Headers = headers @ [(''Retry-After'', Itoa_int retry)],
         ro_Reply = Some (429, ''rate limit exceeded, retry later'')\<rparr>)"

text \<open>The metrics and log lines of a limiter error are left out.\<close>

definition EnforceRateLimit :: "'w limiter option \<Rightarrow> duration \<Rightarrow> rate_decision \<Rightarrow> ('w, rate_outcome) gom" where
  "EnforceRateLimit limiter window d0 = (case limiter of
     None \<Rightarrow> retM goes_on
   | Some Allow \<Rightarrow>
       if rd_Skip d0 \<or> rd_Limit d0 \<le> 0 \<or> rd_Key d0 = '''' then retM goes_on
       else let d1 = d0\<lparr>rd_Policy := normalizeRateLimitPolicy (rd_Policy d0)\<rparr>;
                d = (if rd_FailMode d1 = '''' then d1\<lparr>rd_FailMode := RateLimitFailOpen\<rparr> else d1) in
         bindM (tryM (Allow (rd_Key d) (rd_Limit d) window)) (\<lambda>r. case r of
           Inl e \<Rightarrow>
             if rd_FailMode d = RateLimitFailClosed
             then retM \<lparr>ro_Allowed = False, ro_Headers = [], ro_Reply = Some rateLimitUnavailableResponse\<rparr>
             else retM goes_on
         | Inr res \<Rightarrow> retM (answer res)))"

text \<open>The handler of \<open>RateLimit\<close>; its result says whether \<open>c.Next()\<close> runs.\<close>

definition RateLimit :: "'w limiter option \<Rightarrow> duration \<Rightarrow> string \<Rightarrow> fail_mode \<Rightarrow> ('c \<Rightarrow> rate_decision) option \<Rightarrow>
    'c \<Rightarrow> ('w, rate_outcome) gom" where
  "RateLimit limiter window policy failMode Classify c = (case (limiter, Classify) of
     (Some l, Some classify) \<Rightarrow>
       EnforceRateLimit (Some l) window (mergeRateDecisionDefaults (classify c) policy failMode)
   | _ \<Rightarrow> retM goes_on)"

definition skip_decision :: rate_decision where
  "skip_decision = \<lparr>rd_Key = '''', rd_Limit = 0, rd_Skip = True, rd_Policy = '''', rd_FailMode = ''''\<rparr>"

definition auth_decision :: "string \<Rightarrow> int \<Rightarrow> string \<Rightarrow> rate_decision" where
  "auth_decision prefix limit subject = \<lparr>rd_Key = prefix @ '':'' @ subject, rd_Limit = limit, rd_Skip = False,
     rd_Policy = ''public_auth'', rd_FailMode = ''''\<rparr>"

definition AuthIPRateDecision :: "string \<Rightarrow> int \<Rightarrow> string \<Rightarrow> rate_decision" where
  "AuthIPRateDecision prefix limit ip =
     (if TrimSpace prefix = '''' \<or> TrimSpace ip = '''' then skip_decision
      else auth_decision (TrimSpace prefix) limit (TrimSpace ip))"

definition AuthEmailRateDecisionForValue :: "string \<Rightarrow> int \<Rightarrow> string \<Rightarrow> rate_decision" where
  "AuthEmailRateDecisionForValue prefix limit email =
     (if TrimSpace prefix = '''' \<or> ToLower (TrimSpace email) = '''' then skip_decision
      else auth_decision (TrimSpace prefix) limit (ToLower (TrimSpace email)))"

definition AuthTokenRateDecisionForValue :: "(bytes \<Rightarrow> bytes) \<Rightarrow> string \<Rightarrow> int \<Rightarrow> string \<Rightarrow> rate_decision" where
  "AuthTokenRateDecisionForValue Sum256 prefix limit token =
     (if TrimSpace prefix = '''' \<or> TrimSpace token = '''' then skip_decision
      else auth_decision (TrimSpace prefix) limit (HexEncode (Sum256 (TrimSpace token))))"

section \<open>Traffic\<close>

text \<open>Requests at the middleware and runs of the background job, in the order they happen.\<close>

datatype traffic = Request duration rate_decision | Background

text \<open>The decision, the instant and the outcome of every request.\<close>

fun serve :: "'w limiter \<Rightarrow> ('w \<Rightarrow> time) \<Rightarrow> ('w \<Rightarrow> 'w) \<Rightarrow> traffic list \<Rightarrow> 'w \<Rightarrow> (rate_decision \<times> time \<times> bool) list" where
  "serve allow clock background [] w = []"
| "serve allow clock background (Background # ts) w = serve allow clock background ts (background w)"
| "serve allow clock background (Request window d # ts) w =
     (case EnforceRateLimit (Some allow) window d w of
        (Inl e, w') \<Rightarrow> serve allow clock background ts w'
      | (Inr r, w') \<Rightarrow> (d, clock w', ro_Allowed r) # serve allow clock background ts w')"

text \<open>The number of the window an instant lies in.\<close>

definition bucket_at :: "duration \<Rightarrow> time \<Rightarrow> int" where
  "bucket_at window t = quot_go (Unix t) (windowSeconds window)"

text \<open>The outcomes for one key in window number \<open>n\<close>, in order.\<close>

definition outcomes :: "string \<Rightarrow> duration \<Rightarrow> int \<Rightarrow> (rate_decision \<times> time \<times> bool) list \<Rightarrow> bool list" where
  "outcomes key window n served =
     map (\<lambda>(d, t, ok). ok) (filter (\<lambda>(d, t, ok). rd_Key d = key \<and> bucket_at window t = n) served)"

lemma windowSeconds_pos: "0 < windowSeconds window"
  by (simp add: windowSeconds_def Let_def)

lemma bucket_at_nonneg: "0 \<le> t \<Longrightarrow> bucket_at window t = (t div Second) div windowSeconds window"
  using windowSeconds_pos [of window]
  by (simp add: bucket_at_def Unix_def quot_go_nonneg Second_def pos_imp_zdiv_nonneg_iff)

lemma bucket_at_mono: "0 \<le> t \<Longrightarrow> t \<le> t' \<Longrightarrow> bucket_at window t \<le> bucket_at window t'"
  using windowSeconds_pos [of window]
  by (simp add: bucket_at_nonneg zdiv_mono1 Second_def)

lemma enforce_plain:
  assumes "allow (rd_Key d) (rd_Limit d) window w = (Inr res, w')" and "0 < rd_Limit d" and "\<not> rd_Skip d" and "rd_Key d \<noteq> ''''"
  shows "EnforceRateLimit (Some allow) window d w = (Inr (answer res), w')"
  using assms by (simp add: EnforceRateLimit_def Let_def bindM_def tryM_def)

lemma answer_allowed: "ro_Allowed (answer res) = rr_Allowed res"
  by (simp add: answer_def Let_def)

lemma enforce_state:
  "snd (EnforceRateLimit (Some allow) window d w) = w \<or>
   snd (EnforceRateLimit (Some allow) window d w) = snd (allow (rd_Key d) (rd_Limit d) window w)"
  by (simp add: EnforceRateLimit_def Let_def bindM_def tryM_def split: prod.split sum.split)

lemma enforce_Inr: "\<exists>r. EnforceRateLimit l window d w = (Inr r, snd (EnforceRateLimit l window d w))"
  by (cases l) (auto simp: EnforceRateLimit_def Let_def bindM_def tryM_def split: prod.split sum.split)

section \<open>What a fixed-window limiter promises\<close>

text \<open>
  About one key that is always used with the same window: \<open>counted w n\<close> is the number of
  requests counted in window \<open>n\<close>. Requests under other keys and the background job leave the
  counters of the running and of later windows alone.
\<close>

locale fixed_window =
  fixes allow :: "'w limiter" and clock :: "'w \<Rightarrow> time" and invar :: "'w \<Rightarrow> bool"
    and counted :: "'w \<Rightarrow> int \<Rightarrow> int" and background :: "'w \<Rightarrow> 'w"
    and key :: string and window :: duration
  assumes clock_nonneg: "invar w \<Longrightarrow> 0 \<le> clock w"
    and own: "invar w \<Longrightarrow> 0 < limit \<Longrightarrow> 0 < window \<Longrightarrow>
      \<exists>w'. let n = bucket_at window (clock w') in
        allow key limit window w = (Inr (decide (counted w n + 1) limit n (windowSeconds window) (clock w')), w') \<and>
        invar w' \<and> clock w \<le> clock w' \<and> counted w' n = counted w n + 1 \<and> (\<forall>m>n. counted w' m = counted w m)"
    and other: "invar w \<Longrightarrow> k \<noteq> key \<Longrightarrow> w' = snd (allow k limit window' w) \<Longrightarrow>
      invar w' \<and> clock w \<le> clock w' \<and> (\<forall>n \<ge> bucket_at window (clock w'). counted w' n = counted w n)"
    and background: "invar w \<Longrightarrow> w' = background w \<Longrightarrow>
      invar w' \<and> clock w \<le> clock w' \<and> (\<forall>n \<ge> bucket_at window (clock w'). counted w' n = counted w n)"
begin

lemma later_window: "invar w \<Longrightarrow> clock w \<le> clock w' \<Longrightarrow> n < bucket_at window (clock w) \<Longrightarrow> n < bucket_at window (clock w')"
  using bucket_at_mono [OF clock_nonneg] by (meson less_le_trans)

text \<open>In every window the first requests pass, up to the limit, and no other.\<close>

lemma outcomes_exact:
  assumes "0 < limit" and "0 < window" and "key \<noteq> ''''" and "invar w"
    and "\<forall>win d. Request win d \<in> set ts \<and> rd_Key d = key \<longrightarrow> win = window \<and> rd_Limit d = limit \<and> \<not> rd_Skip d"
  shows "\<exists>m. outcomes key window n (serve allow clock background ts w) =
    (if n < bucket_at window (clock w) then [] else map (\<lambda>i. counted w n + int i < limit) [0..<m])"
  using assms(4,5)
proof (induction ts arbitrary: w)
  case Nil
  have "outcomes key window n [] = map (\<lambda>i. counted w n + int i < limit) [0..<0]"
    by (simp add: outcomes_def)
  then show ?case
    by (auto simp: outcomes_def intro: exI [of _ 0])
next
  case (Cons a ts)
  have rest: "\<forall>win d. Request win d \<in> set ts \<and> rd_Key d = key \<longrightarrow> win = window \<and> rd_Limit d = limit \<and> \<not> rd_Skip d"
    using Cons.prems(2) by (auto simp del: split_paired_All)
  have keeps: "\<exists>m. outcomes key window n (serve allow clock background ts w') =
      (if n < bucket_at window (clock w) then [] else map (\<lambda>i. counted w n + int i < limit) [0..<m])"
    if "invar w' \<and> clock w \<le> clock w' \<and> (\<forall>n \<ge> bucket_at window (clock w'). counted w' n = counted w n)" for w'
  proof (cases "n < bucket_at window (clock w')")
    case True
    with Cons.IH [OF _ rest, of w'] that have "outcomes key window n (serve allow clock background ts w') = []"
      by simp
    then show ?thesis
      by (auto intro: exI [of _ 0])
  next
    case False
    with Cons.IH [OF _ rest, of w'] that Cons.prems(1) later_window [of w w' n] show ?thesis
      by auto
  qed
  show ?case
  proof (cases a)
    case Background
    with keeps [OF background [OF Cons.prems(1) refl]] show ?thesis
      by simp
  next
    case (Request win d)
    obtain r where r: "EnforceRateLimit (Some allow) win d w = (Inr r, snd (EnforceRateLimit (Some allow) win d w))"
      using enforce_Inr [of "Some allow" win d w] by blast
    show ?thesis
    proof (cases "rd_Key d = key")
      case False
      have "invar w' \<and> clock w \<le> clock w' \<and> (\<forall>n \<ge> bucket_at window (clock w'). counted w' n = counted w n)"
        if "w' = snd (EnforceRateLimit (Some allow) win d w)" for w'
        using that enforce_state [of allow win d w] other [OF Cons.prems(1) False refl] Cons.prems(1) by auto
      note kept = keeps [OF this [OF refl]]
      have "outcomes key window n (serve allow clock background (a # ts) w) =
          outcomes key window n (serve allow clock background ts (snd (EnforceRateLimit (Some allow) win d w)))"
        using False unfolding Request serve.simps by (subst r) (simp add: outcomes_def)
      with kept show ?thesis
        by simp
    next
      case True
      with Cons.prems(2) Request have d: "win = window" "rd_Limit d = limit" "\<not> rd_Skip d"
        by auto
      obtain w' where w': "allow key limit window w = (Inr (decide (counted w (bucket_at window (clock w')) + 1) limit
            (bucket_at window (clock w')) (windowSeconds window) (clock w')), w')"
          "invar w'" "clock w \<le> clock w'"
          "counted w' (bucket_at window (clock w')) = counted w (bucket_at window (clock w')) + 1"
          "\<forall>m > bucket_at window (clock w'). counted w' m = counted w m"
        using own [OF Cons.prems(1) assms(1,2)] by (auto simp: Let_def)
      define b where "b = bucket_at window (clock w')"
      note w'_b = w' [folded b_def]
      have "EnforceRateLimit (Some allow) win d w = (Inr (answer (decide (counted w b + 1) limit b (windowSeconds window) (clock w'))), w')"
        using w'_b(1) assms(1,3) True d by (intro enforce_plain) simp_all
      then have step: "outcomes key window n (serve allow clock background (a # ts) w) =
          (if b = n then [counted w b < limit] else []) @ outcomes key window n (serve allow clock background ts w')"
        using True Request by (simp add: outcomes_def answer_allowed decide_def Let_def b_def add1_zle_eq)
      obtain m where m: "outcomes key window n (serve allow clock background ts w') =
          (if n < b then [] else map (\<lambda>i. counted w' n + int i < limit) [0..<m])"
        using Cons.IH [OF w'(2) rest] b_def by auto
      have mono: "bucket_at window (clock w) \<le> b"
        unfolding b_def by (rule bucket_at_mono [OF clock_nonneg [OF Cons.prems(1)] w'(3)])
      consider "n < b" | "n = b" | "b < n"
        by linarith
      then show ?thesis
      proof cases
        case 1
        then show ?thesis
          unfolding step m by (auto intro: exI [of _ 0])
      next
        case 2
        have shift: "[counted w b < limit] @ map (\<lambda>i. counted w' b + int i < limit) [0..<m] = map (\<lambda>i. counted w b + int i < limit) [0..<Suc m]"
          unfolding upt_conv_Cons [OF zero_less_Suc] map_Suc_upt [symmetric] using w'_b(4) by (simp add: comp_def algebra_simps)
        have "outcomes key window n (serve allow clock background (a # ts) w) = map (\<lambda>i. counted w n + int i < limit) [0..<Suc m]"
          unfolding step m using 2 shift by (simp del: upt_Suc)
        then show ?thesis
          using 2 mono by (intro exI [of _ "Suc m"]) (simp del: upt_Suc)
      next
        case 3
        then show ?thesis
          unfolding step m using w'_b(5) mono by auto
      qed
    qed
  qed
qed

end

section \<open>MemoryLimiter provides it\<close>

definition mem_inv :: "string \<Rightarrow> duration \<Rightarrow> 'r limiter_world \<Rightarrow> bool" where
  "mem_inv key window w \<longleftrightarrow> 0 \<le> lw_now w \<and> (\<forall>b. lw_buckets w key = Some b \<longrightarrow>
     mb_bucket b \<le> bucket_at window (lw_now w) \<and> mb_expiresAt b = (mb_bucket b + 1) * windowSeconds window * Second)"

definition mem_counted :: "string \<Rightarrow> 'r limiter_world \<Rightarrow> int \<Rightarrow> int" where
  "mem_counted key w n = (case lw_buckets w key of None \<Rightarrow> 0 | Some b \<Rightarrow> if mb_bucket b = n then mb_count b else 0)"

definition next_now :: "'r limiter_world \<Rightarrow> time" where
  "next_now w = lw_now w + (case lw_ticks w of [] \<Rightarrow> 0 | n # _ \<Rightarrow> int n)"

lemma next_now_later: "lw_now w \<le> next_now w"
  by (simp add: next_now_def split: list.split)

lemma mem_allow_run:
  assumes "0 < limit" and "0 < window"
  shows "MemoryLimiter_Allow key limit window w =
    (let t = next_now w; n = bucket_at window t;
         b = \<lparr>mb_bucket = n, mb_count = mem_counted key w n + 1, mb_expiresAt = (n + 1) * windowSeconds window * Second\<rparr> in
     (Inr (decide (mb_count b) limit n (windowSeconds window) t),
      w\<lparr>lw_now := t, lw_ticks := tl (lw_ticks w), lw_buckets := (lw_buckets w)(key \<mapsto> b)\<rparr>))"
proof (cases "lw_buckets w key")
  case None
  with assms show ?thesis
    by (simp add: MemoryLimiter_Allow_def limiter_now_def count_request_def next_now_def bucket_at_def
        mem_counted_def Let_def bindM_def)
next
  case (Some b)
  with assms show ?thesis
    by (cases b) (simp add: MemoryLimiter_Allow_def limiter_now_def count_request_def next_now_def bucket_at_def
        mem_counted_def Let_def bindM_def)
qed

lemma mem_inv_later:
  assumes "mem_inv key window w" and "lw_buckets w' key = lw_buckets w key" and "lw_now w \<le> lw_now w'"
  shows "mem_inv key window w'"
  using assms bucket_at_mono [of "lw_now w" "lw_now w'" window] by (force simp: mem_inv_def)

lemma expired_window_over:
  assumes "0 \<le> t" and "(n + 1) * windowSeconds window * Second < t"
  shows "n < bucket_at window t"
proof -
  have "(n + 1) * windowSeconds window \<le> t div Second"
    using zdiv_mono1 [OF less_imp_le [OF assms(2)], of Second] by (simp add: Second_def)
  then have "n + 1 \<le> (t div Second) div windowSeconds window"
    using zdiv_mono1 [OF _ windowSeconds_pos [of window]] windowSeconds_pos [of window]
    by (metis nonzero_mult_div_cancel_right less_irrefl)
  then show ?thesis
    using assms(1) by (simp add: bucket_at_nonneg)
qed

lemma mem_own:
  assumes "mem_inv key window w" and "0 < limit" and "0 < window"
  shows "\<exists>w'. let n = bucket_at window (lw_now w') in
    MemoryLimiter_Allow key limit window w = (Inr (decide (mem_counted key w n + 1) limit n (windowSeconds window) (lw_now w')), w') \<and>
    mem_inv key window w' \<and> lw_now w \<le> lw_now w' \<and> mem_counted key w' n = mem_counted key w n + 1 \<and>
    (\<forall>m>n. mem_counted key w' m = mem_counted key w m)"
proof -
  define n where "n = bucket_at window (next_now w)"
  define b where "b = \<lparr>mb_bucket = n, mb_count = mem_counted key w n + 1, mb_expiresAt = (n + 1) * windowSeconds window * Second\<rparr>"
  define w' where "w' = w\<lparr>lw_now := next_now w, lw_ticks := tl (lw_ticks w), lw_buckets := (lw_buckets w)(key \<mapsto> b)\<rparr>"
  have run: "MemoryLimiter_Allow key limit window w =
      (Inr (decide (mem_counted key w n + 1) limit n (windowSeconds window) (next_now w)), w')"
    using mem_allow_run [OF assms(2,3)] by (simp add: Let_def n_def b_def w'_def)
  have later: "lw_now w \<le> next_now w" "bucket_at window (lw_now w) \<le> n"
    using assms(1) next_now_later [of w] bucket_at_mono [of "lw_now w" "next_now w" window]
    by (simp_all add: mem_inv_def n_def)
  have "mem_counted key w m = 0" if "n < m" for m
    using assms(1) that later(2) by (auto simp: mem_counted_def mem_inv_def split: option.split)
  then have "mem_inv key window w' \<and> mem_counted key w' n = mem_counted key w n + 1 \<and>
      (\<forall>m>n. mem_counted key w' m = mem_counted key w m)"
    using assms(1) later(1) by (simp add: w'_def b_def mem_inv_def mem_counted_def n_def [symmetric])
  then show ?thesis
    using run later(1) by (intro exI [of _ w']) (simp add: Let_def w'_def n_def)
qed

lemma mem_other:
  assumes "mem_inv key window w" and "k \<noteq> key"
  shows "mem_inv key window (snd (MemoryLimiter_Allow k limit window' w)) \<and>
    lw_now w \<le> lw_now (snd (MemoryLimiter_Allow k limit window' w)) \<and>
    mem_counted key (snd (MemoryLimiter_Allow k limit window' w)) = mem_counted key w"
proof (cases "0 < limit \<and> 0 < window'")
  case True
  then show ?thesis
    using assms next_now_later [of w] mem_allow_run [of limit window' k w]
    by (auto simp: Let_def mem_counted_def fun_eq_iff intro: mem_inv_later)
next
  case False
  with assms(1) show ?thesis
    by (auto simp: MemoryLimiter_Allow_def)
qed

lemma sweep_simps:
  "lw_now (sweep w) = next_now w"
  "lw_buckets (sweep w) key = (case lw_buckets w key of None \<Rightarrow> None
     | Some b \<Rightarrow> if mb_expiresAt b < next_now w then None else Some b)"
  by (simp_all add: sweep_def next_now_def Let_def cong: option.case_cong)

lemma mem_sweep:
  assumes "mem_inv key window w"
  shows "mem_inv key window (sweep w) \<and> lw_now w \<le> lw_now (sweep w) \<and>
    (\<forall>n \<ge> bucket_at window (lw_now (sweep w)). mem_counted key (sweep w) n = mem_counted key w n)"
proof (cases "lw_buckets w key")
  case None
  with assms next_now_later [of w] show ?thesis
    by (auto simp: mem_inv_def mem_counted_def sweep_simps)
next
  case (Some b)
  have nonneg: "0 \<le> next_now w"
    using assms next_now_later [of w] by (simp add: mem_inv_def)
  show ?thesis
  proof (cases "mb_expiresAt b < next_now w")
    case True
    then have "mb_bucket b < bucket_at window (next_now w)"
      using assms Some expired_window_over [OF nonneg] by (simp add: mem_inv_def)
    with True Some nonneg next_now_later [of w] show ?thesis
      by (auto simp: mem_inv_def mem_counted_def sweep_simps)
  next
    case False
    with Some have "lw_buckets (sweep w) key = lw_buckets w key"
      by (simp add: sweep_simps)
    with mem_inv_later [OF assms this] next_now_later [of w] show ?thesis
      by (simp add: mem_counted_def sweep_simps(1))
  qed
qed

interpretation mem: fixed_window MemoryLimiter_Allow lw_now "mem_inv key window" "mem_counted key" sweep key window
  for key window
proof unfold_locales
  fix w w' :: "'a limiter_world" and limit k window'
  show "0 \<le> lw_now w" if "mem_inv key window w"
    using that by (simp add: mem_inv_def)
  show "\<exists>w'. let n = bucket_at window (lw_now w') in
      MemoryLimiter_Allow key limit window w = (Inr (decide (mem_counted key w n + 1) limit n (windowSeconds window) (lw_now w')), w') \<and>
      mem_inv key window w' \<and> lw_now w \<le> lw_now w' \<and> mem_counted key w' n = mem_counted key w n + 1 \<and>
      (\<forall>m>n. mem_counted key w' m = mem_counted key w m)"
    if "mem_inv key window w" "0 < limit" "0 < window"
    using that by (rule mem_own)
  show "mem_inv key window w' \<and> lw_now w \<le> lw_now w' \<and>
      (\<forall>n \<ge> bucket_at window (lw_now w'). mem_counted key w' n = mem_counted key w n)"
    if "mem_inv key window w" "k \<noteq> key" "w' = snd (MemoryLimiter_Allow k limit window' w)"
    using mem_other [OF that(1,2)] that(3) by simp
  show "mem_inv key window w' \<and> lw_now w \<le> lw_now w' \<and>
      (\<forall>n \<ge> bucket_at window (lw_now w'). mem_counted key w' n = mem_counted key w n)"
    if "mem_inv key window w" "w' = sweep w"
    using mem_sweep [OF that(1)] that(2) by simp
qed

section \<open>The limit\<close>

text \<open>
  C39. The limit is exact. For a fresh MemoryLimiter and any traffic (requests under other keys,
  sweeps of expired buckets, any times between the calls), if the requests under a key all come
  with the same positive limit and window, then in every window the first requests under that
  key pass, as many as the limit says, and every other is refused.
\<close>

theorem fixed_window_exact:
  assumes "0 \<le> lw_now w" and "lw_buckets w = Map.empty" and "0 < limit" and "0 < window" and "key \<noteq> ''''"
    and "\<forall>win d. Request win d \<in> set ts \<and> rd_Key d = key \<longrightarrow> win = window \<and> rd_Limit d = limit \<and> \<not> rd_Skip d"
  shows "outcomes key window n (serve MemoryLimiter_Allow lw_now sweep ts w) =
    map (\<lambda>i. int i < limit) [0..<length (outcomes key window n (serve MemoryLimiter_Allow lw_now sweep ts w))]"
proof -
  let ?out = "outcomes key window n (serve MemoryLimiter_Allow lw_now sweep ts w)"
  have start: "mem_inv key window w" "mem_counted key w n = 0"
    using assms(1,2) by (simp_all add: mem_inv_def mem_counted_def)
  obtain m where "?out = (if n < bucket_at window (lw_now w) then [] else map (\<lambda>i. mem_counted key w n + int i < limit) [0..<m])"
    using mem.outcomes_exact [OF assms(3-5) start(1) assms(6)] by blast
  then show ?thesis
    using start(2) by (cases "n < bucket_at window (lw_now w)") simp_all
qed

definition sample_limiter_world :: "unit limiter_world" where
  "sample_limiter_world = \<lparr>lw_now = 0, lw_ticks = [], lw_buckets = Map.empty, lw_shared = ()\<rparr>"

lemma fixed_window_exact_witness:
  "let d = auth_decision ''login'' 1 ''1.2.3.4'' in
   outcomes (rd_Key d) Second 0 (serve MemoryLimiter_Allow lw_now sweep [Request Second d, Request Second d] sample_limiter_world) =
     [True, False]"
proof -
  let ?d = "auth_decision ''login'' 1 ''1.2.3.4''"
  let ?ts = "[Request Second ?d, Request Second ?d]"
  have d: "rd_Limit ?d = 1" "\<not> rd_Skip ?d" "rd_Key ?d \<noteq> ''''"
    by (simp_all add: auth_decision_def)
  have ts: "\<forall>win d. Request win d \<in> set ?ts \<and> rd_Key d = rd_Key ?d \<longrightarrow> win = Second \<and> rd_Limit d = 1 \<and> \<not> rd_Skip d"
    using d by auto
  have two: "length (outcomes (rd_Key ?d) Second 0 (serve MemoryLimiter_Allow lw_now sweep ?ts sample_limiter_world)) = 2"
    by code_simp
  have "outcomes (rd_Key ?d) Second 0 (serve MemoryLimiter_Allow lw_now sweep ?ts sample_limiter_world) =
      map (\<lambda>i. int i < 1) [0..<length (outcomes (rd_Key ?d) Second 0 (serve MemoryLimiter_Allow lw_now sweep ?ts sample_limiter_world))]"
    by (rule fixed_window_exact [OF _ _ _ _ d(3) ts]) (simp_all add: sample_limiter_world_def Second_def)
  then show ?thesis
    unfolding two by (simp add: Let_def upt_rec)
qed

text \<open>
  The clock is read before the mutex is taken: a request that read it in the last window and
  gets the mutex late replaces the running bucket, and the count of the window starts again.
\<close>

lemma stale_clock_restarts_window:
  "fst (count_request ''k'' 2 60 (snd (count_request ''k'' 1 60 (snd (count_request ''k'' 2 60 w))))) = Inr 1"
  by (simp add: count_request_def Let_def split: option.split)

end
