(* ===== verification/Redaction.thy ===== *)
theory Redaction
  imports Prelude "HOL-Library.Sublist"
begin

text \<open>
  Redaction of delivery errors before they are stored or shown: SanitizeWebhookError
  (pkg/provider/notification_webhook.go) and sanitizeNotificationError
  (pkg/service/notification.go). The loop over the occurrences of a key has no bound of its
  own; it is a partial function, and that it ends is a theorem.
\<close>

section \<open>Package strings\<close>

text \<open>\<open>strings.Index\<close>; none stands for -1.\<close>

fun Index :: "string \<Rightarrow> string \<Rightarrow> nat option" where
  "Index [] key = (if key = [] then Some 0 else None)"
| "Index (c # s) key = (if prefix key (c # s) then Some 0 else map_option Suc (Index s key))"

definition Contains :: "string \<Rightarrow> string \<Rightarrow> bool" where
  "Contains s t \<longleftrightarrow> Index s t \<noteq> None"

definition TrimRight :: "string \<Rightarrow> string \<Rightarrow> string" where
  "TrimRight s cutset = rev (dropWhile (\<lambda>c. c \<in> set cutset) (rev s))"

definition Trim :: "string \<Rightarrow> string \<Rightarrow> string" where
  "Trim s cutset = TrimRight (dropWhile (\<lambda>c. c \<in> set cutset) s) cutset"

definition HasSuffix :: "string \<Rightarrow> string \<Rightarrow> bool" where
  "HasSuffix s t \<longleftrightarrow> suffix t s"

text \<open>\<open>strings.Fields\<close>: the word read so far, and what is still to be read.\<close>

fun Fields_loop :: "string \<Rightarrow> string \<Rightarrow> string list" where
  "Fields_loop w [] = (if w = [] then [] else [w])"
| "Fields_loop w (c # cs) =
     (if is_space c then (if w = [] then Fields_loop [] cs else w # Fields_loop [] cs)
      else Fields_loop (w @ [c]) cs)"

definition Fields :: "string \<Rightarrow> string list" where
  "Fields = Fields_loop []"

text \<open>\<open>strings.Join(fields, " ")\<close>\<close>

fun JoinSpace :: "string list \<Rightarrow> string" where
  "JoinSpace [] = []"
| "JoinSpace [w] = w"
| "JoinSpace (w # v # ws) = w @ CHR '' '' # JoinSpace (v # ws)"

text \<open>\<open>strings.Replace(s, old, new, 1)\<close>\<close>

definition Replace1 :: "string \<Rightarrow> string \<Rightarrow> string \<Rightarrow> string" where
  "Replace1 s old new = (case Index s old of
     None \<Rightarrow> s
   | Some i \<Rightarrow> take i s @ new @ drop (i + length old) s)"

section \<open>Redacting the value after a key\<close>

definition redacted_mark :: string where
  "redacted_mark = ''<redacted>''"

text \<open>The characters that end a value: \<open>&\<close>, white space, quotes, closing brackets, comma, semicolon.\<close>

definition value_end :: "char \<Rightarrow> bool" where
  "value_end c \<longleftrightarrow> c \<in> {CHR ''&'', CHR '' '', CHR 0x09, CHR 0x0D, CHR 0x0A, CHR 0x22, CHR 0x27,
     CHR '')'', CHR '']'', CHR ''}'', CHR '','', CHR '';''}"

text \<open>The \<open>for\<close> loop, with the text of the strings.Builder and the rest of the message.\<close>

partial_function (option) redact_loop :: "string \<Rightarrow> string \<Rightarrow> string \<Rightarrow> string option" where
  [code]: "redact_loop key out message = (case Index (ToLower message) key of
     None \<Rightarrow> Some (out @ message)
   | Some idx \<Rightarrow> redact_loop key
       (out @ take idx message @ take (length key) (drop idx message) @ redacted_mark)
       (dropWhile (\<lambda>c. \<not> value_end c) (drop (idx + length key) message)))"

definition redactSensitiveAssignment :: "string \<Rightarrow> string \<Rightarrow> string option" where
  "redactSensitiveAssignment message key = redact_loop key '''' message"

definition redactNotificationAssignment :: "string \<Rightarrow> string \<Rightarrow> string option" where
  "redactNotificationAssignment message key = redact_loop key '''' message"

fun redact_keys :: "(string \<Rightarrow> string \<Rightarrow> string option) \<Rightarrow> string list \<Rightarrow> string \<Rightarrow> string option" where
  "redact_keys redact [] message = Some message"
| "redact_keys redact (key # keys) message = Option.bind (redact message key) (redact_keys redact keys)"

definition webhook_keys :: "string list" where
  "webhook_keys = [''token='', ''secret='', ''signature='', ''key='']"

definition redactSensitiveQueryLikeText :: "string \<Rightarrow> string option" where
  "redactSensitiveQueryLikeText = redact_keys redactSensitiveAssignment webhook_keys"

definition notification_keys :: "string list" where
  "notification_keys = [''smtp_secret='', ''smtp-secret='', ''smtp_token='', ''smtp-token='', ''smtp_password='',
     ''smtp-password='', ''password='', ''token='', ''secret='', ''smtp_secret:'', ''smtp-token:'',
     ''smtp_password:'', ''smtp-password:'', ''password:'', ''token:'', ''secret:'']"

definition redactNotificationSecretAssignments :: "string \<Rightarrow> string option" where
  "redactNotificationSecretAssignments = redact_keys redactNotificationAssignment notification_keys"

section \<open>Redacting the word after a secret word\<close>

definition notificationSecretMarker :: "string \<Rightarrow> bool" where
  "notificationSecretMarker value \<longleftrightarrow> value \<in> {''secret'', ''token'', ''password'', ''smtp_secret'',
     ''smtp-password'', ''smtp_token'', ''smtp-token''}"

definition word_cutset :: string where
  "word_cutset = [CHR 0x22, CHR 0x27] @ ''(),;[]{}<>''"

fun redact_words :: "string list \<Rightarrow> string list" where
  "redact_words [] = []"
| "redact_words [f] = [f]"
| "redact_words (f # g # rest) =
     (let trimmed = Trim f word_cutset; normalized = ToLower (TrimRight trimmed '':='') in
      if \<not> notificationSecretMarker normalized then f # redact_words (g # rest)
      else if HasSuffix trimmed '':'' \<or> HasSuffix trimmed ''='' then f # redact_words (redacted_mark # rest)
      else if \<not> Contains f redacted_mark then f # redact_words (redacted_mark # rest)
      else f # redact_words (g # rest))"

definition redactNotificationSecretWords :: "string \<Rightarrow> string" where
  "redactNotificationSecretWords message = JoinSpace (redact_words (Fields message))"

section \<open>URLs in the message\<close>

text \<open>Package net/url is a parameter: its parser (none for an error) and its printer.\<close>

record url =
  url_Scheme :: string
  url_Host :: string
  url_User :: "string option"
  url_Path :: string
  url_RawQuery :: string
  url_Fragment :: string

record url_lib =
  ul_Parse :: "string \<Rightarrow> url option"
  ul_String :: "url \<Rightarrow> string"

definition sanitizeWebhookURL :: "url_lib \<Rightarrow> url \<Rightarrow> string" where
  "sanitizeWebhookURL lib u =
     (let clean = u\<lparr>url_User := None, url_RawQuery := '''', url_Fragment := ''''\<rparr> in
      ul_String lib (if url_Path clean \<noteq> '''' \<and> url_Path clean \<noteq> ''/'' then clean\<lparr>url_Path := ''/...''\<rparr> else clean))"

definition absolute_url :: "url_lib \<Rightarrow> string \<Rightarrow> url option" where
  "absolute_url lib s = (case ul_Parse lib s of
     None \<Rightarrow> None
   | Some u \<Rightarrow> if url_Scheme u \<noteq> '''' \<and> url_Host u \<noteq> '''' then Some u else None)"

definition url_cutset :: string where
  "url_cutset = [CHR 0x22, CHR 0x27] @ ''(),;''"

definition sanitize_field :: "url_lib \<Rightarrow> string \<Rightarrow> string" where
  "sanitize_field lib field = (let trimmed = Trim field url_cutset in
     case absolute_url lib trimmed of
       None \<Rightarrow> field
     | Some u \<Rightarrow> Replace1 field trimmed (sanitizeWebhookURL lib u))"

definition SanitizeWebhookError :: "url_lib \<Rightarrow> string \<Rightarrow> string option" where
  "SanitizeWebhookError lib message0 =
     (let message = TrimSpace message0 in
      if message = '''' then Some ''''
      else (case absolute_url lib message of
              Some u \<Rightarrow> Some (sanitizeWebhookURL lib u)
            | None \<Rightarrow> redactSensitiveQueryLikeText (JoinSpace (map (sanitize_field lib) (Fields message)))))"

text \<open>\<open>sanitizeNotificationError\<close>: a nil error is none.\<close>

definition sanitizeNotificationError :: "url_lib \<Rightarrow> goerr option \<Rightarrow> string option" where
  "sanitizeNotificationError lib err = (case err of
     None \<Rightarrow> Some ''''
   | Some e \<Rightarrow>
       Option.bind (SanitizeWebhookError lib (Error e)) (\<lambda>msg.
       Option.bind (redactNotificationSecretAssignments msg) (\<lambda>msg.
       let msg = TrimSpace (redactNotificationSecretWords msg) in
       Some (if 240 < length msg then take 240 msg else msg))))"

section \<open>The loop ends\<close>

lemma Index_Some:
  "Index s key = Some i \<Longrightarrow> prefix key (drop i s) \<and> (\<forall>j<i. \<not> prefix key (drop j s))"
proof (induction s arbitrary: i)
  case (Cons c s)
  show ?case
  proof (cases "prefix key (c # s)")
    case False
    with Cons.prems obtain i' where i': "Index s key = Some i'" "i = Suc i'"
      by auto
    from Cons.IH [OF i'(1)] False show ?thesis
      by (auto simp: i'(2) less_Suc_eq_0_disj)
  qed (use Cons.prems in auto)
qed (auto split: if_splits)

lemma Index_None: "Index s key = None \<Longrightarrow> \<not> prefix key (drop j s)"
proof (induction s arbitrary: j)
  case (Cons c s)
  then show ?case
    by (cases j) (auto split: if_splits)
qed (auto split: if_splits)

lemma redact_loop_shorter:
  assumes "Index (ToLower message) key = Some i" and "key \<noteq> []"
  shows "length (dropWhile P (drop (i + length key) message)) < length message"
proof -
  have "prefix key (drop i (ToLower message))"
    using Index_Some [OF assms(1)] by blast
  then have "length key \<le> length message - i"
    using prefix_length_le by fastforce
  with assms(2) have "length (drop (i + length key) message) < length message"
    by (cases key) auto
  then show ?thesis
    using length_dropWhile_le [of P "drop (i + length key) message"] by simp
qed

lemma redact_loop_out: "redact_loop key out message = map_option (\<lambda>s. out @ s) (redact_loop key [] message)" if "key \<noteq> []"
proof (induction message arbitrary: out rule: length_induct)
  case (1 message)
  show ?case
  proof (cases "Index (ToLower message) key")
    case (Some i)
    let ?rest = "dropWhile (\<lambda>c. \<not> value_end c) (drop (i + length key) message)"
    have IH: "redact_loop key out' ?rest = map_option (\<lambda>s. out' @ s) (redact_loop key [] ?rest)" for out'
      using 1 redact_loop_shorter [OF Some that] by blast
    show ?thesis
      by (subst (1 2) redact_loop.simps) (simp add: Some IH [of "out @ _"] IH [of "_ @ _"] option.map_comp comp_def)
  qed (subst (1 2) redact_loop.simps, simp)
qed

lemma redact_loop_ends: "key \<noteq> [] \<Longrightarrow> \<exists>s. redact_loop key out message = Some s"
proof (induction message arbitrary: out rule: length_induct)
  case (1 message)
  show ?case
  proof (cases "Index (ToLower message) key")
    case (Some i)
    with 1 redact_loop_shorter [OF Some \<open>key \<noteq> []\<close>] show ?thesis
      by (subst redact_loop.simps) simp
  qed (subst redact_loop.simps, simp)
qed

section \<open>What is left of the values\<close>

text \<open>
  \<open>covered k s\<close>: wherever the key occurs in \<open>s\<close>, in any case of its letters, the mark follows.
\<close>

definition covered :: "string \<Rightarrow> string \<Rightarrow> bool" where
  "covered k s \<longleftrightarrow> (\<forall>u v. s = u @ v \<and> prefix k (ToLower v) \<longrightarrow> prefix redacted_mark (drop (length k) v))"

text \<open>The keys of the two lists: small letters and a separator that the mark does not contain.\<close>

definition plain_key :: "string \<Rightarrow> bool" where
  "plain_key k \<longleftrightarrow> k \<noteq> [] \<and> ToLower k = k \<and> last k \<notin> set redacted_mark \<and>
     (\<forall>c \<in> set k. \<not> value_end c \<and> \<not> is_space c \<and> c \<noteq> CHR ''<'' \<and> c \<noteq> CHR ''>'')"

lemma coveredD: "covered k (u @ v) \<Longrightarrow> prefix k (ToLower v) \<Longrightarrow> prefix redacted_mark (drop (length k) v)"
  by (simp add: covered_def)

lemma covered_suffix: "covered k (u @ v) \<Longrightarrow> covered k v"
  unfolding covered_def by (metis append.assoc)

lemma ToLower_append [simp]: "ToLower (u @ v) = ToLower u @ ToLower v"
  by (simp add: ToLower_def)

lemma ToLower_Cons [simp]: "ToLower (c # v) = lower_char c # ToLower v"
  by (simp add: ToLower_def)

lemma prefix_before: "prefix k (x @ c # y) \<Longrightarrow> c \<notin> set k \<Longrightarrow> prefix k x"
  by (auto simp: prefix_append prefix_Cons)

lemma separators_lower:
  "value_end c \<Longrightarrow> lower_char c = c" "is_space c \<Longrightarrow> lower_char c = c" "lower_char (CHR ''<'') = CHR ''<''" "lower_char (CHR ''>'') = CHR ''>''"
  by (auto simp: value_end_def is_space_def lower_char_code)

lemma mark_simps:
  "redacted_mark = CHR ''<'' # ''redacted>''" "redacted_mark \<noteq> []" "length redacted_mark = 10" "last redacted_mark = CHR ''>''"
  "c \<in> set redacted_mark \<Longrightarrow> \<not> value_end c \<and> \<not> is_space c \<and> lower_char c = c"
  by (auto simp: redacted_mark_def value_end_def is_space_def lower_char_code)

text \<open>A character that is in no key and not in the mark splits the text.\<close>

definition splitting :: "char \<Rightarrow> bool" where
  "splitting c \<longleftrightarrow> value_end c \<or> is_space c"

lemma splitting_not:
  assumes "splitting c"
  shows "lower_char c = c" and "c \<notin> set redacted_mark" and "plain_key k \<Longrightarrow> c \<notin> set k"
  using assms separators_lower mark_simps(5) by (auto simp: splitting_def plain_key_def)

lemma covered_split:
  assumes "plain_key k" and "splitting c"
  shows "covered k (u @ c # v) \<longleftrightarrow> covered k u \<and> covered k v"
proof
  assume whole: "covered k (u @ c # v)"
  have "prefix redacted_mark (drop (length k) t)" if "u = s @ t" "prefix k (ToLower t)" for s t
  proof -
    have "length k \<le> length t"
      using prefix_length_le [OF that(2)] by simp
    moreover have "prefix redacted_mark (drop (length k) (t @ c # v))"
      using coveredD [of k s "t @ c # v"] whole that by simp
    ultimately show ?thesis
      using prefix_before splitting_not(2) [OF assms(2)] by simp
  qed
  then have "covered k u"
    by (simp add: covered_def)
  moreover have "covered k v"
    using covered_suffix [of k "u @ [c]" v] whole by simp
  ultimately show "covered k u \<and> covered k v"
    by simp
next
  assume parts: "covered k u \<and> covered k v"
  show "covered k (u @ c # v)"
    unfolding covered_def
  proof (intro allI impI, elim conjE)
    fix s t
    assume eq: "u @ c # v = s @ t" and key: "prefix k (ToLower t)"
    from eq consider t' where "u = s @ t'" "t = t' @ c # v" | s' where "c # v = s' @ t" "s = u @ s'"
      by (auto simp: append_eq_append_conv2)
    then show "prefix redacted_mark (drop (length k) t)"
    proof cases
      case 1
      then have "prefix k (ToLower t')"
        using key prefix_before [of k "ToLower t'" c "ToLower v"] splitting_not [OF assms(2)] assms(1) by simp
      moreover from this have "length k \<le> length t'"
        using prefix_length_le by fastforce
      moreover have "covered k (s @ t')"
        using parts 1(1) by simp
      ultimately have "prefix redacted_mark (drop (length k) t')" "drop (length k) t = drop (length k) t' @ c # v"
        using coveredD [of k s t'] 1(2) by simp_all
      then show ?thesis
        by (metis prefix_prefix)
    next
      case 2
      have "c \<notin> set k" "k \<noteq> []"
        using splitting_not(3) [OF assms(2,1)] assms(1) by (simp_all add: plain_key_def)
      then have "\<not> prefix k (ToLower (c # v))"
        unfolding ToLower_Cons splitting_not(1) [OF assms(2)] by (cases k) auto
      with 2(1) key obtain s'' where "v = s'' @ t"
        by (cases s') auto
      with parts key show ?thesis
        using coveredD [of k s'' t] by simp
    qed
  qed
qed

lemma covered_Nil: "plain_key k \<Longrightarrow> covered k []"
  by (simp add: covered_def plain_key_def)

text \<open>The key does not start inside the mark.\<close>

lemma key_not_in_mark:
  assumes "plain_key k" and "redacted_mark = s @ t" and "t \<noteq> []"
  shows "\<not> prefix k (ToLower (t @ x))"
proof
  assume key: "prefix k (ToLower (t @ x))"
  have last: "last t = CHR ''>''"
    using assms(2,3) mark_simps(4) by (metis last_append)
  have "set t \<subseteq> set redacted_mark"
    unfolding assms(2) by simp
  then have low: "ToLower t = t"
    unfolding ToLower_def by (intro map_idI) (use mark_simps(5) in blast)
  show False
  proof (cases "length k \<le> length t")
    case True
    with key low have "prefix k t"
      by (metis ToLower_append prefix_length_prefix prefixI)
    then have "set k \<subseteq> set redacted_mark"
      using \<open>set t \<subseteq> set redacted_mark\<close> set_mono_prefix by blast
    with assms(1) show False
      using last_in_set by (auto simp: plain_key_def)
  next
    case False
    with key low have "prefix t k"
      by (metis ToLower_append linear prefix_length_prefix prefixI)
    then have "last t \<in> set k"
      using assms(3) by (auto simp: prefix_def)
    with assms(1) last show False
      by (auto simp: plain_key_def)
  qed
qed

lemma covered_mark: "plain_key k \<Longrightarrow> covered k redacted_mark"
  using key_not_in_mark [of k _ _ "[]"] unfolding covered_def by (fastforce simp: plain_key_def)

text \<open>
  One replacement: \<open>s\<close> is the text up to the end of the key. If the key \<open>k\<close> was covered where it
  occurs inside \<open>s\<close>, it is covered afterwards.
\<close>

lemma covered_replace:
  assumes "plain_key k" and "covered k out"
    and inside: "\<And>t. suffix t s \<Longrightarrow> t \<noteq> [] \<Longrightarrow> prefix k (ToLower t) \<Longrightarrow> prefix redacted_mark (drop (length k) t @ redacted_mark)"
  shows "covered k (s @ redacted_mark @ out)"
  unfolding covered_def
proof (intro allI impI, elim conjE)
  fix u v
  assume eq: "s @ redacted_mark @ out = u @ v" and key: "prefix k (ToLower v)"
  from eq consider t where "s = u @ t" "t \<noteq> []" "v = t @ redacted_mark @ out"
    | t m where "redacted_mark = m @ t" "t \<noteq> []" "v = t @ out" | o' where "out = o' @ v"
  proof -
    from eq consider t where "s = u @ t" "v = t @ redacted_mark @ out" | m where "u = s @ m" "m @ v = redacted_mark @ out"
      unfolding append_eq_append_conv2 [of s "redacted_mark @ out" u v] by auto
    then show thesis
    proof cases
      case 1
      with that(1) [of t] that(2) [of "[]" redacted_mark] mark_simps(2) show thesis
        by (cases "t = []") simp_all
    next
      case 2
      from 2(2) consider t where "m @ t = redacted_mark" "v = t @ out" | o' where "m = redacted_mark @ o'" "out = o' @ v"
        unfolding append_eq_append_conv2 [of m v redacted_mark out] by auto
      then show thesis
      proof cases
        case 1
        with that(2) [of m t, OF 1(1) [symmetric]] that(3) [of "[]"] show thesis
          by (cases "t = []") simp_all
      qed (rule that(3))
    qed
  qed
  then show "prefix redacted_mark (drop (length k) v)"
  proof cases
    case 1
    have "ToLower v = ToLower t @ CHR ''<'' # ToLower (''redacted>'' @ out)"
      by (simp add: 1(3) mark_simps(1) separators_lower)
    moreover have "CHR ''<'' \<notin> set k"
      using assms(1) by (auto simp: plain_key_def)
    ultimately have "prefix k (ToLower t)"
      using key prefix_before by metis
    moreover from this have "length k \<le> length t"
      using prefix_length_le by fastforce
    ultimately show ?thesis
      using inside [of t] 1 by (auto simp: suffix_def prefix_append)
  next
    case 2
    with key_not_in_mark [OF assms(1) 2(1,2)] key show ?thesis
      by simp
  next
    case 3
    with assms(2) key show ?thesis
      by (simp add: covered_def)
  qed
qed

lemma redact_loop_step:
  assumes "Index (ToLower m) key = Some i" and "key \<noteq> []"
  shows "redact_loop key [] m = map_option (\<lambda>s. take (i + length key) m @ redacted_mark @ s)
    (redact_loop key [] (dropWhile (\<lambda>c. \<not> value_end c) (drop (i + length key) m)))"
  by (subst redact_loop.simps)
    (simp add: assms(1) redact_loop_out [OF assms(2), of "take i m @ _"] take_add)

lemma first_key:
  assumes "Index (ToLower m) key = Some i" and "key \<noteq> []"
  shows "i + length key \<le> length m" and "ToLower (drop i (take (i + length key) m)) = key"
    and "j < i \<Longrightarrow> \<not> prefix key (ToLower (drop j m))"
proof -
  have key: "prefix key (ToLower (drop i m))" and first: "\<forall>j<i. \<not> prefix key (ToLower (drop j m))"
    using Index_Some [OF assms(1)] by (simp_all add: ToLower_def drop_map)
  from prefix_length_le [OF key] have len: "length key \<le> length m - i"
    by simp
  moreover from assms(2) have "0 < length key"
    by simp
  ultimately show "i + length key \<le> length m"
    by linarith
  have "take (length key) (ToLower (drop i m)) = key"
    using key by (auto simp: prefix_def)
  then show "ToLower (drop i (take (i + length key) m)) = key"
    by (simp add: ToLower_def drop_take take_map)
  show "j < i \<Longrightarrow> \<not> prefix key (ToLower (drop j m))"
    using first by blast
qed

lemma covered_drop: "covered k m \<Longrightarrow> covered k (dropWhile P (drop n m))"
  using covered_suffix [of k "take n m" "drop n m"] covered_suffix [of k "takeWhile P (drop n m)" "dropWhile P (drop n m)"]
  by simp

text \<open>The pass for \<open>key\<close> covers it, and uncovers no other.\<close>

lemma pass_covers: "plain_key key \<Longrightarrow> redact_loop key [] m = Some out \<Longrightarrow> covered key out"
proof (induction m arbitrary: out rule: length_induct)
  case (1 m)
  note ne = 1(2) [unfolded plain_key_def, THEN conjunct1]
  show ?case
  proof (cases "Index (ToLower m) key")
    case None
    then have "out = m"
      using 1(3) by (subst (asm) redact_loop.simps) simp
    moreover have "\<not> prefix key (ToLower v)" if "m = u @ v" for u v
      using Index_None [OF None, of "length u"] that by (simp add: ToLower_def)
    ultimately show ?thesis
      by (auto simp: covered_def)
  next
    case (Some i)
    let ?rest = "dropWhile (\<lambda>c. \<not> value_end c) (drop (i + length key) m)"
    let ?s = "take (i + length key) m"
    obtain out' where out': "redact_loop key [] ?rest = Some out'" "out = ?s @ redacted_mark @ out'"
      using 1(3) unfolding redact_loop_step [OF Some ne] by auto
    have "covered key out'"
      using 1 redact_loop_shorter [OF Some ne] out'(1) by blast
    moreover have "prefix redacted_mark (drop (length key) t @ redacted_mark)"
      if t: "suffix t ?s" "prefix key (ToLower t)" for t
    proof -
      obtain u where u: "?s = u @ t"
        using t(1) by (auto simp: suffix_def)
      have "m = u @ t @ drop (i + length key) m"
        using append_take_drop_id [of "i + length key" m] u by simp
      then have "drop (length u) m = t @ drop (i + length key) m"
        by (metis append_eq_conv_conj)
      then have "prefix key (ToLower (drop (length u) m))"
        using t(2) by (simp add: prefix_prefix)
      then have "i \<le> length u"
        using first_key(3) [OF Some ne] not_less by blast
      then have "drop (length key) t = []"
        using first_key(1) [OF Some ne] arg_cong [OF u, of length] by simp
      then show ?thesis
        by simp
    qed
    ultimately show ?thesis
      unfolding out'(2) by (intro covered_replace [OF 1(2)])
  qed
qed

lemma pass_keeps: "plain_key key \<Longrightarrow> plain_key k \<Longrightarrow> covered k m \<Longrightarrow> redact_loop key [] m = Some out \<Longrightarrow> covered k out"
proof (induction m arbitrary: out rule: length_induct)
  case (1 m)
  note ne = 1(2) [unfolded plain_key_def, THEN conjunct1]
  show ?case
  proof (cases "Index (ToLower m) key")
    case None
    then show ?thesis
      using 1(4,5) by (subst (asm) redact_loop.simps) simp
  next
    case (Some i)
    let ?rest = "dropWhile (\<lambda>c. \<not> value_end c) (drop (i + length key) m)"
    let ?s = "take (i + length key) m"
    obtain out' where out': "redact_loop key [] ?rest = Some out'" "out = ?s @ redacted_mark @ out'"
      using 1(5) unfolding redact_loop_step [OF Some ne] by auto
    have "covered k out'"
      using 1(1) redact_loop_shorter [OF Some ne] 1(2,3) covered_drop [OF 1(4)] out'(1) by blast
    moreover have "prefix redacted_mark (drop (length k) t @ redacted_mark)"
      if t: "suffix t ?s" "t \<noteq> []" "prefix k (ToLower t)" for t
    proof (cases "drop (length k) t = []")
      case False
      obtain u where u: "?s = u @ t"
        using t(1) by (auto simp: suffix_def)
      have "covered k (u @ t @ drop (i + length key) m)"
        using 1(4) append_take_drop_id [of "i + length key" m] u by simp
      from coveredD [OF this] t(3) have "prefix redacted_mark (drop (length k) (t @ drop (i + length key) m))"
        by (simp add: prefix_prefix)
      moreover have "length k \<le> length t"
        using False by simp
      ultimately have mark: "prefix redacted_mark (drop (length k) t @ drop (i + length key) m)"
        by simp
      have "last (drop (length k) t) = last (drop i ?s)"
        using False u first_key(1,2) [OF Some ne] ne t(2)
        by (metis ToLower_def last_appendR last_drop length_drop length_greater_0_conv length_map list.map_disc_iff not_less drop_eq_Nil)
      then have "lower_char (last (drop (length k) t)) = last key"
        using first_key(2) [OF Some ne] ne by (metis ToLower_def last_map list.map_disc_iff)
      then have "last (drop (length k) t) \<notin> set redacted_mark"
        using 1(2) mark_simps(5) by (metis plain_key_def)
      then have "\<not> prefix (drop (length k) t) redacted_mark"
        using False last_in_set set_mono_prefix by blast
      with mark have "prefix redacted_mark (drop (length k) t)"
        by (metis append_eq_append_conv2 prefixI prefix_def prefix_append)
      then show ?thesis
        by (simp add: prefix_prefix)
    qed simp
    ultimately show ?thesis
      unfolding out'(2) by (intro covered_replace [OF 1(3)])
  qed
qed

text \<open>All passes, for either copy of the loop.\<close>

lemma passes:
  assumes "\<And>m key. redact m key = redact_loop key [] m" and "\<forall>key \<in> set keys. plain_key key"
  shows "\<exists>out. redact_keys redact keys m = Some out \<and> (\<forall>key \<in> set keys. covered key out) \<and>
    (\<forall>k. plain_key k \<longrightarrow> covered k m \<longrightarrow> covered k out)"
  using assms(2)
proof (induction keys arbitrary: m)
  case (Cons key keys)
  then have key: "plain_key key" and "key \<noteq> []"
    by (simp_all add: plain_key_def)
  then obtain m' where m': "redact_loop key [] m = Some m'"
    using redact_loop_ends by blast
  obtain out where out: "redact_keys redact keys m' = Some out" "\<forall>key \<in> set keys. covered key out"
    "\<forall>k. plain_key k \<longrightarrow> covered k m' \<longrightarrow> covered k out"
  proof -
    from Cons.prems have "\<forall>key \<in> set keys. plain_key key"
      by simp
    from Cons.IH [OF this, of m'] show thesis
      using that by blast
  qed
  have "covered key out"
    using out(3) key pass_covers [OF key m'] by blast
  moreover have "\<forall>k. plain_key k \<longrightarrow> covered k m \<longrightarrow> covered k out"
    using out(3) pass_keeps [OF key _ _ m'] by blast
  moreover have "redact_keys redact (key # keys) m = Some out"
    using out(1) m' assms(1) [of m key] by simp
  ultimately show ?case
    using out(2) by auto
qed simp

lemma plain_keys: "\<forall>k \<in> set (webhook_keys @ notification_keys). plain_key k"
  by (simp add: webhook_keys_def notification_keys_def plain_key_def redacted_mark_def ToLower_def
      lower_char_code value_end_def is_space_def)

lemma covered_join: "plain_key k \<Longrightarrow> covered k (JoinSpace ws) \<longleftrightarrow> (\<forall>w \<in> set ws. covered k w)"
  by (induction ws rule: JoinSpace.induct)
    (simp_all add: covered_Nil covered_split splitting_def is_space_def)

lemma covered_fields:
  assumes "plain_key k" and "covered k (w @ s)"
  shows "\<forall>f \<in> set (Fields_loop w s). covered k f"
  using assms(2)
proof (induction w s rule: Fields_loop.induct)
  case (2 w c cs)
  show ?case
  proof (cases "is_space c")
    case True
    then have "covered k w" "covered k cs"
      using "2.prems" covered_split [OF assms(1), of c w cs] by (simp_all add: splitting_def)
    then show ?thesis
      using "2.IH"(1,2) [OF True] True by (cases "w = []") simp_all
  next
    case False
    then show ?thesis
      using "2.IH"(3) [OF False] "2.prems" by simp
  qed
qed simp

lemma redact_words_cases:
  "redact_words (f # g # rest) = f # redact_words (g # rest) \<or> redact_words (f # g # rest) = f # redact_words (redacted_mark # rest)"
  unfolding redact_words.simps Let_def by (simp split: if_split)

lemma covered_words:
  assumes "plain_key k" and "\<forall>f \<in> set ws. covered k f"
  shows "\<forall>f \<in> set (redact_words ws). covered k f"
  using assms(2)
proof (induction ws rule: length_induct)
  case (1 ws)
  consider "ws = []" | f where "ws = [f]" | f g rest where "ws = f # g # rest"
    by (metis list.exhaust)
  then show ?case
  proof cases
    case 3
    have "\<forall>x \<in> set (redact_words (g # rest)). covered k x" "covered k f"
      using 1(1) [rule_format, of "g # rest"] 1(2) 3 by auto
    moreover have "\<forall>x \<in> set (redact_words (redacted_mark # rest)). covered k x"
      using 1(1) [rule_format, of "redacted_mark # rest"] 1(2) 3 covered_mark [OF assms(1)] by auto
    ultimately show ?thesis
      unfolding 3 using redact_words_cases [of f g rest] by (auto simp del: redact_words.simps)
  qed (use 1 in simp_all)
qed

lemma covered_prefix:
  assumes "plain_key k" and "covered k (s @ t)" and "\<forall>c \<in> set t. is_space c"
  shows "covered k s"
proof (cases t)
  case (Cons c t')
  then show ?thesis
    using assms covered_split [of k c s t'] by (simp add: splitting_def)
qed (use assms(2) in simp)

lemma covered_trim: "plain_key k \<Longrightarrow> covered k s \<Longrightarrow> covered k (TrimSpace s)"
proof -
  assume k: "plain_key k" and s: "covered k s"
  let ?t = "dropWhile is_space s"
  have "covered k ?t"
    using covered_drop [OF s, of is_space 0] by simp
  moreover have "?t = TrimSpace s @ rev (takeWhile is_space (rev ?t))"
    unfolding TrimSpace_def by (metis rev_append rev_rev_ident takeWhile_dropWhile_id)
  ultimately show "covered k (TrimSpace s)"
    using covered_prefix [OF k] by (metis set_rev set_takeWhileD)
qed

text \<open>After the cut at 240 bytes: what follows a key is the mark, or the part of it that was not cut off.\<close>

definition covered_cut :: "string \<Rightarrow> string \<Rightarrow> bool" where
  "covered_cut k s \<longleftrightarrow> (\<forall>u v. s = u @ v \<and> prefix k (ToLower v) \<longrightarrow> prefix (take (length redacted_mark) (drop (length k) v)) redacted_mark)"

lemma covered_take:
  assumes "covered k s"
  shows "covered_cut k (take n s)"
  unfolding covered_cut_def
proof (intro allI impI, elim conjE)
  fix u v
  assume eq: "take n s = u @ v" and key: "prefix k (ToLower v)"
  have "s = u @ v @ drop n s"
    using append_take_drop_id [of n s] eq by simp
  then have "prefix redacted_mark (drop (length k) (v @ drop n s))"
    using assms key coveredD [of k u "v @ drop n s"] by (simp add: prefix_prefix)
  moreover have "length k \<le> length v"
    using prefix_length_le [OF key] by simp
  ultimately have mark: "prefix redacted_mark (drop (length k) v @ drop n s)"
    by simp
  have start: "prefix (take (length redacted_mark) (drop (length k) v)) (drop (length k) v @ drop n s)"
    by (intro prefix_prefix take_is_prefix)
  show "prefix (take (length redacted_mark) (drop (length k) v)) redacted_mark"
    by (rule prefix_length_prefix [OF start mark]) simp
qed

lemma Sanitize_ends: "\<exists>msg. SanitizeWebhookError lib text = Some msg"
proof -
  have "\<forall>key \<in> set webhook_keys. plain_key key"
    using plain_keys by simp
  from passes [OF redactSensitiveAssignment_def this]
  have "\<exists>out. redact_keys redactSensitiveAssignment webhook_keys m = Some out" for m
    by blast
  then show ?thesis
    unfolding SanitizeWebhookError_def redactSensitiveQueryLikeText_def Let_def
    by (cases "absolute_url lib (TrimSpace text)") auto
qed

section \<open>Redaction ends and covers\<close>


definition sample_url_lib :: url_lib where
  "sample_url_lib = \<lparr>ul_Parse = (\<lambda>s. None), ul_String = url_Host\<rparr>"


section \<open>Where the guarantee ends\<close>

text \<open>An empty key would keep the loop at the end of a value for ever.\<close>

lemma empty_key_restarts: "redact_loop [] out '';x'' = redact_loop [] (out @ redacted_mark) '';x''"
  by (subst redact_loop.simps) (simp add: value_end_def ToLower_def prefix_def)

text \<open>The text before the first key and the value of the key: only the first is seen.\<close>

lemma Index_append: "Index s key = Some i \<Longrightarrow> Index (s @ t) key = Some i"
proof (induction s arbitrary: i)
  case Nil
  then show ?case
    by (cases t) (auto split: if_splits)
next
  case (Cons c s)
  show ?case
  proof (cases "prefix key (c # s)")
    case True
    with Cons.prems show ?thesis
      by (auto simp: prefix_prefix [of key "c # s" t, simplified])
  next
    case False
    with Cons.prems obtain j where j: "Index s key = Some j" "i = Suc j"
      by auto
    have "length key \<le> length s"
      using Index_Some [OF j(1)] prefix_length_le by fastforce
    then have "\<not> prefix key (c # s @ t)"
      using False by (metis append_Cons length_Cons le_SucI prefix_length_prefix prefixI)
    with Cons.IH [OF j(1)] j(2) show ?thesis
      by simp
  qed
qed

lemma value_irrelevant:
  assumes "plain_key key" and "Index (ToLower (pre @ k)) key = Some (length pre)" and "length k = length key"
    and "\<forall>c \<in> set v. \<not> value_end c" and "\<forall>c \<in> set v'. \<not> value_end c" and "rest = [] \<or> value_end (hd rest)"
  shows "redactNotificationAssignment (pre @ k @ v @ rest) key = redactNotificationAssignment (pre @ k @ v' @ rest) key"
proof -
  have ne: "key \<noteq> []"
    using assms(1) by (simp add: plain_key_def)
  have "redact_loop key [] (pre @ k @ x @ rest) = map_option (\<lambda>s. pre @ k @ redacted_mark @ s) (redact_loop key [] rest)"
    if "\<forall>c \<in> set x. \<not> value_end c" for x
  proof -
    have idx: "Index (ToLower (pre @ k @ x @ rest)) key = Some (length pre)"
      using Index_append [OF assms(2), of "ToLower (x @ rest)"] by simp
    have "dropWhile (\<lambda>c. \<not> value_end c) (x @ rest) = rest"
      using that assms(6) by (subst dropWhile_append2) (auto simp: dropWhile_fix)
    then show ?thesis
      unfolding redact_loop_step [OF idx ne] by (simp add: assms(3) [symmetric])
  qed
  with assms(4,5) show ?thesis
    by (simp add: redactNotificationAssignment_def)
qed

end
