(* ===== verification/Spec2Isabelle.thy ===== *)
theory Spec2Isabelle
  imports Prelude Model Store Sample ArtifactRepo QuotaRepo UserRepo TokenRepo QuotaService BlobStore
    Reservation Accounting Isolation HookLog BundleService SnapshotService Retention
    AuditLog SecurityRepos Erasure Account PrivacyExport Password Settings Tokens AuthService TwoFactor Idempotency
    Requests RateLimit Redaction
begin

text \<open>
  HistorySync server: the data it keeps and the services over it.

  The program. A client registers and logs in (AuthService), registers its devices and
  uploads encrypted artifacts: bundles of history events, appended by a device, and
  snapshots, of which an account keeps a bounded number. An artifact is a row in PostgreSQL
  and an object in an S3 store; its bytes are charged to the account's quota counters. A
  retention job purges artifacts that were deleted long enough ago; an account is deleted in
  two steps, a request that closes it and an erasure job that removes its personal data
  after a grace period. The HTTP handlers, which parse requests and call these services, are
  thin and not modelled.

  State and effects (Prelude, Model, Store). A Go function that may fail is a function from
  the state to a result, an error or a value, and a new state: the effects made before an
  early return stay. The state is the record world of Store: the tables, each a list of rows
  (migrations/), the objects, the Redis cache, the clock, the random source and the log of
  what leaves the process. A SQL statement, or a transaction, is one function on the
  database at one instant; unique indexes, foreign keys and checks make it fail as the
  schema does. Before each call to a backing service the list faults decides whether it
  fails, and the clock advances by an arbitrary amount: a property that does not speak of
  faults holds whatever fails and however slow the calls are. Errors keep the identity that
  errors.Is can see (sentinels and wrapping). Machine integers are integers with the
  wrap-around written out where the code adds counters; times and durations are integers of
  nanoseconds. No definition needs fuel: every loop runs over a list or reads a string; the one
  loop without a bound of its own (redact_loop) is a partial function, and that it ends is proved.

  Theories and the code they model.
  - Model: pkg/model. Store: the state. Sample: a small world for witnesses.
  - ArtifactRepo, QuotaRepo, UserRepo, TokenRepo (pkg/repository/repository.go),
    SecurityRepos (two_factor.go, passkey.go, notification_preferences.go,
    account_erasure.go), AuditLog (audit.go of repository and service), Settings
    (system_settings.go of repository, settings.go of service): one definition per method.
  - QuotaService, Reservation, BundleService, SnapshotService, Retention, AuthService
    (pkg/service/service.go), Password (its helpers), Tokens (pkg/auth/auth.go), TwoFactor
    (two_factor.go), Account and PrivacyExport (account.go), Erasure (account_erasure.go),
    Idempotency (idempotency.go of repository and service), BlobStore (pkg/storage).
  - RateLimit: the limiters and the middleware over them (pkg/middleware/ratelimit.go,
    auth_ratelimit.go). Redaction: what is removed from the text of delivery errors
    (pkg/provider/notification_webhook.go, pkg/service/notification.go).
  - Accounting, Isolation and HookLog hold the invariants that the services share: bytes
    charged cover bytes stored, no request touches another user's rows or objects, every
    reservation is settled or released. Requests runs the artifact requests of all tenants
    as one step relation.
  A definition has the name of its function, or that of the repository field and the method
  (Users_GetByID for UserRepo.GetByID); a part of a long function has a name of its own and
  is mapped to the lines it translates.

  What is shown. Uploads: a bundle or snapshot that is reported stored is stored, charged and
  listed, and one that fails leaves no row; counters cover the stored bytes in every
  reachable state; concurrent conditional charges never oversell the quota; snapshots beyond
  the limit are pruned oldest first. Tenants: every request keeps the artifacts of other
  users. Retention: a purge leaves no object without its row. Accounts: a deletion closes the
  account, spares the others and leads to a job that the erasure runner can complete; a
  completed erasure leaves no personal data; the privacy export contains no secret. Audit:
  stored metadata is redacted. Authentication: stored hashes recognise their password; the
  three kinds of token do not stand in for each other and open routes exactly for their
  lifetime; login, registration and reset change what they should and nothing else; a
  logged-out refresh token never works again. Two-factor: a second step takes a current code
  or an unused backup code once, and five wrong codes lock the account for fifteen minutes,
  for requests that run one after the other (requests that run at the same time each read
  the lock before they count, see the findings). Idempotency: claims under a key exclude
  each other, and a call reported as finished is never run again. Rate limits: a window lets
  exactly the first requests pass. Redaction ends and leaves no value after a secret key.
  Settings stay well typed.

  Interfaces. Where a client relies on a provider there is a locale with its laws, each
  interpreted on the model: the counters of bundles and snapshots (usage_counter), the two
  artifact stores of a purge (purge_store), the store behind guarded calls
  (idempotency_contract), a limiter with fixed windows (fixed_window).

  Proofs rest on three calculi of the prelude: a weakest-precondition simplifier (wp),
  preservation of invariants (keeps), and contracts (hoareM); a run that succeeded is taken
  apart with run_ok. Two-safety properties (the privacy export) run two worlds side by side.

  Parameters. Code outside the repository is an argument: Argon2id, the JWT library, UUID
  text forms, SHA-256, HMAC, AES-GCM, TOTP, encoding/json at a response type and the jsonb
  cast, mail.ParseAddress, the URL parser, the Redis pipeline of the rate limiter, the
  Enterprise hooks (reservation, deletion policy, erasure reporter). What the properties need of it is a named hypothesis
  stating its documentation, and a witness instantiates it.

  Not modelled. The HTTP handlers and the middleware other than authentication and rate
  limits (they parse, call and render); the operations reports, preflight checks, rehearsals, support bundles
  and migrations (diagnostics over the same tables); mail and webhook delivery with its
  outbox, which happens after the request; the passkey ceremonies (WebAuthn); the web pages,
  the WebSocket hub and the command-line tools. A call whose effect was applied but whose
  acknowledgement was lost is outside the model of faults, and so are the time zones and the
  time resolution of PostgreSQL.
\<close>

end
